(* ===== verification/Prelude.thy ===== *)
theory Prelude
  imports "HOL-Library.Sublist" "HOL-Library.Char_ord" "HOL-Library.List_Lexorder"
    "HOL-Library.AList"
begin

text \<open>
  What every other theory of the development shares: the names of the model's basic types,
  the named collections of facts that the component proofs hand to the simplifier, results
  as sums, Go's zero time and duration arithmetic, and a few lemmas on lists and
  association lists.

  A Go string is a sequence of bytes, so it is a \<^typ>\<open>string\<close> (a list of 8-bit
  characters) and \<open>len\<close> is \<^const>\<open>length\<close>. A Go \<^verbatim>\<open>map[string]T\<close> is an
  association list; two of them are the same map when \<^const>\<open>map_of\<close> agrees.
\<close>

named_theorems handler_defs \<open>definitions of the HTTP handlers and their helpers\<close>
named_theorems store_defs \<open>definitions of the store operations on the tables\<close>
named_theorems kube_defs \<open>definitions of the calls made to the Kubernetes API\<close>

type_synonym time = int
type_synonym duration = int
type_synonym 'v smap = "(string \<times> 'v) list"

section \<open>Results\<close>

text \<open>A Go call that returns \<^verbatim>\<open>(T, error)\<close> is a sum: \<^const>\<open>Inl\<close> holds the error.\<close>

definition res_bind :: "'e + 'a \<Rightarrow> ('a \<Rightarrow> 'e + 'b) \<Rightarrow> 'e + 'b" where
  "res_bind r f = (case r of Inl e \<Rightarrow> Inl e | Inr a \<Rightarrow> f a)"

lemma res_bind_simps [simp]:
  "res_bind (Inl e) f = Inl e"
  "res_bind (Inr a) f = f a"
  by (simp_all add: res_bind_def)

lemma res_bind_eq_Inr [simp]: "res_bind r f = Inr b \<longleftrightarrow> (\<exists>a. r = Inr a \<and> f a = Inr b)"
  by (cases r) auto

lemma res_bind_eq_Inl: "res_bind r f = Inl e \<longleftrightarrow> r = Inl e \<or> (\<exists>a. r = Inr a \<and> f a = Inl e)"
  by (cases r) auto

definition is_ok :: "'e + 'a \<Rightarrow> bool" where
  "is_ok r = (case r of Inl _ \<Rightarrow> False | Inr _ \<Rightarrow> True)"

lemma is_ok_simps [simp]: "\<not> is_ok (Inl e)" "is_ok (Inr a)"
  by (simp_all add: is_ok_def)

lemma is_ok_iff: "is_ok r \<longleftrightarrow> (\<exists>a. r = Inr a)"
  by (cases r) auto

section \<open>Time\<close>

text \<open>
  A \<^verbatim>\<open>time.Time\<close> is its distance in nanoseconds from the Unix epoch; the zero value is the
  first instant of year 1. A \<^verbatim>\<open>time.Duration\<close> is a 64-bit count of nanoseconds and
  \<^verbatim>\<open>Time.Sub\<close> saturates at the ends of that range.
\<close>

definition zero_time :: time where
  "zero_time = - 62135596800 * 1000000000"

definition second :: duration where "second = 1000000000"
definition minute :: duration where "minute = 60 * second"
definition hour :: duration where "hour = 60 * minute"

definition time_sub :: "time \<Rightarrow> time \<Rightarrow> duration" where
  "time_sub t u = max (- (2 ^ 63)) (min (2 ^ 63 - 1) (t - u))"

definition time_after :: "time \<Rightarrow> time \<Rightarrow> bool" where
  "time_after t u = (u < t)"

definition is_zero_time :: "time \<Rightarrow> bool" where
  "is_zero_time t = (t = zero_time)"

lemmas time_simps = second_def minute_def hour_def time_after_def is_zero_time_def zero_time_def

section \<open>Machine integers\<close>

text \<open>The conversion \<^verbatim>\<open>int32(x)\<close> keeps the low 32 bits, read as two's complement.\<close>

definition to_int32 :: "int \<Rightarrow> int" where
  "to_int32 x = (x + 2 ^ 31) mod 2 ^ 32 - 2 ^ 31"

lemma to_int32_range: "- (2 ^ 31) \<le> to_int32 x \<and> to_int32 x < 2 ^ 31"
  unfolding to_int32_def by (simp add: pos_mod_bound)

lemma to_int32_id: "- (2 ^ 31) \<le> x \<Longrightarrow> x < 2 ^ 31 \<Longrightarrow> to_int32 x = x"
  unfolding to_int32_def by simp

section \<open>Lists and association lists\<close>

lemma filter_id_conv_all: "(\<forall>x \<in> set xs. P x) \<Longrightarrow> filter P xs = xs"
  by simp

lemma map_of_filter_keys:
  "map_of (filter (\<lambda>(k, v). P k) m) k = (if P k then map_of m k else None)"
  by (induction m) auto

lemma map_of_update [simp]: "map_of (AList.update k v m) = (map_of m)(k \<mapsto> v)"
  by (rule update_conv')

lemma map_of_delete [simp]: "map_of (AList.delete k m) = (map_of m)(k := None)"
  by (rule delete_conv')

lemma distinct_fst_update [simp]:
  "distinct (map fst m) \<Longrightarrow> distinct (map fst (AList.update k v m))"
  by (rule distinct_update)

text \<open>
  Rows of a table are found by key: the first row of \<^term>\<open>xs\<close> that satisfies
  \<^term>\<open>P\<close> is what \<^verbatim>\<open>QueryRow\<close> scans.
\<close>

lemma find_eq_Some_in: "find P xs = Some x \<Longrightarrow> x \<in> set xs \<and> P x"
  by (auto simp: find_Some_iff)

lemma find_eq_None_iff: "find P xs = None \<longleftrightarrow> (\<forall>x \<in> set xs. \<not> P x)"
  by (auto simp: find_None_iff)

lemma find_append: "find P (xs @ ys) = (case find P xs of None \<Rightarrow> find P ys | Some x \<Rightarrow> Some x)"
  by (induction xs) auto

lemma find_filter_eq: "(\<And>x. P x \<Longrightarrow> Q x) \<Longrightarrow> find P (filter Q xs) = find P xs"
  by (induction xs) auto

lemma find_unique:
  assumes "x \<in> set xs" "P x" "\<And>y. y \<in> set xs \<Longrightarrow> P y \<Longrightarrow> y = x"
  shows "find P xs = Some x"
proof -
  obtain y where y: "find P xs = Some y"
    using assms(1,2) by (cases "find P xs") (auto simp: find_None_iff)
  then have "y = x" using assms(3) find_eq_Some_in [OF y] by blast
  with y show ?thesis by simp
qed

lemma distinct_map_filterI: "distinct (map f xs) \<Longrightarrow> distinct (map f (filter P xs))"
  by (induction xs) auto

lemma distinct_map_eqD:
  "distinct (map f xs) \<Longrightarrow> x \<in> set xs \<Longrightarrow> y \<in> set xs \<Longrightarrow> f x = f y \<Longrightarrow> x = y"
  by (auto simp: distinct_map inj_on_def)

section \<open>Keyed lists\<close>

text \<open>\<^term>\<open>by_key k rows\<close> reads a table with a unique key as a map.\<close>

definition by_key :: "('a \<Rightarrow> string) \<Rightarrow> 'a list \<Rightarrow> (string \<rightharpoonup> 'a)" where
  "by_key k rows = (\<lambda>i. find (\<lambda>r. k r = i) rows)"

lemma by_key_SomeD: "by_key k rows i = Some r \<Longrightarrow> r \<in> set rows \<and> k r = i"
  by (auto simp: by_key_def dest: find_eq_Some_in)

lemma by_key_in: "distinct (map k rows) \<Longrightarrow> r \<in> set rows \<Longrightarrow> by_key k rows (k r) = Some r"
  unfolding by_key_def by (rule find_unique) (auto dest: distinct_map_eqD)

lemma by_key_iff:
  "distinct (map k rows) \<Longrightarrow> by_key k rows i = Some r \<longleftrightarrow> r \<in> set rows \<and> k r = i"
  using by_key_SomeD by_key_in by metis

lemma by_key_None: "by_key k rows i = None \<longleftrightarrow> (\<forall>r \<in> set rows. k r \<noteq> i)"
  by (auto simp: by_key_def find_None_iff)

lemma ran_by_key: "distinct (map k rows) \<Longrightarrow> ran (by_key k rows) = set rows"
  by (auto simp: ran_def by_key_iff)

lemma by_key_append:
  "by_key k rows (k r) = None \<Longrightarrow> by_key k (rows @ [r]) = (by_key k rows)(k r \<mapsto> r)"
  by (auto simp: by_key_def find_append fun_eq_iff split: option.splits)

lemma fresh_key [simp]: "by_key k rows i = None \<Longrightarrow> i \<notin> k ` set rows"
  by (auto simp: by_key_None)

lemma by_key_filter:
  "distinct (map k rows) \<Longrightarrow>
   by_key k (filter P rows) i =
     (case by_key k rows i of None \<Rightarrow> None | Some r \<Rightarrow> if P r then Some r else None)"
proof (cases "by_key k rows i")
  case None
  then have "by_key k (filter P rows) i = None" by (auto simp: by_key_None)
  with None show ?thesis by simp
next
  case (Some r)
  moreover assume d: "distinct (map k rows)"
  ultimately have r: "r \<in> set rows" "k r = i" by (simp_all add: by_key_iff)
  show ?thesis
  proof (cases "P r")
    case True
    with r d have "by_key k (filter P rows) i = Some r"
      by (simp add: by_key_iff distinct_map_filterI)
    with Some True show ?thesis by simp
  next
    case False
    with r d have "by_key k (filter P rows) i = None"
      by (auto simp: by_key_None dest: distinct_map_eqD)
    with Some False show ?thesis by simp
  qed
qed

lemma by_key_exists: "list_ex (\<lambda>r. k r = i) rows \<longleftrightarrow> by_key k rows i \<noteq> None"
  by (auto simp: by_key_None list_ex_iff)

lemma by_key_Nil [simp]: "by_key k [] = Map.empty"
  by (simp add: by_key_def)

lemma by_key_Cons: "by_key k (r # rows) = (by_key k rows)(k r \<mapsto> r)"
  by (auto simp: by_key_def)

lemma by_key_append_map: "by_key k (xs @ ys) = by_key k ys ++ by_key k xs"
  by (auto simp: by_key_def find_append map_add_def fun_eq_iff split: option.splits)

lemma by_key_others:
  assumes "distinct (map k rows)" "n < length rows"
  shows "by_key k (take n rows) (k (rows ! n)) = None"
    "by_key k (drop (Suc n) rows) (k (rows ! n)) = None"
    "distinct (map k (take n rows @ drop (Suc n) rows))"
proof -
  have "rows = take n rows @ rows ! n # drop (Suc n) rows"
    using assms(2) by (rule id_take_nth_drop)
  then have d: "distinct (map k (take n rows @ rows ! n # drop (Suc n) rows))"
    using assms(1) by simp
  then show "distinct (map k (take n rows @ drop (Suc n) rows))" by auto
  have "\<forall>r \<in> set (take n rows). k r \<noteq> k (rows ! n)" "\<forall>r \<in> set (drop (Suc n) rows). k r \<noteq> k (rows ! n)"
    using d by (fastforce simp: image_iff)+
  then show "by_key k (take n rows) (k (rows ! n)) = None"
    "by_key k (drop (Suc n) rows) (k (rows ! n)) = None"
    by (simp_all add: by_key_None)
qed

lemma by_key_list_update:
  assumes "distinct (map k rows)" "n < length rows" "k x = k (rows ! n)"
  shows "by_key k (rows[n := x]) = (by_key k rows)(k x \<mapsto> x)"
proof -
  have "by_key k rows = by_key k (take n rows @ rows ! n # drop (Suc n) rows)"
    using assms(2) by (simp add: id_take_nth_drop [symmetric])
  then show ?thesis
    using by_key_others(1,2) [OF assms(1,2)] assms(2,3)
    by (auto simp: upd_conv_take_nth_drop by_key_append_map by_key_Cons fun_eq_iff map_add_def
        split: option.splits)
qed

lemma by_key_remove_nth:
  assumes "distinct (map k rows)" "n < length rows"
  shows "by_key k (take n rows @ drop (Suc n) rows) = (by_key k rows)(k (rows ! n) := None)"
proof -
  have "by_key k rows = by_key k (take n rows @ rows ! n # drop (Suc n) rows)"
    using assms(2) by (simp add: id_take_nth_drop [symmetric])
  then show ?thesis
    using by_key_others(1,2) [OF assms(1,2)]
    by (auto simp: by_key_append_map by_key_Cons fun_eq_iff map_add_def split: option.splits)
qed

end
