(* ===== verification/Sessions.thy ===== *)
theory Sessions
  imports Prelude
begin

text \<open>
  Server-side sessions, \<^verbatim>\<open>internal/session\<close>: the \<^verbatim>\<open>Store\<close> interface of \<^verbatim>\<open>session.go\<close>
  as a record of operations with its contract as the locale \<open>session_store\<close>, and
  \<^verbatim>\<open>MemoryStore\<close> of \<^verbatim>\<open>memory.go\<close> with its lazy garbage collection. Every reading of the
  clock is an argument: \<^verbatim>\<open>Get\<close> reads it twice, once for the sweep and once for the check.
  The store is refined to a map of unexpired sessions: the sweep is unobservable.
\<close>

section \<open>Sessions and the Store interface\<close>

record session =
  ID :: string
  Subject :: string
  Email :: string
  Groups :: "string list"
  Roles :: "string list"
  CreatedAt :: time
  ExpiresAt :: time
  AccessToken :: string

record 'm session_ops =
  SCreate :: "session \<Rightarrow> 'm \<Rightarrow> string option \<times> 'm"
  SGet :: "time \<Rightarrow> time \<Rightarrow> string \<Rightarrow> 'm \<Rightarrow> session option \<times> 'm"
  SDelete :: "string \<Rightarrow> 'm \<Rightarrow> string option \<times> 'm"

section \<open>MemoryStore\<close>

record memory_store =
  sessions :: "session smap"
  lastGC :: time

definition NewMemoryStore :: memory_store where
  "NewMemoryStore = \<lparr>sessions = [], lastGC = zero_time\<rparr>"

definition Create :: "session \<Rightarrow> memory_store \<Rightarrow> string option \<times> memory_store" where
  "Create s m = (None, m\<lparr>sessions := AList.update (ID s) s (sessions m)\<rparr>)"

definition gcLocked :: "time \<Rightarrow> memory_store \<Rightarrow> memory_store" where
  "gcLocked now m =
     (if time_sub now (lastGC m) < minute then m
      else m\<lparr>lastGC := now,
             sessions := filter (\<lambda>(k, s). \<not> time_after now (ExpiresAt s)) (sessions m)\<rparr>)"

definition Get :: "time \<Rightarrow> time \<Rightarrow> string \<Rightarrow> memory_store \<Rightarrow> session option \<times> memory_store" where
  "Get now1 now2 i m =
     (let m' = gcLocked now1 m
      in case map_of (sessions m') i of
           None \<Rightarrow> (None, m')
         | Some s \<Rightarrow>
             if time_after now2 (ExpiresAt s)
             then (None, m'\<lparr>sessions := AList.delete i (sessions m')\<rparr>)
             else (Some s, m'))"

definition Delete :: "string \<Rightarrow> memory_store \<Rightarrow> string option \<times> memory_store" where
  "Delete i m = (None, m\<lparr>sessions := AList.delete i (sessions m)\<rparr>)"

definition memory_ops :: "memory_store session_ops" where
  "memory_ops = \<lparr>SCreate = Create, SGet = Get, SDelete = Delete\<rparr>"

section \<open>The contract\<close>

text \<open>
  \<^term>\<open>unexpired t s\<close> is the session that a store may still hand out at time \<^term>\<open>t\<close>.
  The contract is stated over what a store would answer at a time, \<^term>\<open>live m t\<close>: an
  operation changes that answer only as the interface promises, and looking a session up
  changes none of the answers from then on.
\<close>

definition unexpired :: "time \<Rightarrow> session \<Rightarrow> session option" where
  "unexpired t s = (if t \<le> ExpiresAt s then Some s else None)"

locale session_store =
  fixes S :: "'m session_ops"
    and inv :: "'m \<Rightarrow> bool"
    and live :: "'m \<Rightarrow> time \<Rightarrow> string \<Rightarrow> session option"
  assumes inv_create: "inv m \<Longrightarrow> inv (snd (SCreate S s m))"
    and inv_get: "inv m \<Longrightarrow> inv (snd (SGet S t1 t2 i m))"
    and inv_delete: "inv m \<Longrightarrow> inv (snd (SDelete S i m))"
    and live_fresh: "live m t i = Some s \<Longrightarrow> t \<le> ExpiresAt s"
    and live_later: "t \<le> t' \<Longrightarrow> live m t' i = Option.bind (live m t i) (unexpired t')"
    and get_live: "inv m \<Longrightarrow> t1 \<le> t2 \<Longrightarrow> fst (SGet S t1 t2 i m) = live m t2 i"
    and get_keeps: "inv m \<Longrightarrow> t1 \<le> t2 \<Longrightarrow> t2 \<le> t \<Longrightarrow> live (snd (SGet S t1 t2 i m)) t j = live m t j"
    and create_live: "inv m \<Longrightarrow> fst (SCreate S s m) = None \<Longrightarrow>
      live (snd (SCreate S s m)) t j = (if j = ID s then unexpired t s else live m t j)"
    and delete_live: "inv m \<Longrightarrow>
      live (snd (SDelete S i m)) t j = (if j = i then None else live m t j)"
begin

lemma get_after_create:
  assumes "inv m" "fst (SCreate S s m) = None" "t1 \<le> t2"
  shows "fst (SGet S t1 t2 (ID s) (snd (SCreate S s m))) = unexpired t2 s"
  using assms by (simp add: get_live inv_create create_live)

lemma get_after_delete:
  assumes "inv m" "t1 \<le> t2"
  shows "fst (SGet S t1 t2 i (snd (SDelete S i m))) = None"
  using assms by (simp add: get_live inv_delete delete_live)

lemma get_expired:
  assumes "inv m" "t1 \<le> t2" "fst (SGet S t1 t2 i m) = Some s"
  shows "t2 \<le> ExpiresAt s"
  using assms by (simp add: get_live live_fresh)

end

text \<open>A store whose \<^verbatim>\<open>Create\<close> cannot fail, as the in-memory one.\<close>

locale reliable_session_store = session_store +
  assumes create_ok: "fst (SCreate S s m) = None"

section \<open>Runs of operations and their specification\<close>

datatype session_op = OCreate session | OGet time time string | ODelete string

fun session_step :: "'m session_ops \<Rightarrow> session_op \<Rightarrow> 'm \<Rightarrow> session option \<times> 'm" where
  "session_step S (OCreate s) m = (None, snd (SCreate S s m))"
| "session_step S (OGet t1 t2 i) m = SGet S t1 t2 i m"
| "session_step S (ODelete i) m = (None, snd (SDelete S i m))"

fun session_run :: "'m session_ops \<Rightarrow> session_op list \<Rightarrow> 'm \<Rightarrow> session option list" where
  "session_run S [] m = []"
| "session_run S (x # xs) m =
     (let (r, m') = session_step S x m in r # session_run S xs m')"

text \<open>The specification keeps every session for ever and checks the expiry on reading.\<close>

fun spec_run :: "session_op list \<Rightarrow> (string \<rightharpoonup> session) \<Rightarrow> session option list" where
  "spec_run [] a = []"
| "spec_run (OCreate s # xs) a = None # spec_run xs (a(ID s \<mapsto> s))"
| "spec_run (OGet t1 t2 i # xs) a = Option.bind (a i) (unexpired t2) # spec_run xs a"
| "spec_run (ODelete i # xs) a = None # spec_run xs (a(i := None))"

text \<open>The clock does not run backwards along a run.\<close>

fun clock_ok :: "time \<Rightarrow> session_op list \<Rightarrow> bool" where
  "clock_ok t [] = True"
| "clock_ok t (OGet t1 t2 i # xs) = (t \<le> t1 \<and> t1 \<le> t2 \<and> clock_ok t2 xs)"
| "clock_ok t (_ # xs) = clock_ok t xs"

context reliable_session_store
begin

lemma run_refines_spec:
  assumes "inv m" "clock_ok t xs"
    and "\<And>u i. t \<le> u \<Longrightarrow> live m u i = Option.bind (a i) (unexpired u)"
  shows "session_run S xs m = spec_run xs a"
  using assms
proof (induction xs arbitrary: m a t)
  case Nil
  then show ?case by simp
next
  case (Cons x xs)
  note rel = Cons.prems(3)
  show ?case
  proof (cases x)
    case (OCreate s)
    have "session_run S xs (snd (SCreate S s m)) = spec_run xs (a(ID s \<mapsto> s))"
      using Cons.prems OCreate
      by (intro Cons.IH [where t = t]) (auto simp: inv_create create_live create_ok)
    with OCreate show ?thesis by simp
  next
    case (OGet t1 t2 i)
    with Cons.prems(2) have t: "t \<le> t1" "t1 \<le> t2" and c: "clock_ok t2 xs" by auto
    have "session_run S xs (snd (SGet S t1 t2 i m)) = spec_run xs a"
      using Cons.prems t c
      by (intro Cons.IH [where t = t2]) (auto simp: inv_get get_keeps)
    moreover have "fst (SGet S t1 t2 i m) = Option.bind (a i) (unexpired t2)"
      using Cons.prems(1) t by (simp add: get_live rel)
    ultimately show ?thesis using OGet by (simp add: split_beta Let_def)
  next
    case (ODelete i)
    have "session_run S xs (snd (SDelete S i m)) = spec_run xs (a(i := None))"
      using Cons.prems ODelete
      by (intro Cons.IH [where t = t]) (auto simp: inv_delete delete_live)
    with ODelete show ?thesis by simp
  qed
qed

end

section \<open>MemoryStore meets the contract\<close>

text \<open>The representation: keys are unique and every session is stored under its own ID.\<close>

definition memory_inv :: "memory_store \<Rightarrow> bool" where
  "memory_inv m \<longleftrightarrow>
     distinct (map fst (sessions m)) \<and> (\<forall>(k, s) \<in> set (sessions m). ID s = k)"

definition memory_live :: "memory_store \<Rightarrow> time \<Rightarrow> string \<Rightarrow> session option" where
  "memory_live m t i = Option.bind (map_of (sessions m) i) (unexpired t)"

lemma map_of_filter_vals:
  "distinct (map fst xs) \<Longrightarrow>
   map_of (filter (\<lambda>(k, s). P s) xs) i =
     (case map_of xs i of None \<Rightarrow> None | Some s \<Rightarrow> if P s then Some s else None)"
proof (induction xs)
  case (Cons x xs)
  then show ?case
    by (cases x) (force simp: map_of_eq_None_iff split: option.splits)
qed simp

lemma gc_inv: "memory_inv m \<Longrightarrow> memory_inv (gcLocked t m)"
  by (auto simp: memory_inv_def gcLocked_def distinct_map_filterI)

lemma gc_lookup:
  assumes "memory_inv m" "t1 \<le> t"
  shows "Option.bind (map_of (sessions (gcLocked t1 m)) i) (unexpired t) =
         Option.bind (map_of (sessions m) i) (unexpired t)"
  using assms
  by (auto simp: gcLocked_def memory_inv_def map_of_filter_vals time_after_def unexpired_def
      split: option.splits)

lemma in_set_update:
  "x \<in> set (AList.update k v m) \<Longrightarrow> x = (k, v) \<or> x \<in> set m"
  by (induction m) (auto split: if_splits)

lemma in_set_delete: "x \<in> set (AList.delete k m) \<Longrightarrow> x \<in> set m"
  by (auto simp: AList.delete_eq)

lemma create_inv: "memory_inv m \<Longrightarrow> memory_inv (snd (Create s m))"
  by (auto simp: memory_inv_def Create_def dest!: in_set_update)

lemma delete_inv_rows: "memory_inv m \<Longrightarrow> memory_inv (m\<lparr>sessions := AList.delete i (sessions m)\<rparr>)"
  by (auto simp: memory_inv_def distinct_delete dest!: in_set_delete)

lemma get_inv: "memory_inv m \<Longrightarrow> memory_inv (snd (Get t1 t2 i m))"
  by (auto simp: Get_def Let_def gc_inv delete_inv_rows split: option.splits)

lemma Get_result:
  assumes "memory_inv m" "t1 \<le> t2"
  shows "fst (Get t1 t2 i m) = memory_live m t2 i"
proof -
  have "fst (Get t1 t2 i m) = Option.bind (map_of (sessions (gcLocked t1 m)) i) (unexpired t2)"
    by (auto simp: Get_def Let_def unexpired_def time_after_def split: option.splits)
  with gc_lookup [OF assms] show ?thesis by (simp add: memory_live_def)
qed

lemma Get_keeps:
  assumes "memory_inv m" "t1 \<le> t2" "t2 \<le> t"
  shows "memory_live (snd (Get t1 t2 i m)) t j = memory_live m t j"
proof -
  have "memory_live (snd (Get t1 t2 i m)) t j = memory_live (gcLocked t1 m) t j"
    using assms(3)
    by (auto simp: Get_def Let_def memory_live_def unexpired_def time_after_def
        split: option.splits)
  with gc_lookup [of m t1 t j] assms show ?thesis by (simp add: memory_live_def)
qed

lemma Create_live:
  "memory_live (snd (Create s m)) t j = (if j = ID s then unexpired t s else memory_live m t j)"
  by (simp add: memory_live_def Create_def)

lemma Create_ok [simp]: "fst (Create s m) = None"
  by (simp add: Create_def)

lemma Delete_live:
  "memory_live (snd (Delete i m)) t j = (if j = i then None else memory_live m t j)"
  by (simp add: memory_live_def Delete_def)

lemma memory_live_fresh: "memory_live m t i = Some s \<Longrightarrow> t \<le> ExpiresAt s"
  by (auto simp: memory_live_def unexpired_def split: bind_splits if_splits)

lemma memory_live_later:
  "t \<le> t' \<Longrightarrow> memory_live m t' i = Option.bind (memory_live m t i) (unexpired t')"
  by (cases "map_of (sessions m) i") (auto simp: memory_live_def unexpired_def)

lemma Delete_inv: "memory_inv m \<Longrightarrow> memory_inv (snd (Delete i m))"
  by (simp add: Delete_def delete_inv_rows)

lemma memory_ops_simps [simp]:
  "SCreate memory_ops = Create" "SGet memory_ops = Get" "SDelete memory_ops = Delete"
  by (simp_all add: memory_ops_def)

interpretation ms: reliable_session_store memory_ops memory_inv memory_live
  by unfold_locales
    (simp_all add: create_inv get_inv Delete_inv Get_result Get_keeps Create_live Delete_live
      memory_live_fresh, rule memory_live_later)

lemma memory_inv_new [simp]: "memory_inv NewMemoryStore"
  by (simp add: memory_inv_def NewMemoryStore_def)

section \<open>Properties\<close>

text \<open>
  C30: in-memory sessions behave as if the store never forgot anything and checked the expiry
  on every reading: along any run of creations, look-ups and deletions in which the clock does
  not go backwards, every answer of \<^verbatim>\<open>MemoryStore\<close> is that of the specification, so neither
  the once-a-minute sweep nor the lazy deletion is observable.
\<close>

theorem memory_store_refines_spec:
  assumes "clock_ok t xs"
  shows "session_run memory_ops xs NewMemoryStore = spec_run xs Map.empty"
  by (rule ms.run_refines_spec [OF memory_inv_new assms])
    (simp add: memory_live_def NewMemoryStore_def)

definition example_session :: session where
  "example_session =
     \<lparr>ID = ''sid'', Subject = ''u1'', Email = ''u1@x.io'', Groups = [], Roles = [''dev''],
      CreatedAt = 0, ExpiresAt = 2 * minute, AccessToken = []\<rparr>"

definition example_run :: "session_op list" where
  "example_run =
     [OCreate example_session, OGet second second ''sid'',
      OGet (2 * minute) (2 * minute + 1) ''sid'', OGet hour hour ''sid'', ODelete ''sid'']"

theorem memory_store_refines_spec_witness:
  "session_run memory_ops example_run NewMemoryStore = spec_run example_run Map.empty \<and>
   spec_run example_run Map.empty = [None, Some example_session, None, None, None]"
proof -
  have "clock_ok 0 example_run"
    by (simp add: example_run_def time_simps)
  note memory_store_refines_spec [OF this]
  moreover have "spec_run example_run Map.empty = [None, Some example_session, None, None, None]"
    by (simp add: example_run_def example_session_def unexpired_def time_simps)
  ultimately show ?thesis by simp
qed

lemma gcLocked_kept:
  "x \<in> set (sessions (gcLocked t m)) \<Longrightarrow> minute \<le> time_sub t (lastGC m) \<Longrightarrow>
   t \<le> ExpiresAt (snd x)"
  by (auto simp: gcLocked_def time_after_def)

lemma Get_rows: "set (sessions (snd (Get t1 t2 i m))) \<subseteq> set (sessions (gcLocked t1 m))"
  by (auto simp: Get_def Let_def dest: in_set_delete split: option.splits)

text \<open>
  The sweep bounds the map: after a look-up that comes a minute or more after the last
  sweep, every session still held was unexpired at the time of the sweep, every other session
  that was unexpired is still held, and the next sweep waits for another minute.
\<close>

lemma memory_store_sweep:
  assumes "memory_inv m" "minute \<le> time_sub t1 (lastGC m)"
  shows "(\<forall>x \<in> set (sessions (snd (Get t1 t2 i m))). t1 \<le> ExpiresAt (snd x)) \<and>
         (\<forall>k s. map_of (sessions m) k = Some s \<and> t1 \<le> ExpiresAt s \<and> k \<noteq> i \<longrightarrow>
            map_of (sessions (snd (Get t1 t2 i m))) k = Some s) \<and>
         lastGC (snd (Get t1 t2 i m)) = t1"
proof (intro conjI)
  show "\<forall>x \<in> set (sessions (snd (Get t1 t2 i m))). t1 \<le> ExpiresAt (snd x)"
    using assms(2) Get_rows gcLocked_kept by blast
  have gc: "map_of (sessions (gcLocked t1 m)) k = Some s"
    if "map_of (sessions m) k = Some s" "t1 \<le> ExpiresAt s" for k s
    using that assms
    by (simp add: gcLocked_def memory_inv_def map_of_filter_vals time_after_def)
  show "\<forall>k s. map_of (sessions m) k = Some s \<and> t1 \<le> ExpiresAt s \<and> k \<noteq> i \<longrightarrow>
      map_of (sessions (snd (Get t1 t2 i m))) k = Some s"
    by (auto simp: Get_def Let_def gc split: option.splits)
  show "lastGC (snd (Get t1 t2 i m)) = t1"
    using assms(2) by (auto simp: Get_def Let_def gcLocked_def split: option.splits)
qed

theorem memory_store_sweep_witness:
  "let m = snd (Create example_session NewMemoryStore) in
   (\<forall>x \<in> set (sessions (snd (Get hour hour ''x'' m))). hour \<le> ExpiresAt (snd x)) \<and>
   (\<forall>k s. map_of (sessions m) k = Some s \<and> hour \<le> ExpiresAt s \<and> k \<noteq> ''x'' \<longrightarrow>
      map_of (sessions (snd (Get hour hour ''x'' m))) k = Some s) \<and>
   lastGC (snd (Get hour hour ''x'' m)) = hour"
  unfolding Let_def
  by (rule memory_store_sweep [OF create_inv [OF memory_inv_new]])
    (simp add: Create_def NewMemoryStore_def time_sub_def time_simps)

end
