(* ===== verification/Go_Strings.thy ===== *)
theory Go_Strings
  imports Prelude
begin

text \<open>
  The part of Go's standard library that the program uses on strings: \<^verbatim>\<open>strings\<close>,
  \<^verbatim>\<open>strconv\<close>, \<^verbatim>\<open>path\<close> and \<^verbatim>\<open>encoding/base64\<close>, as executable functions on byte
  lists, with the laws the components need. White space and letter case are those of ASCII
  (a byte above 127 is left alone), which covers every string the program itself compares.
\<close>

section \<open>strings\<close>

abbreviation HasPrefix :: "string \<Rightarrow> string \<Rightarrow> bool" where
  "HasPrefix s p \<equiv> prefix p s"

abbreviation HasSuffix :: "string \<Rightarrow> string \<Rightarrow> bool" where
  "HasSuffix s p \<equiv> suffix p s"

abbreviation Contains :: "string \<Rightarrow> string \<Rightarrow> bool" where
  "Contains s sub \<equiv> sublist sub s"

definition TrimPrefix :: "string \<Rightarrow> string \<Rightarrow> string" where
  "TrimPrefix s p = (if prefix p s then drop (length p) s else s)"

definition is_space :: "char \<Rightarrow> bool" where
  "is_space c \<longleftrightarrow> c \<in> {CHR 0x09, CHR 0x0A, CHR 0x0B, CHR 0x0C, CHR 0x0D, CHR 0x20}"

definition TrimRight :: "(char \<Rightarrow> bool) \<Rightarrow> string \<Rightarrow> string" where
  "TrimRight P s = rev (dropWhile P (rev s))"

definition TrimSpace :: "string \<Rightarrow> string" where
  "TrimSpace s = TrimRight is_space (dropWhile is_space s)"

definition lower_char :: "char \<Rightarrow> char" where
  "lower_char c = (if CHR ''A'' \<le> c \<and> c \<le> CHR ''Z'' then char_of (of_char c + (32::nat)) else c)"

definition upper_char :: "char \<Rightarrow> char" where
  "upper_char c = (if CHR ''a'' \<le> c \<and> c \<le> CHR ''z'' then char_of (of_char c - (32::nat)) else c)"

definition ToLower :: "string \<Rightarrow> string" where "ToLower s = map lower_char s"
definition ToUpper :: "string \<Rightarrow> string" where "ToUpper s = map upper_char s"

text \<open>\<^verbatim>\<open>strings.Split(s, sep)\<close> for a one-byte separator, and \<^verbatim>\<open>strings.Join\<close>.\<close>

fun split_on :: "char \<Rightarrow> string \<Rightarrow> string list" where
  "split_on c [] = [[]]"
| "split_on c (x # xs) =
     (if x = c then [] # split_on c xs
      else case split_on c xs of y # ys \<Rightarrow> (x # y) # ys | [] \<Rightarrow> [[x]])"

fun join :: "string \<Rightarrow> string list \<Rightarrow> string" where
  "join sep [] = []"
| "join sep [x] = x"
| "join sep (x # y # zs) = x @ sep @ join sep (y # zs)"

lemma TrimPrefix_append [simp]: "TrimPrefix (p @ s) p = s"
  by (simp add: TrimPrefix_def)

lemma split_on_not_Nil [simp]: "split_on c s \<noteq> []"
  by (induction s) (auto split: list.splits)

lemma split_on_no_sep: "c \<notin> set s \<Longrightarrow> split_on c s = [s]"
  by (induction s) auto

lemma split_on_append_sep: "c \<notin> set s \<Longrightarrow> split_on c (s @ c # t) = s # split_on c t"
  by (induction s) auto

lemma split_on_append: "split_on c (s @ c # t) = split_on c s @ split_on c t"
  by (induction s) (auto split: list.splits)

lemma split_on_comps_no_sep: "x \<in> set (split_on c s) \<Longrightarrow> c \<notin> set x"
proof (induction s arbitrary: x)
  case Nil
  then show ?case by simp
next
  case (Cons a s)
  then show ?case by (cases "split_on c s") (auto split: if_splits)
qed

lemma join_Cons: "zs \<noteq> [] \<Longrightarrow> join sep (x # zs) = x @ sep @ join sep zs"
  by (cases zs) auto

lemma split_on_join:
  "cs \<noteq> [] \<Longrightarrow> (\<forall>x \<in> set cs. c \<notin> set x) \<Longrightarrow> split_on c (join [c] cs) = cs"
proof (induction cs rule: induct_list012)
  case (3 x y zs)
  then show ?case by (simp add: split_on_append_sep)
qed (auto simp: split_on_no_sep)

lemma join_eq_Nil: "join sep cs = [] \<Longrightarrow> \<forall>x \<in> set cs. x \<noteq> [] \<Longrightarrow> cs = []"
  by (induction sep cs rule: join.induct) auto

lemma dropWhile_cong_id: "s = [] \<or> \<not> P (hd s) \<Longrightarrow> dropWhile P s = s"
  by (cases s) auto

section \<open>path\<close>

text \<open>
  \<^verbatim>\<open>path.Clean\<close>, element by element: the stack holds the elements written so far, the
  last one on top. An empty element and \<^verbatim>\<open>.\<close> write nothing, \<^verbatim>\<open>..\<close> takes the last written
  element back unless there is none, in which case a rooted path drops it and another keeps
  it.
\<close>

definition clean_step :: "bool \<Rightarrow> string \<Rightarrow> string list \<Rightarrow> string list" where
  "clean_step rooted c st =
     (if c = [] \<or> c = ''.'' then st
      else if c = ''..'' then
        (case st of
           [] \<Rightarrow> if rooted then [] else [c]
         | t # st' \<Rightarrow> if t = ''..'' then c # st else st')
      else c # st)"

definition clean_elems :: "bool \<Rightarrow> string \<Rightarrow> string list" where
  "clean_elems rooted s = rev (fold (clean_step rooted) (split_on (CHR ''/'') s) [])"

definition path_Clean :: "string \<Rightarrow> string" where
  "path_Clean s =
     (if s = [] then ''.''
      else let rooted = HasPrefix s ''/'';
               out = (if rooted then ''/'' else []) @ join ''/'' (clean_elems rooted s)
           in if out = [] then ''.'' else out)"

text \<open>An element that a cleaned path may hold.\<close>

definition plain_elem :: "string \<Rightarrow> bool" where
  "plain_elem c \<longleftrightarrow> c \<noteq> [] \<and> c \<noteq> ''.'' \<and> c \<noteq> ''..'' \<and> CHR ''/'' \<notin> set c"

definition plain_path :: "string \<Rightarrow> bool" where
  "plain_path s \<longleftrightarrow> (\<forall>c \<in> set (split_on (CHR ''/'') s). plain_elem c)"

lemma fold_clean_step_rooted:
  "list_all plain_elem st \<Longrightarrow> \<forall>c \<in> set cs. CHR ''/'' \<notin> set c \<Longrightarrow>
   list_all plain_elem (fold (clean_step True) cs st)"
proof (induction cs arbitrary: st)
  case (Cons c cs)
  have "list_all plain_elem (clean_step True c st)"
  proof (cases "plain_elem c")
    case True
    then have "clean_step True c st = c # st" by (auto simp: clean_step_def plain_elem_def)
    with Cons.prems True show ?thesis by simp
  next
    case False
    with Cons.prems show ?thesis
      by (cases st) (auto simp: clean_step_def plain_elem_def [of c])
  qed
  then show ?case using Cons by simp
qed simp

lemma clean_elems_rooted_plain: "list_all plain_elem (clean_elems True s)"
  using fold_clean_step_rooted [of "[]" "split_on (CHR ''/'') s"] split_on_comps_no_sep
  by (auto simp: clean_elems_def list_all_iff)

lemma fold_clean_step_plain:
  "\<forall>c \<in> set cs. plain_elem c \<Longrightarrow> fold (clean_step r) cs st = rev cs @ st"
  by (induction cs arbitrary: st) (auto simp: clean_step_def plain_elem_def)

lemma clean_elems_plain: "plain_path s \<Longrightarrow> clean_elems r s = split_on (CHR ''/'') s"
  by (simp add: clean_elems_def plain_path_def fold_clean_step_plain)

lemma join_split_on [simp]: "join [c] (split_on c s) = s"
proof (induction s)
  case (Cons a s)
  have "join [c] ((a # x) # xs) = a # join [c] (x # xs)" for x :: string and xs
    by (cases xs) simp_all
  moreover obtain x xs where "split_on c s = x # xs"
    by (cases "split_on c s") simp_all
  ultimately show ?case using Cons by (auto simp: join_Cons)
qed simp

lemma not_plain_elem_Nil [simp]: "\<not> plain_elem []"
  by (simp add: plain_elem_def)

lemma plain_path_nonempty: "plain_path s \<Longrightarrow> s \<noteq> []"
  by (cases s) (simp_all add: plain_path_def)

lemma plain_path_not_rooted:
  assumes "plain_path s"
  shows "\<not> HasPrefix s ''/''"
proof
  assume "HasPrefix s ''/''"
  then obtain t where "s = CHR ''/'' # t" by (cases s) simp_all
  then have "[] \<in> set (split_on (CHR ''/'') s)" by simp
  with assms show False by (auto simp only: plain_path_def not_plain_elem_Nil)
qed

lemma path_Clean_plain [simp]:
  assumes "plain_path s"
  shows "path_Clean s = s"
proof -
  note facts = plain_path_nonempty [OF assms] plain_path_not_rooted [OF assms]
  then show ?thesis
    by (simp add: path_Clean_def clean_elems_plain [OF assms])
qed

lemma clean_elems_slash: "clean_elems True (CHR ''/'' # s) = clean_elems True s"
  by (simp add: clean_elems_def clean_step_def)

lemma path_Clean_slash: "path_Clean (''/'' @ s) = ''/'' @ join ''/'' (clean_elems True s)"
  by (simp add: path_Clean_def clean_elems_slash Let_def)

lemma plain_path_join:
  "cs \<noteq> [] \<Longrightarrow> list_all plain_elem cs \<Longrightarrow> plain_path (join ''/'' cs)"
  by (simp add: plain_path_def split_on_join list_all_iff plain_elem_def)

section \<open>strconv\<close>

definition is_digit :: "char \<Rightarrow> bool" where
  "is_digit c \<longleftrightarrow> CHR ''0'' \<le> c \<and> c \<le> CHR ''9''"

definition digit_val :: "char \<Rightarrow> int" where
  "digit_val c = of_char c - 48"

definition digits_val :: "string \<Rightarrow> int" where
  "digits_val s = foldl (\<lambda>n c. 10 * n + digit_val c) 0 s"

text \<open>\<^verbatim>\<open>strconv.ParseInt(s, 10, 64)\<close>: an optional sign, digits only, in the 64-bit range.\<close>

definition ParseInt :: "string \<Rightarrow> int option" where
  "ParseInt s =
     (let neg = HasPrefix s ''-'';
          ds = (if HasPrefix s ''-'' \<or> HasPrefix s ''+'' then tl s else s);
          n = (if neg then - digits_val ds else digits_val ds)
      in if ds \<noteq> [] \<and> list_all is_digit ds \<and> - (2 ^ 63) \<le> n \<and> n < 2 ^ 63
         then Some n else None)"

abbreviation Atoi :: "string \<Rightarrow> int option" where
  "Atoi \<equiv> ParseInt"

lemma ParseInt_range: "ParseInt s = Some n \<Longrightarrow> - (2 ^ 63) \<le> n \<and> n < 2 ^ 63"
  by (auto simp: ParseInt_def Let_def split: if_splits)

section \<open>encoding/base64\<close>

definition std_alphabet :: string where
  "std_alphabet = ''ABCDEFGHIJKLMNOPQRSTUVWXYZabcdefghijklmnopqrstuvwxyz0123456789+/''"

definition url_alphabet :: string where
  "url_alphabet = ''ABCDEFGHIJKLMNOPQRSTUVWXYZabcdefghijklmnopqrstuvwxyz0123456789-_''"

fun b64_groups :: "string \<Rightarrow> string \<Rightarrow> nat list \<Rightarrow> string" where
  "b64_groups al pad [] = []"
| "b64_groups al pad [a] = [al ! (a div 4), al ! (a mod 4 * 16)] @ pad @ pad"
| "b64_groups al pad [a, b] =
     [al ! (a div 4), al ! (a mod 4 * 16 + b div 16), al ! (b mod 16 * 4)] @ pad"
| "b64_groups al pad (a # b # c # ns) =
     [al ! (a div 4), al ! (a mod 4 * 16 + b div 16),
      al ! (b mod 16 * 4 + c div 64), al ! (c mod 64)] @ b64_groups al pad ns"

definition StdEncoding :: "string \<Rightarrow> string" where
  "StdEncoding s = b64_groups std_alphabet ''='' (map of_char s)"

definition RawURLEncoding :: "string \<Rightarrow> string" where
  "RawURLEncoding s = b64_groups url_alphabet [] (map of_char s)"

text \<open>
  \<^verbatim>\<open>StdEncoding.DecodeString\<close>: new lines are skipped, the input comes in groups of four
  and only the last group may be padded.
\<close>

fun index_of :: "char \<Rightarrow> string \<Rightarrow> nat option" where
  "index_of c [] = None"
| "index_of c (x # xs) = (if x = c then Some 0 else map_option Suc (index_of c xs))"

definition sextet :: "char \<Rightarrow> nat option" where
  "sextet c = index_of c std_alphabet"

fun b64_decode :: "string \<Rightarrow> nat list option" where
  "b64_decode [] = Some []"
| "b64_decode [p, q, r, s] =
     (case (sextet p, sextet q) of
        (Some a, Some b) \<Rightarrow>
          (case (sextet r, sextet s) of
             (Some c, Some d) \<Rightarrow>
               Some [a * 4 + b div 16, b mod 16 * 16 + c div 4, c mod 4 * 64 + d]
           | (Some c, None) \<Rightarrow>
               if s = CHR ''='' then Some [a * 4 + b div 16, b mod 16 * 16 + c div 4] else None
           | (None, _) \<Rightarrow>
               if r = CHR ''='' \<and> s = CHR ''='' then Some [a * 4 + b div 16] else None)
      | _ \<Rightarrow> None)"
| "b64_decode (p # q # r # s # rest) =
     (case (sextet p, sextet q, sextet r, sextet s) of
        (Some a, Some b, Some c, Some d) \<Rightarrow>
          map_option ((@) [a * 4 + b div 16, b mod 16 * 16 + c div 4, c mod 4 * 64 + d])
            (b64_decode rest)
      | _ \<Rightarrow> None)"
| "b64_decode _ = None"

definition DecodeString :: "string \<Rightarrow> string option" where
  "DecodeString s =
     map_option (map char_of) (b64_decode (filter (\<lambda>c. c \<noteq> CHR 0x0A \<and> c \<noteq> CHR 0x0D) s))"

lemma sextet_nth_all: "list_all (\<lambda>n. sextet (std_alphabet ! n) = Some n) [0..<64]"
  by code_simp

lemma sextet_nth [simp]: "n < 64 \<Longrightarrow> sextet (std_alphabet ! n) = Some n"
  using sextet_nth_all by (simp add: list_all_iff)

lemma sextet_pad [simp]: "sextet (CHR ''='') = None"
  by code_simp

lemma std_alphabet_no_newline_all:
  "list_all (\<lambda>n. std_alphabet ! n \<noteq> CHR 0x0A \<and> std_alphabet ! n \<noteq> CHR 0x0D) [0..<64]"
  by code_simp

lemma std_alphabet_no_newline [simp]:
  "n < 64 \<Longrightarrow> std_alphabet ! n \<noteq> CHR 0x0A" "n < 64 \<Longrightarrow> std_alphabet ! n \<noteq> CHR 0x0D"
  using std_alphabet_no_newline_all by (simp_all add: list_all_iff)


section \<open>Quoting\<close>

text \<open>
  The verb \<^verbatim>\<open>%q\<close> of \<^verbatim>\<open>fmt\<close> (\<^verbatim>\<open>strconv.Quote\<close>), byte by byte. Bytes from 0x80 on pass
  unchanged: exact for strings whose characters outside ASCII are valid and printable UTF-8.
\<close>

definition hex_digit :: "nat \<Rightarrow> char" where
  "hex_digit n = ''0123456789abcdef'' ! n"

definition quote_mark :: char where "quote_mark = CHR 0x22"
definition backslash :: char where "backslash = CHR 0x5C"

definition short_escapes :: "(char \<times> char) list" where
  "short_escapes =
     [(quote_mark, quote_mark), (backslash, backslash), (CHR 0x07, CHR ''a''), (CHR 0x08, CHR ''b''),
      (CHR 0x0C, CHR ''f''), (CHR 0x0A, CHR ''n''), (CHR 0x0D, CHR ''r''), (CHR 0x09, CHR ''t''),
      (CHR 0x0B, CHR ''v'')]"

definition quote_char :: "char \<Rightarrow> string" where
  "quote_char c =
     (case map_of short_escapes c of
        Some e \<Rightarrow> [backslash, e]
      | None \<Rightarrow>
          let n = (of_char c :: nat)
          in if n < 0x20 \<or> n = 0x7F
             then [backslash, CHR ''x'', hex_digit (n div 16), hex_digit (n mod 16)]
             else [c])"

definition Quote :: "string \<Rightarrow> string" where
  "Quote s = [quote_mark] @ concat (map quote_char s) @ [quote_mark]"

text \<open>Reading a quoted string up to its closing quote mark: the text and the rest.\<close>

fun unquote_body :: "string \<Rightarrow> (string \<times> string) option" where
  "unquote_body [] = None"
| "unquote_body (c # s) =
     (if c = quote_mark then Some ([], s)
      else if c = backslash then
        (case s of
           [] \<Rightarrow> None
         | e # s1 \<Rightarrow>
             if e = CHR ''x'' then
               (case s1 of
                  h # l # s2 \<Rightarrow>
                    (case (index_of h ''0123456789abcdef'', index_of l ''0123456789abcdef'') of
                       (Some hi, Some lo) \<Rightarrow>
                         map_option (\<lambda>(t, r). (char_of (16 * hi + lo) # t, r)) (unquote_body s2)
                     | _ \<Rightarrow> None)
                | _ \<Rightarrow> None)
             else
               (case map_of (map (\<lambda>(a, b). (b, a)) short_escapes) e of
                  Some d \<Rightarrow> map_option (\<lambda>(t, r). (d # t, r)) (unquote_body s1)
                | None \<Rightarrow> None))
      else map_option (\<lambda>(t, r). (c # t, r)) (unquote_body s))"

definition Unquote :: "string \<Rightarrow> (string \<times> string) option" where
  "Unquote s = (case s of [] \<Rightarrow> None | c # t \<Rightarrow> if c = quote_mark then unquote_body t else None)"

lemma short_escapes_back:
  assumes "map_of short_escapes c = Some e"
  shows "e \<noteq> CHR ''x'' \<and> map_of (map (\<lambda>(a, b). (b, a)) short_escapes) e = Some c"
  using map_of_SomeD [OF assms]
  by (auto simp: short_escapes_def quote_mark_def backslash_def)

lemma backslash_neq_quote [simp]: "backslash \<noteq> quote_mark"
  by (simp add: backslash_def quote_mark_def)

lemma short_escapes_special:
  "map_of short_escapes quote_mark \<noteq> None" "map_of short_escapes backslash \<noteq> None"
  by (simp_all add: short_escapes_def)

lemma index_of_hex_digit: "n < 16 \<Longrightarrow> index_of (hex_digit n) ''0123456789abcdef'' = Some n"
proof -
  have "list_all (\<lambda>n. index_of (hex_digit n) ''0123456789abcdef'' = Some n) [0..<16]"
    by code_simp
  then show "n < 16 \<Longrightarrow> ?thesis" by (simp add: list_all_iff)
qed

lemma unquote_quote_char:
  "unquote_body (quote_char c @ s) = map_option (\<lambda>(t, r). (c # t, r)) (unquote_body s)"
proof (cases "map_of short_escapes c")
  case (Some e)
  with short_escapes_back [OF Some] show ?thesis
    by (simp add: quote_char_def quote_mark_def backslash_def)
next
  case None
  then have c: "c \<noteq> quote_mark" "c \<noteq> backslash" using short_escapes_special by auto
  let ?n = "of_char c :: nat"
  have n: "?n div 16 < 16" "?n mod 16 < 16"
    using nat_of_char_less_256 [of c] by (simp_all add: less_mult_imp_div_less)
  have "(char_of (16 * (?n div 16) + ?n mod 16) :: char) = c" by simp
  with None c n show ?thesis
    by (simp add: quote_char_def Let_def index_of_hex_digit quote_mark_def [symmetric]
        backslash_neq_quote del: index_of.simps)
qed

lemma unquote_body_concat:
  "unquote_body (concat (map quote_char s) @ quote_mark # rest) = Some (s, rest)"
  by (induction s) (simp_all add: unquote_quote_char)

lemma Unquote_Quote: "Unquote (Quote s @ rest) = Some (s, rest)"
  by (simp add: Unquote_def Quote_def unquote_body_concat)

end
