(* ===== verification/Auth.thy ===== *)
theory Auth
  imports Sessions Go_Strings
begin

text \<open>
  Authentication and authorization, \<^verbatim>\<open>internal/auth\<close>: the role policy (\<^verbatim>\<open>authz.go\<close>), the
  verifier's middleware and its resolution of a request to claims (\<^verbatim>\<open>oidc.go\<close>,
  \<^verbatim>\<open>oauth.go\<close>), and the OIDC code flow with PKCE (\<^verbatim>\<open>oauth.go\<close>).

  Token verification, the code exchange and the authorization URL belong to the OIDC and
  OAuth libraries and are fields of the records \<open>verifier\<close> and \<open>oauth\<close>; so is the
  hash of \<^verbatim>\<open>crypto/sha256\<close>. Random bytes and the readings of the clock are arguments.
  The session store is any value of \<^typ>\<open>'m session_ops\<close>, the interface of
  \<open>Sessions\<close>.
\<close>

section \<open>Claims and the role policy (authz.go)\<close>

record claims =
  C_Subject :: string
  C_Email :: string
  C_Groups :: "string list"
  C_Roles :: "string list"

definition no_claims :: claims where
  "no_claims = \<lparr>C_Subject = [], C_Email = [], C_Groups = [], C_Roles = []\<rparr>"

text \<open>The claims that dev-skip mode puts on every request.\<close>

definition dev_claims :: claims where
  "dev_claims = no_claims\<lparr>C_Subject := ''dev'', C_Email := ''dev@localhost''\<rparr>"

text \<open>A \<^verbatim>\<open>*Policy\<close>: \<^const>\<open>None\<close> is the nil pointer, which permits everything.\<close>

type_synonym policy = "string list option"

definition NewPolicy :: "string list \<Rightarrow> policy" where
  "NewPolicy requiredRoles = Some (filter (\<lambda>r. r \<noteq> []) requiredRoles)"

definition Authorize :: "policy \<Rightarrow> claims \<Rightarrow> bool" where
  "Authorize p c =
     (case p of
        None \<Rightarrow> True
      | Some rr \<Rightarrow>
          if length rr = 0 then True
          else list_ex (\<lambda>need. list_ex (\<lambda>got. got = need) (C_Roles c)) rr)"

lemma Authorize_iff:
  "Authorize p c \<longleftrightarrow>
     (case p of None \<Rightarrow> True | Some rr \<Rightarrow> rr = [] \<or> (\<exists>r \<in> set rr. r \<in> set (C_Roles c)))"
  by (auto simp: Authorize_def list_ex_iff split: option.splits)

section \<open>Requests, responses and cookies\<close>

record request =
  r_cookies :: "string smap"
  r_headers :: "string smap"
  r_query :: "string smap"

definition Cookie :: "request \<Rightarrow> string \<Rightarrow> string option" where
  "Cookie r name = map_of (r_cookies r) name"

definition Header_Get :: "request \<Rightarrow> string \<Rightarrow> string" where
  "Header_Get r k = (case map_of (r_headers r) k of None \<Rightarrow> [] | Some v \<Rightarrow> v)"

definition Query_Get :: "request \<Rightarrow> string \<Rightarrow> string" where
  "Query_Get r k = (case map_of (r_query r) k of None \<Rightarrow> [] | Some v \<Rightarrow> v)"

record cookie =
  ck_Name :: string
  ck_Value :: string
  ck_Expires :: "time option"
  ck_MaxAge :: int
  ck_HttpOnly :: bool
  ck_Secure :: bool

text \<open>Every cookie of the program has path \<^verbatim>\<open>/\<close> and \<^verbatim>\<open>SameSite=Lax\<close>.\<close>

text \<open>The body of \<^verbatim>\<open>/auth/me\<close>; the zero value of Go is \<open>no_me\<close>.\<close>

record me_response =
  me_Subject :: string
  me_Email :: string
  me_Groups :: "string list"
  me_Roles :: "string list"
  me_Anonymous :: bool
  me_Authorized :: bool

definition no_me :: me_response where
  "no_me = \<lparr>me_Subject = [], me_Email = [], me_Groups = [], me_Roles = [], me_Anonymous = False,
            me_Authorized = False\<rparr>"

datatype reply =
    ErrorText nat string
  | RedirectTo string
  | NoContent
  | MeReply nat me_response
  | LogoutReply string

record response =
  reply :: reply
  set_cookies :: "cookie list"

section \<open>The verifier (oidc.go)\<close>

text \<open>
  What the OIDC library returns for a verified ID token: the claims (or the decoding
  error of \<^verbatim>\<open>idt.Claims\<close>) and the expiry.
\<close>

record id_token =
  it_claims :: "string + claims"
  it_Expiry :: time

record 'm verifier =
  v_Verify :: "string \<Rightarrow> string + id_token"
  v_skipAuth :: bool
  v_sessions :: "'m session_ops option"
  v_policy :: policy

definition CookieName :: string where "CookieName = ''spinup_session''"

definition session_claims :: "session \<Rightarrow> claims" where
  "session_claims s =
     \<lparr>C_Subject = Subject s, C_Email = Email s, C_Groups = Groups s, C_Roles = Roles s\<rparr>"

definition resolve_bearer :: "'m verifier \<Rightarrow> request \<Rightarrow> claims option" where
  "resolve_bearer v r =
     (let h = Header_Get r ''Authorization''
      in if HasPrefix h ''Bearer '' then
           (case v_Verify v (TrimSpace (drop (length ''Bearer '') h)) of
              Inl _ \<Rightarrow> None
            | Inr idt \<Rightarrow> (case it_claims idt of Inl _ \<Rightarrow> None | Inr c \<Rightarrow> Some c))
         else None)"

definition resolve ::
  "'m verifier \<Rightarrow> time \<Rightarrow> time \<Rightarrow> request \<Rightarrow> 'm \<Rightarrow> claims option \<times> 'm" where
  "resolve v t1 t2 r m =
     (if v_skipAuth v then (Some dev_claims, m)
      else case (v_sessions v, Cookie r CookieName) of
        (Some S, Some c) \<Rightarrow>
          if c \<noteq> [] then
            (case SGet S t1 t2 c m of
               (Some s, m') \<Rightarrow> (Some (session_claims s), m')
             | (None, m') \<Rightarrow> (resolve_bearer v r, m'))
          else (resolve_bearer v r, m)
      | _ \<Rightarrow> (resolve_bearer v r, m))"

text \<open>
  \<^verbatim>\<open>Middleware\<close> either passes the request on with claims in its context or answers it:
  the sum is the answer (\<^const>\<open>Inl\<close>) or the claims of the request passed on.
\<close>

definition Middleware ::
  "'m verifier \<Rightarrow> time \<Rightarrow> time \<Rightarrow> request \<Rightarrow> 'm \<Rightarrow> (reply + claims) \<times> 'm" where
  "Middleware v t1 t2 r m =
     (if v_skipAuth v then (Inr dev_claims, m)
      else case resolve v t1 t2 r m of
        (None, m') \<Rightarrow> (Inl (ErrorText 401 ''unauthorized''), m')
      | (Some c, m') \<Rightarrow>
          if \<not> Authorize (v_policy v) c
          then (Inl (ErrorText 403 ''forbidden: missing required role''), m')
          else (Inr c, m'))"

text \<open>\<^verbatim>\<open>GET /auth/me\<close>.\<close>

definition handleMe ::
  "'m verifier \<Rightarrow> time \<Rightarrow> time \<Rightarrow> request \<Rightarrow> 'm \<Rightarrow> reply \<times> 'm" where
  "handleMe v t1 t2 r m =
     (case resolve v t1 t2 r m of
        (None, m') \<Rightarrow> (MeReply 401 (no_me\<lparr>me_Anonymous := True\<rparr>), m')
      | (Some c, m') \<Rightarrow>
          (MeReply 200
             (no_me\<lparr>me_Subject := C_Subject c, me_Email := C_Email c, me_Groups := C_Groups c,
                     me_Roles := C_Roles c, me_Authorized := Authorize (v_policy v) c\<rparr>), m'))"

section \<open>The login flow (oauth.go)\<close>

record token =
  tk_id_token :: "string option"
  tk_AccessToken :: string

record 'm oauth =
  o_Verify :: "string \<Rightarrow> string + id_token"
  o_Exchange :: "string \<Rightarrow> string \<Rightarrow> string + token"
  o_AuthCodeURL :: "string \<Rightarrow> string \<Rightarrow> string"
  o_Sum256 :: "string \<Rightarrow> string"
  o_sessions :: "'m session_ops"
  o_cookieSecure :: bool
  o_endSessionURL :: string

definition stateCookieName :: string where "stateCookieName = ''spinup_oauth_state''"
definition verifierCookieName :: string where "verifierCookieName = ''spinup_oauth_verifier''"
definition returnToCookieName :: string where "returnToCookieName = ''spinup_oauth_return''"
definition oauthCookieTTL :: duration where "oauthCookieTTL = 10 * minute"

lemmas cookie_names = CookieName_def stateCookieName_def verifierCookieName_def
  returnToCookieName_def

definition pkceChallenge :: "'m oauth \<Rightarrow> string \<Rightarrow> string" where
  "pkceChallenge oa v = RawURLEncoding (o_Sum256 oa v)"

text \<open>\<^verbatim>\<open>randomHex\<close> encodes what \<^verbatim>\<open>rand.Read\<close> delivered: an error or \<^term>\<open>n\<close> bytes.\<close>

definition randomHex :: "string + string \<Rightarrow> string + string" where
  "randomHex rnd = (case rnd of Inl e \<Rightarrow> Inl e | Inr b \<Rightarrow> Inr (RawURLEncoding b))"

text \<open>
  \<^verbatim>\<open>url.Parse\<close> of a string that starts with a single slash fails on a control character
  before the fragment and on a \<^verbatim>\<open>%\<close> that is not followed by two hexadecimal digits in the
  path or in the fragment.
\<close>

definition is_hex :: "char \<Rightarrow> bool" where
  "is_hex c \<longleftrightarrow> is_digit c \<or> (CHR ''a'' \<le> c \<and> c \<le> CHR ''f'') \<or> (CHR ''A'' \<le> c \<and> c \<le> CHR ''F'')"

fun percent_ok :: "string \<Rightarrow> bool" where
  "percent_ok [] = True"
| "percent_ok (c # s) =
     (if c = CHR ''%'' then
        (case s of a # b # s' \<Rightarrow> is_hex a \<and> is_hex b \<and> percent_ok s' | _ \<Rightarrow> False)
      else percent_ok s)"

definition url_parse_ok :: "string \<Rightarrow> bool" where
  "url_parse_ok s =
     (let u = takeWhile (\<lambda>c. c \<noteq> CHR ''#'') s; frag = dropWhile (\<lambda>c. c \<noteq> CHR ''#'') s
      in list_all (\<lambda>c. CHR 0x20 \<le> c \<and> c \<noteq> CHR 0x7F) u \<and>
         percent_ok (takeWhile (\<lambda>c. c \<noteq> CHR ''?'') u) \<and> percent_ok (drop 1 frag))"

definition returnToOrRoot :: "request \<Rightarrow> string" where
  "returnToOrRoot r =
     (let rt = Query_Get r ''returnTo''
      in if HasPrefix rt ''/'' \<and> \<not> HasPrefix rt ''//'' \<and> url_parse_ok rt then rt else ''/'')"

definition setShortCookie :: "'m oauth \<Rightarrow> time \<Rightarrow> string \<Rightarrow> string \<Rightarrow> cookie" where
  "setShortCookie oa now name val =
     \<lparr>ck_Name = name, ck_Value = val, ck_Expires = Some (now + oauthCookieTTL), ck_MaxAge = 0,
      ck_HttpOnly = True, ck_Secure = o_cookieSecure oa\<rparr>"

definition cleared_cookie :: "'m oauth \<Rightarrow> string \<Rightarrow> cookie" where
  "cleared_cookie oa name =
     \<lparr>ck_Name = name, ck_Value = [], ck_Expires = None, ck_MaxAge = -1,
      ck_HttpOnly = True, ck_Secure = o_cookieSecure oa\<rparr>"

definition clearShortCookies :: "'m oauth \<Rightarrow> cookie list" where
  "clearShortCookies oa =
     map (cleared_cookie oa) [stateCookieName, verifierCookieName, returnToCookieName]"

definition error_reply :: "nat \<Rightarrow> string \<Rightarrow> response" where
  "error_reply status msg = \<lparr>reply = ErrorText status msg, set_cookies = []\<rparr>"

definition handleLogin ::
  "'m oauth \<Rightarrow> time \<Rightarrow> string + string \<Rightarrow> string + string \<Rightarrow> request \<Rightarrow> response" where
  "handleLogin oa now rnd1 rnd2 r =
     (case randomHex rnd1 of
        Inl e \<Rightarrow> error_reply 500 (''state: '' @ e)
      | Inr state \<Rightarrow>
          (case randomHex rnd2 of
             Inl e \<Rightarrow> error_reply 500 (''verifier: '' @ e)
           | Inr ver \<Rightarrow>
               \<lparr>reply = RedirectTo (o_AuthCodeURL oa state (pkceChallenge oa ver)),
                set_cookies =
                  [setShortCookie oa now stateCookieName state,
                   setShortCookie oa now verifierCookieName ver,
                   setShortCookie oa now returnToCookieName (returnToOrRoot r)]\<rparr>))"

text \<open>The session that a successful callback stores.\<close>

definition callback_session ::
  "time \<Rightarrow> string \<Rightarrow> claims \<Rightarrow> id_token \<Rightarrow> token \<Rightarrow> session" where
  "callback_session now sid c idt tok =
     \<lparr>ID = sid, Subject = C_Subject c, Email = C_Email c, Groups = C_Groups c,
      Roles = C_Roles c, CreatedAt = now,
      ExpiresAt = (if is_zero_time (it_Expiry idt) then now + hour else it_Expiry idt),
      AccessToken = tk_AccessToken tok\<rparr>"

definition callback_return_to :: "request \<Rightarrow> string" where
  "callback_return_to r =
     (case Cookie r returnToCookieName of
        Some rt \<Rightarrow> if HasPrefix rt ''/'' then rt else ''/''
      | None \<Rightarrow> ''/'')"

definition handleCallback ::
  "'m oauth \<Rightarrow> time \<Rightarrow> string + string \<Rightarrow> request \<Rightarrow> 'm \<Rightarrow> response \<times> 'm" where
  "handleCallback oa now rnd r m =
     (case Cookie r stateCookieName of
        None \<Rightarrow> (error_reply 400 ''invalid state'', m)
      | Some st \<Rightarrow>
        if st = [] \<or> Query_Get r ''state'' \<noteq> st then (error_reply 400 ''invalid state'', m)
        else case Cookie r verifierCookieName of
          None \<Rightarrow> (error_reply 400 ''missing pkce verifier'', m)
        | Some ver \<Rightarrow>
          if ver = [] then (error_reply 400 ''missing pkce verifier'', m)
          else if Query_Get r ''code'' = [] then (error_reply 400 ''missing code'', m)
          else case o_Exchange oa (Query_Get r ''code'') ver of
            Inl e \<Rightarrow> (error_reply 502 (''token exchange: '' @ e), m)
          | Inr tok \<Rightarrow>
            (case tk_id_token tok of
               None \<Rightarrow> (error_reply 502 ''no id_token in response'', m)
             | Some rawID \<Rightarrow>
               if rawID = [] then (error_reply 502 ''no id_token in response'', m)
               else case o_Verify oa rawID of
                 Inl e \<Rightarrow> (error_reply 401 (''verify id_token: '' @ e), m)
               | Inr idt \<Rightarrow>
                 (case it_claims idt of
                    Inl e \<Rightarrow> (error_reply 401 (''decode claims: '' @ e), m)
                  | Inr c \<Rightarrow>
                    (case randomHex rnd of
                       Inl e \<Rightarrow> (error_reply 500 (''session id: '' @ e), m)
                     | Inr sid \<Rightarrow>
                       (let s = callback_session now sid c idt tok
                        in case SCreate (o_sessions oa) s m of
                             (Some e, m') \<Rightarrow> (error_reply 500 (''store session: '' @ e), m')
                           | (None, m') \<Rightarrow>
                               (\<lparr>reply = RedirectTo (callback_return_to r),
                                 set_cookies =
                                   \<lparr>ck_Name = CookieName, ck_Value = sid,
                                    ck_Expires = Some (ExpiresAt s), ck_MaxAge = 0,
                                    ck_HttpOnly = True, ck_Secure = o_cookieSecure oa\<rparr>
                                   # clearShortCookies oa\<rparr>, m'))))))"

definition handleLogout :: "'m oauth \<Rightarrow> request \<Rightarrow> 'm \<Rightarrow> response \<times> 'm" where
  "handleLogout oa r m =
     (let m' = (case Cookie r CookieName of
                  Some c \<Rightarrow> snd (SDelete (o_sessions oa) c m)
                | None \<Rightarrow> m)
      in (\<lparr>reply = LogoutReply (o_endSessionURL oa),
           set_cookies = [cleared_cookie oa CookieName]\<rparr>, m'))"

section \<open>What a verifier answers, over the contract of the session store\<close>

text \<open>
  The identity behind a request: the live session named by the cookie, else the bearer
  token.
\<close>

definition identity ::
  "'m verifier \<Rightarrow> (string \<Rightarrow> session option) \<Rightarrow> request \<Rightarrow> claims option" where
  "identity v sess r =
     (if v_skipAuth v then Some dev_claims
      else case Option.bind (Cookie r CookieName)
                  (\<lambda>c. if c = [] \<or> v_sessions v = None then None else sess c) of
             Some s \<Rightarrow> Some (session_claims s)
           | None \<Rightarrow> resolve_bearer v r)"

definition verdict :: "'m verifier \<Rightarrow> claims option \<Rightarrow> reply + claims" where
  "verdict v ident =
     (case ident of
        None \<Rightarrow> Inl (ErrorText 401 ''unauthorized'')
      | Some c \<Rightarrow>
          if v_skipAuth v \<or> Authorize (v_policy v) c then Inr c
          else Inl (ErrorText 403 ''forbidden: missing required role''))"

lemma resolve_without_sessions:
  "v_sessions v = None \<Longrightarrow> resolve v t1 t2 r m = (identity v sess r, m)"
  by (auto simp: resolve_def identity_def split: option.splits bind_splits)

lemma b64_groups_nonempty: "ns \<noteq> [] \<Longrightarrow> b64_groups al pad ns \<noteq> []"
  by (induction al pad ns rule: b64_groups.induct) auto

lemma RawURLEncoding_nonempty [simp]: "b \<noteq> [] \<Longrightarrow> RawURLEncoding b \<noteq> []"
  by (simp add: RawURLEncoding_def b64_groups_nonempty)

context session_store
begin

lemma resolve_identity:
  assumes "inv m" "t1 \<le> t2" "v_sessions v = Some S"
  shows "fst (resolve v t1 t2 r m) = identity v (live m t2) r"
proof (cases "Cookie r CookieName")
  case None
  then show ?thesis using assms(3) by (simp add: resolve_def identity_def)
next
  case (Some c)
  have "fst (SGet S t1 t2 c m) = live m t2 c" using assms by (simp add: get_live)
  with Some assms(3) show ?thesis
    by (auto simp: resolve_def identity_def split: option.splits prod.splits)
qed

lemma resolve_keeps_inv:
  assumes "inv m" "v_sessions v = Some S"
  shows "inv (snd (resolve v t1 t2 r m))"
  using assms inv_get [OF assms(1), of t1 t2]
  by (auto simp: resolve_def split: option.splits prod.splits) (metis snd_conv)+

lemma middleware_verdict:
  assumes "inv m" "t1 \<le> t2" "v_sessions v = Some S"
  shows "fst (Middleware v t1 t2 r m) = verdict v (identity v (live m t2) r)"
  using resolve_identity [OF assms, of r]
  by (cases "resolve v t1 t2 r m")
    (auto simp: Middleware_def verdict_def identity_def split: option.splits)

lemma logout_forgets:
  assumes "inv m" "t1 \<le> t2" "v_sessions v = Some S" "o_sessions oa = S" "\<not> v_skipAuth v"
    and "Cookie r CookieName = Cookie r0 CookieName"
  shows "fst (resolve v t1 t2 r (snd (handleLogout oa r0 m))) = resolve_bearer v r"
proof (cases "Cookie r0 CookieName")
  case None
  with assms show ?thesis
    by (simp add: handleLogout_def resolve_identity identity_def)
next
  case (Some c)
  with assms show ?thesis
    by (simp add: handleLogout_def resolve_identity inv_delete identity_def delete_live)
qed

end

section \<open>Properties\<close>

text \<open>
  C20: for every request outside dev-skip mode the middleware's decision is exactly the
  specification's: 401 when neither a live session nor a valid bearer token identifies the
  caller, 403 when the identified caller holds none of the required roles, and otherwise the
  request goes on with the claims of the live session (which wins over the token) or of the
  token. The answer depends on the sessions only through what is live at the time.
\<close>

theorem middleware_spec:
  assumes "memory_inv m" "t1 \<le> t2" "v_sessions v = Some memory_ops"
  shows "fst (Middleware v t1 t2 r m) = verdict v (identity v (memory_live m t2) r)"
  using assms by (rule ms.middleware_verdict)

definition example_verifier :: "memory_store verifier" where
  "example_verifier =
     \<lparr>v_Verify = (\<lambda>s. Inl ''bad token''), v_skipAuth = False, v_sessions = Some memory_ops,
      v_policy = NewPolicy [''dev'', '''']\<rparr>"

definition example_req :: request where
  "example_req = \<lparr>r_cookies = [(CookieName, ''sid'')], r_headers = [], r_query = []\<rparr>"

theorem middleware_spec_witness:
  "fst (Middleware example_verifier 0 0 example_req (snd (Create example_session NewMemoryStore)))
     = Inr (session_claims example_session)"
proof -
  let ?m = "snd (Create example_session NewMemoryStore)"
  have "fst (Middleware example_verifier 0 0 example_req ?m) =
      verdict example_verifier (identity example_verifier (memory_live ?m 0) example_req)"
    by (rule middleware_spec) (simp_all add: create_inv example_verifier_def)
  also have "\<dots> = Inr (session_claims example_session)"
    by (simp add: verdict_def identity_def example_verifier_def example_req_def Cookie_def
        memory_live_def Create_def NewMemoryStore_def example_session_def cookie_names unexpired_def
        session_claims_def Authorize_def NewPolicy_def time_simps)
  finally show ?thesis .
qed


definition example_oauth :: "memory_store oauth" where
  "example_oauth =
     \<lparr>o_Verify = (\<lambda>t. Inr \<lparr>it_claims = Inr (no_claims\<lparr>C_Subject := ''u1'', C_Roles := [''dev'']\<rparr>),
                         it_Expiry = hour\<rparr>),
      o_Exchange = (\<lambda>code ver. if ver = ''Yg'' then Inr \<lparr>tk_id_token = Some ''jwt'', tk_AccessToken = ''at''\<rparr>
                               else Inl ''invalid_grant''),
      o_AuthCodeURL = (\<lambda>st ch. ''https://idp/auth?state='' @ st @ ''&code_challenge='' @ ch),
      o_Sum256 = rev, o_sessions = memory_ops, o_cookieSecure = True, o_endSessionURL = []\<rparr>"

definition example_login :: request where
  "example_login = \<lparr>r_cookies = [], r_headers = [], r_query = [(''returnTo'', ''/apps'')]\<rparr>"

definition example_callback :: request where
  "example_callback =
     \<lparr>r_cookies = map (\<lambda>k. (ck_Name k, ck_Value k))
        (set_cookies (handleLogin example_oauth 0 (Inr ''a'') (Inr ''b'') example_login)),
      r_headers = [], r_query = [(''state'', ''YQ''), (''code'', ''xyz'')]\<rparr>"

definition example_after :: request where
  "example_after =
     \<lparr>r_cookies = map (\<lambda>k. (ck_Name k, ck_Value k)) (set_cookies
        (fst (handleCallback example_oauth 5 (Inr ''c'') example_callback NewMemoryStore))),
      r_headers = [], r_query = []\<rparr>"

lemma example_encodings: "RawURLEncoding ''a'' = ''YQ''" "RawURLEncoding ''b'' = ''Yg''"
  by code_simp+


text \<open>
  C27: a callback touches the session store only after every check of the flow has passed: the
  state in the query equals the non-empty state cookie, the PKCE verifier cookie and the code
  are present, the provider exchanged that code against that verifier, and the ID token it
  returned was verified and decoded. In every other case no cookie is set either.
\<close>

theorem callback_guarded:
  assumes "snd (handleCallback oa now rnd r m) \<noteq> m \<or>
           set_cookies (fst (handleCallback oa now rnd r m)) \<noteq> []"
  shows "\<exists>st ver tok raw idt c.
           Cookie r stateCookieName = Some st \<and> st \<noteq> [] \<and> Query_Get r ''state'' = st \<and>
           Cookie r verifierCookieName = Some ver \<and> ver \<noteq> [] \<and> Query_Get r ''code'' \<noteq> [] \<and>
           o_Exchange oa (Query_Get r ''code'') ver = Inr tok \<and>
           tk_id_token tok = Some raw \<and> raw \<noteq> [] \<and> o_Verify oa raw = Inr idt \<and>
           it_claims idt = Inr c"
  using assms
  by (simp add: handleCallback_def error_reply_def split: option.splits sum.splits if_splits)

theorem callback_guarded_witness:
  "\<exists>st ver tok raw idt c.
     Cookie example_callback stateCookieName = Some st \<and> st \<noteq> [] \<and>
     Query_Get example_callback ''state'' = st \<and>
     Cookie example_callback verifierCookieName = Some ver \<and> ver \<noteq> [] \<and>
     Query_Get example_callback ''code'' \<noteq> [] \<and>
     o_Exchange example_oauth (Query_Get example_callback ''code'') ver = Inr tok \<and>
     tk_id_token tok = Some raw \<and> raw \<noteq> [] \<and> o_Verify example_oauth raw = Inr idt \<and>
     it_claims idt = Inr c"
proof (rule callback_guarded [where now = 5 and rnd = "Inr ''c''" and m = NewMemoryStore], rule disjI2)
  show "set_cookies (fst (handleCallback example_oauth 5 (Inr ''c'') example_callback NewMemoryStore))
      \<noteq> []"
    by code_simp
qed

text \<open>
  C28: logging out ends the session: after \<^verbatim>\<open>POST /auth/logout\<close> with a cookie, no later request
  carrying the same cookie is identified by it; only a bearer token of its own can identify it.
\<close>

theorem logout_ends_session:
  assumes "memory_inv m" "t1 \<le> t2" "v_sessions v = Some memory_ops" "o_sessions oa = memory_ops"
    "\<not> v_skipAuth v" "Cookie r CookieName = Cookie r0 CookieName"
  shows "fst (resolve v t1 t2 r (snd (handleLogout oa r0 m))) = resolve_bearer v r"
  using assms by (rule ms.logout_forgets)

theorem logout_ends_session_witness:
  "fst (resolve example_verifier 0 1 example_req (snd (handleLogout example_oauth example_req
     (snd (Create example_session NewMemoryStore))))) = resolve_bearer example_verifier example_req"
  by (rule logout_ends_session [OF create_inv [OF memory_inv_new]])
    (simp_all add: example_verifier_def example_oauth_def)

text \<open>
  The place a login returns to is always a path on the same host as far as the code's two
  prefixes tell: it starts with a slash and not with two, and it is the \<^verbatim>\<open>returnTo\<close> parameter
  itself or the root.
\<close>

lemma returnTo_local:
  "HasPrefix (returnToOrRoot r) ''/'' \<and> \<not> HasPrefix (returnToOrRoot r) ''//'' \<and>
   returnToOrRoot r \<in> {''/'', Query_Get r ''returnTo''}"
  by (auto simp: returnToOrRoot_def Let_def)

text \<open>
  A value that passes the check and that browsers resolve to another host all the same: they
  read a backslash as a slash.
\<close>

lemma returnTo_backslash_accepted:
  "returnToOrRoot \<lparr>r_cookies = [], r_headers = [],
     r_query = [(''returnTo'', [CHR ''/'', CHR 0x5C] @ ''evil.com'')]\<rparr> =
   [CHR ''/'', CHR 0x5C] @ ''evil.com''"
  by code_simp

end
