(* ===== verification/Archive.thy ===== *)
theory Archive
  imports Go_Strings
begin

text \<open>
  Source archives: \<^verbatim>\<open>packFiles\<close> of \<^verbatim>\<open>internal/builder/builder.go\<close>, and \<^verbatim>\<open>writeTarGz\<close> and
  \<^verbatim>\<open>readTarGz\<close> of \<^verbatim>\<open>internal/httpapi/archive.go\<close>. A writer is a record of the four calls the
  code makes on \<^verbatim>\<open>tar.Writer\<close> and \<^verbatim>\<open>gzip.Writer\<close> over a state; \<^verbatim>\<open>buffer_writer\<close> is the writer
  over a \<^verbatim>\<open>bytes.Buffer\<close>, whose contents are the list of entries that the stream holds. A
  reader is the sequence of what \<^verbatim>\<open>tar.Reader.Next\<close> returns until \<^verbatim>\<open>io.EOF\<close>.
\<close>

section \<open>Entries\<close>

record tar_header =
  h_Name :: string
  h_Mode :: int
  h_Size :: int
  h_ModTime :: time
  h_Typeflag :: char

definition TypeReg :: char where "TypeReg = CHR ''0''"
definition TypeRegA :: char where "TypeRegA = CHR 0x00"

lemmas typeflag_defs = TypeReg_def TypeRegA_def

text \<open>The header that both writers build; \<^verbatim>\<open>Typeflag\<close> is not set.\<close>

definition file_header :: "string \<Rightarrow> string \<Rightarrow> tar_header" where
  "file_header clean content =
     \<lparr>h_Name = TrimPrefix clean ''/'', h_Mode = 420, h_Size = int (length content), h_ModTime = 0,
      h_Typeflag = TypeRegA\<rparr>"

record 'w tar_writer =
  WriteHeader :: "tar_header \<Rightarrow> 'w \<Rightarrow> string option \<times> 'w"
  WriteContent :: "string \<Rightarrow> 'w \<Rightarrow> string option \<times> 'w"
  CloseTar :: "'w \<Rightarrow> string option \<times> 'w"
  CloseGzip :: "'w \<Rightarrow> string option \<times> 'w"

section \<open>Writing\<close>

text \<open>A path that both writers refuse. The names of a Go map come sorted.\<close>

definition invalid_path :: "string \<Rightarrow> bool" where
  "invalid_path clean \<longleftrightarrow> clean = ''/'' \<or> HasPrefix clean ''/..''"

definition sorted_names :: "string smap \<Rightarrow> string list" where
  "sorted_names files = sort (remdups (map fst files))"

definition content_of :: "string smap \<Rightarrow> string \<Rightarrow> string" where
  "content_of files name = (case map_of files name of None \<Rightarrow> [] | Some c \<Rightarrow> c)"

fun write_entries ::
  "'w tar_writer \<Rightarrow> string \<Rightarrow> string smap \<Rightarrow> string list \<Rightarrow> 'w \<Rightarrow> string option \<times> 'w" where
  "write_entries W msg files [] w = (None, w)"
| "write_entries W msg files (name # names) w =
     (let clean = path_Clean (''/'' @ name); content = content_of files name
      in if invalid_path clean then (Some (msg @ Quote name), w)
         else case WriteHeader W (file_header clean content) w of
           (Some err, w1) \<Rightarrow> (Some err, w1)
         | (None, w1) \<Rightarrow>
             (case WriteContent W content w1 of
                (Some err, w2) \<Rightarrow> (Some err, w2)
              | (None, w2) \<Rightarrow> write_entries W msg files names w2))"

definition write_archive ::
  "'w tar_writer \<Rightarrow> string \<Rightarrow> string smap \<Rightarrow> 'w \<Rightarrow> string option \<times> 'w" where
  "write_archive W msg files w =
     (case write_entries W msg files (sorted_names files) w of
        (Some err, w1) \<Rightarrow> (Some err, w1)
      | (None, w1) \<Rightarrow>
          (case CloseTar W w1 of (Some err, w2) \<Rightarrow> (Some err, w2) | (None, w2) \<Rightarrow> CloseGzip W w2))"

definition writeTarGz :: "'w tar_writer \<Rightarrow> string smap \<Rightarrow> 'w \<Rightarrow> string option \<times> 'w" where
  "writeTarGz W files w = write_archive W ''invalid path '' files w"

text \<open>The buffer: an entry is a header and the bytes written for it so far.\<close>

type_synonym tar_entries = "(tar_header \<times> string) list"

text \<open>
  \<^verbatim>\<open>tar.Writer\<close> on a buffer: a header whose name holds a NUL byte cannot be encoded, the type
  flag of a regular file is filled in, and the contents go to the last entry.
\<close>

definition buffer_writer :: "tar_entries tar_writer" where
  "buffer_writer =
     \<lparr>WriteHeader = (\<lambda>h w.
        if CHR 0x00 \<in> set (h_Name h) then (Some ''archive/tar: cannot encode header'', w)
        else (None, w @ [(h\<lparr>h_Typeflag := (if h_Typeflag h = TypeRegA then TypeReg else h_Typeflag h)\<rparr>, [])])),
      WriteContent = (\<lambda>c w.
        (None, if w = [] then w else butlast w @ [(fst (last w), snd (last w) @ c)])),
      CloseTar = (\<lambda>w. (None, w)),
      CloseGzip = (\<lambda>w. (None, w))\<rparr>"

definition packFiles :: "string smap \<Rightarrow> string + tar_entries" where
  "packFiles files =
     (case write_archive buffer_writer ''invalid source path '' files [] of
        (Some err, w) \<Rightarrow> Inl err
      | (None, w) \<Rightarrow> Inr w)"

section \<open>Reading\<close>

text \<open>\<^verbatim>\<open>maxSourceUpload\<close> is 8 MiB.\<close>

definition maxSourceUpload :: nat where "maxSourceUpload = 8388608"

text \<open>
  One result of \<^verbatim>\<open>Next\<close>: an error, or a header with the bytes that can be read from the entry
  and the error that follows them, if any.
\<close>

datatype tar_next = NextErr string | NextEntry tar_header string "string option"

definition unsafe_path :: "string \<Rightarrow> bool" where
  "unsafe_path clean \<longleftrightarrow> HasPrefix clean ''/'' \<or> HasPrefix clean ''..'' \<or> Contains clean ''/../''"

text \<open>\<^verbatim>\<open>io.Copy\<close> from a \<^verbatim>\<open>LimitReader\<close> of \<^term>\<open>n\<close> bytes meets the error only before its limit.\<close>

definition copy_limited :: "nat \<Rightarrow> string \<Rightarrow> string option \<Rightarrow> string + string" where
  "copy_limited n bytes err =
     (case err of
        Some e \<Rightarrow> if length bytes < n then Inl e else Inr (take n bytes)
      | None \<Rightarrow> Inr (take n bytes))"

fun read_entries :: "tar_next list \<Rightarrow> string smap \<Rightarrow> string + string smap" where
  "read_entries [] files = Inr files"
| "read_entries (NextErr e # rest) files = Inl (''tar: '' @ e)"
| "read_entries (NextEntry hdr bytes err # rest) files =
     (if h_Typeflag hdr \<noteq> TypeReg \<and> h_Typeflag hdr \<noteq> TypeRegA then read_entries rest files
      else let clean = path_Clean (h_Name hdr)
           in if unsafe_path clean then Inl (''unsafe path in archive: '' @ h_Name hdr)
              else case copy_limited (maxSourceUpload + 1) bytes err of
                Inl e \<Rightarrow> Inl (''read '' @ h_Name hdr @ '': '' @ e)
              | Inr buf \<Rightarrow>
                  if length buf > maxSourceUpload
                  then Inl (''file '' @ h_Name hdr @ '' exceeds size limit'')
                  else read_entries rest (AList.update clean buf files))"

definition readTarGz :: "string + tar_next list \<Rightarrow> string + string smap" where
  "readTarGz gz =
     (case gz of Inl e \<Rightarrow> Inl (''gzip: '' @ e) | Inr nexts \<Rightarrow> read_entries nexts [])"

text \<open>What a reader of a finished buffer returns.\<close>

definition reader_of :: "tar_entries \<Rightarrow> string + tar_next list" where
  "reader_of w = Inr (map (\<lambda>(h, c). NextEntry h c None) w)"


section \<open>Names in an archive\<close>

text \<open>
  The name under which a file is archived: the elements of its path, cleaned as a rooted path,
  and the names that a writer refuses.
\<close>

definition archive_name :: "string \<Rightarrow> string" where
  "archive_name n = join ''/'' (clean_elems True n)"

definition refused :: "string \<Rightarrow> bool" where
  "refused n \<longleftrightarrow> archive_name n = [] \<or> HasPrefix (archive_name n) ''..'' \<or>
     CHR 0x00 \<in> set (archive_name n)"

definition archive_entry :: "string smap \<Rightarrow> string \<Rightarrow> tar_header \<times> string" where
  "archive_entry files n =
     (file_header (path_Clean (''/'' @ n)) (content_of files n) \<lparr>h_Typeflag := TypeReg\<rparr>,
      content_of files n)"

lemma path_Clean_archive: "path_Clean (CHR ''/'' # n) = CHR ''/'' # archive_name n"
  using path_Clean_slash [of n] by (simp add: archive_name_def)

lemma archive_name_plain: "archive_name n = [] \<or> plain_path (archive_name n)"
  using clean_elems_rooted_plain [of n]
  by (cases "clean_elems True n = []") (simp_all add: archive_name_def plain_path_join)

lemma archive_name_id [simp]: "plain_path n \<Longrightarrow> archive_name n = n"
  by (simp add: archive_name_def clean_elems_plain)

lemma h_Name_archive_entry [simp]: "h_Name (fst (archive_entry files n)) = archive_name n"
  "h_Typeflag (fst (archive_entry files n)) = TypeReg"
  "snd (archive_entry files n) = content_of files n"
  "h_Size (fst (archive_entry files n)) = int (length (content_of files n))"
  using TrimPrefix_append [of "''/''" "archive_name n"]
  by (simp_all add: archive_entry_def file_header_def path_Clean_archive)

lemma invalid_archive: "invalid_path (CHR ''/'' # m) \<longleftrightarrow> m = [] \<or> HasPrefix m ''..''"
  by (simp add: invalid_path_def)

lemma buffer_writer_file:
  "WriteHeader buffer_writer (file_header (CHR ''/'' # m) c) w =
     (if CHR 0x00 \<in> set m then (Some ''archive/tar: cannot encode header'', w)
      else (None, w @ [(file_header (CHR ''/'' # m) c\<lparr>h_Typeflag := TypeReg\<rparr>, [])]))"
  using TrimPrefix_append [of "''/''" m] by (simp add: buffer_writer_def file_header_def)

lemma buffer_writer_content: "WriteContent buffer_writer c (w @ [(h, [])]) = (None, w @ [(h, c)])"
  by (simp add: buffer_writer_def)

lemma write_entries_buffer:
  "(case write_entries buffer_writer msg files names w of
      (None, w') \<Rightarrow> \<not> list_ex refused names \<and> w' = w @ map (archive_entry files) names
    | (Some err, w') \<Rightarrow> list_ex refused names)"
proof (induction names arbitrary: w)
  case (Cons n names)
  let ?w = "w @ [archive_entry files n]"
  show ?case
  proof (cases "refused n")
    case True
    then show ?thesis
      by (auto simp: refused_def path_Clean_archive Let_def invalid_archive buffer_writer_file
          split: prod.splits option.splits)
  next
    case False
    then have "write_entries buffer_writer msg files (n # names) w =
        write_entries buffer_writer msg files names ?w"
      by (simp add: refused_def path_Clean_archive Let_def invalid_archive buffer_writer_file
          buffer_writer_content archive_entry_def)
    with Cons.IH [of ?w] False show ?thesis
      by (simp del: write_entries.simps split: prod.splits option.splits)
  qed
qed simp

lemma write_archive_buffer:
  "write_archive buffer_writer msg files [] =
     (if list_ex refused (sorted_names files)
      then write_entries buffer_writer msg files (sorted_names files) []
      else (None, map (archive_entry files) (sorted_names files)))"
  using write_entries_buffer [where names = "sorted_names files" and msg = msg and files = files and w = "[]"]
  by (auto simp: write_archive_def buffer_writer_def split: prod.splits option.splits)

lemma write_archive_None:
  "fst (write_archive buffer_writer msg files []) = None \<longleftrightarrow> \<not> list_ex refused (sorted_names files)"
  using write_entries_buffer [where names = "sorted_names files" and msg = msg and files = files and w = "[]"]
  by (auto simp: write_archive_buffer split: prod.splits option.splits)

lemma set_sorted_names [simp]: "set (sorted_names files) = fst ` set files"
  by (simp add: sorted_names_def)

lemma sorted_names_sorted [simp]: "sorted (sorted_names files)" "distinct (sorted_names files)"
  by (simp_all add: sorted_names_def)



section \<open>Unrooted paths\<close>

text \<open>Cleaning an unrooted path leaves parent steps only at the front.\<close>

definition parents_first :: "string list \<Rightarrow> bool" where
  "parents_first st \<longleftrightarrow> (\<exists>ps k. st = ps @ replicate k ''..'' \<and> list_all plain_elem ps)"

lemma parents_first_plain: "plain_elem c \<Longrightarrow> parents_first st \<Longrightarrow> parents_first (c # st)"
  unfolding parents_first_def by (metis append_Cons list.pred_inject(2))

lemma plain_elem_not_parent [simp]: "plain_elem c \<Longrightarrow> c \<noteq> ''..''"
  by (simp add: plain_elem_def)

lemma parents_first_step:
  assumes "parents_first st" "CHR ''/'' \<notin> set c"
  shows "parents_first (clean_step False c st)"
proof -
  obtain ps k where st: "st = ps @ replicate k ''..''" "list_all plain_elem ps"
    using assms(1) by (auto simp: parents_first_def)
  consider "c = [] \<or> c = ''.''" | "c = ''..''" | "plain_elem c"
    using assms(2) by (auto simp: plain_elem_def)
  then show ?thesis
  proof cases
    case 1
    with assms(1) show ?thesis by (auto simp: clean_step_def)
  next
    case 3
    then have "clean_step False c st = c # st" by (auto simp: clean_step_def plain_elem_def)
    with 3 assms(1) show ?thesis by (simp add: parents_first_plain)
  next
    case 2
    show ?thesis
    proof (cases ps)
      case Nil
      then have "clean_step False c st = [] @ replicate (Suc k) ''..''"
        using st 2 by (cases k) (simp_all add: clean_step_def)
      then show ?thesis unfolding parents_first_def by (metis list.pred_inject(1))
    next
      case (Cons p ps')
      then have "clean_step False c st = ps' @ replicate k ''..''"
        using st 2 by (simp add: clean_step_def)
      then show ?thesis using Cons st by (auto simp: parents_first_def)
    qed
  qed
qed

lemma parents_first_fold:
  "parents_first st \<Longrightarrow> \<forall>c \<in> set cs. CHR ''/'' \<notin> set c \<Longrightarrow>
   parents_first (fold (clean_step False) cs st)"
  by (induction cs arbitrary: st) (simp_all add: parents_first_step)

lemma clean_elems_unrooted:
  "\<exists>k ps. clean_elems False s = replicate k ''..'' @ ps \<and> list_all plain_elem ps"
proof -
  have "parents_first (fold (clean_step False) (split_on (CHR ''/'') s) [])"
    by (rule parents_first_fold)
      (auto simp: parents_first_def split_on_comps_no_sep)
  then obtain ps k where "fold (clean_step False) (split_on (CHR ''/'') s) [] = ps @ replicate k ''..''"
      "list_all plain_elem ps"
    by (auto simp: parents_first_def)
  then have "clean_elems False s = replicate k ''..'' @ rev ps \<and> list_all plain_elem (rev ps)"
    by (simp add: clean_elems_def list_all_iff)
  then show ?thesis by blast
qed

text \<open>A name that passes the check of \<^verbatim>\<open>readTarGz\<close> stays inside the directory.\<close>

definition confined :: "string \<Rightarrow> bool" where
  "confined n \<longleftrightarrow> n = ''.'' \<or> plain_path n"

lemma safe_confined:
  assumes "\<not> unsafe_path (path_Clean s)"
  shows "confined (path_Clean s)"
proof (cases "s = [] \<or> HasPrefix s ''/''")
  case True
  then show ?thesis
    using assms by (auto simp: path_Clean_def confined_def unsafe_path_def Let_def)
next
  case False
  obtain k ps where e: "clean_elems False s = replicate k ''..'' @ ps" "list_all plain_elem ps"
    using clean_elems_unrooted by blast
  have "k = 0"
  proof (rule ccontr)
    assume "k \<noteq> 0"
    then obtain j where "clean_elems False s = ''..'' # replicate j ''..'' @ ps"
      using e by (cases k) simp_all
    then have "HasPrefix (path_Clean s) ''..''"
      using False by (cases "replicate j ''..'' @ ps") (simp_all add: path_Clean_def Let_def join_Cons)
    with assms show False by (simp add: unsafe_path_def)
  qed
  with e False show ?thesis
    using plain_path_join [of ps]
    by (cases "ps = []") (auto simp: path_Clean_def confined_def Let_def dest: plain_path_nonempty)
qed


lemma read_entries_confined:
  "read_entries nexts files = Inr files' \<Longrightarrow>
   list_all (\<lambda>(n, c). confined n \<and> length c \<le> maxSourceUpload) files \<Longrightarrow>
   list_all (\<lambda>(n, c). confined n \<and> length c \<le> maxSourceUpload) files'"
proof (induction nexts arbitrary: files)
  case (Cons x nexts)
  have upd: "list_all (\<lambda>(n, c). confined n \<and> length c \<le> maxSourceUpload) (AList.update k v files)"
    if "confined k" "length v \<le> maxSourceUpload" for k v
    using Cons.prems(2) that
    by (induction files) (auto split: if_splits)
  show ?case
  proof (cases x)
    case (NextErr e)
    with Cons.prems show ?thesis by simp
  next
    case (NextEntry h bytes err)
    consider "read_entries nexts files = Inr files'"
      | buf where "\<not> unsafe_path (path_Clean (h_Name h))" "length buf \<le> maxSourceUpload"
          "read_entries nexts (AList.update (path_Clean (h_Name h)) buf files) = Inr files'"
      using Cons.prems(1) NextEntry
      by (fastforce simp: Let_def not_less split: if_splits sum.splits)
    then show ?thesis
    proof cases
      case 1
      then show ?thesis using Cons.prems(2) by (rule Cons.IH)
    next
      case 2
      then show ?thesis by (intro Cons.IH [OF 2(3)] upd safe_confined)
    qed
  qed
qed simp

text \<open>
  C24: Whatever archive a caller uploads, \<^verbatim>\<open>readTarGz\<close> fails or returns files whose names are
  clean relative paths without \<^verbatim>\<open>..\<close> elements (or the single dot), and none is longer than
  8 MiB.
\<close>

theorem readTarGz_confined:
  "case readTarGz gz of
     Inl err \<Rightarrow> True
   | Inr files \<Rightarrow> list_all (\<lambda>(n, c). confined n \<and> length c \<le> maxSourceUpload) files"
  using read_entries_confined [of _ "[]"]
  by (auto simp: readTarGz_def split: sum.splits)

section \<open>Export and import\<close>

text \<open>A source tree that survives: nothing refused or too long, and no two names clash.\<close>

definition archivable :: "string smap \<Rightarrow> bool" where
  "archivable files \<longleftrightarrow>
     list_all (\<lambda>(n, c). \<not> refused n \<and> length c \<le> maxSourceUpload) files \<and>
     distinct (map (\<lambda>(n, c). archive_name n) files)"

lemma refused_safe:
  assumes "\<not> refused n"
  shows "\<not> unsafe_path (archive_name n)" "plain_path (archive_name n)"
proof -
  show p: "plain_path (archive_name n)"
    using assms archive_name_plain [of n] by (auto simp: refused_def)
  have "\<not> Contains (archive_name n) ''/../''"
  proof
    assume "Contains (archive_name n) ''/../''"
    then obtain x y where xy: "archive_name n = x @ CHR ''/'' # ''..'' @ CHR ''/'' # y"
      by (auto simp: sublist_def)
    have "''..'' \<in> set (split_on (CHR ''/'') (archive_name n))"
      using split_on_append_sep [of "CHR ''/''" "''..''" y] by (simp add: xy split_on_append)
    with p have "plain_elem ''..''" unfolding plain_path_def by (rule bspec)
    then show False by (simp add: plain_elem_def)
  qed
  with assms plain_path_not_rooted [OF p] show "\<not> unsafe_path (archive_name n)"
    by (simp add: unsafe_path_def refused_def)
qed

lemma read_archive_entries:
  assumes "\<forall>n \<in> set names. \<not> refused n \<and> length (content_of files n) \<le> maxSourceUpload"
  shows "read_entries (map (\<lambda>(h, c). NextEntry h c None) (map (archive_entry files) names)) acc =
    Inr (fold (\<lambda>n. AList.update (archive_name n) (content_of files n)) names acc)"
  using assms
proof (induction names arbitrary: acc)
  case (Cons n names)
  then have "\<not> unsafe_path (archive_name n)" "path_Clean (archive_name n) = archive_name n"
    using refused_safe by auto
  with Cons show ?case
    by (simp add: case_prod_unfold copy_limited_def typeflag_defs)
qed simp

lemma map_of_fold_update:
  "map_of (fold (\<lambda>n. AList.update (f n) (g n)) names acc) =
   map_of acc ++ map_of (rev (map (\<lambda>n. (f n, g n)) names))"
  by (induction names arbitrary: acc) (auto simp: fun_eq_iff map_add_def split: option.splits)


lemma archivable_facts:
  assumes "archivable files"
  shows "distinct (map fst files)" "inj_on archive_name (fst ` set files)"
    "(n, c) \<in> set files \<Longrightarrow> \<not> refused n \<and> length c \<le> maxSourceUpload \<and> content_of files n = c"
proof -
  have eq: "map (\<lambda>(n, c). archive_name n) files = map archive_name (map fst files)" by auto
  have d: "distinct (map archive_name (map fst files))"
    using assms unfolding archivable_def eq by blast
  then show k: "distinct (map fst files)" 
    unfolding distinct_map [of archive_name] by (rule conjunct1)
  show "inj_on archive_name (fst ` set files)"
    using d by (simp only: distinct_map [of archive_name] set_map)
  show "(n, c) \<in> set files \<Longrightarrow> \<not> refused n \<and> length c \<le> maxSourceUpload \<and> content_of files n = c"
    using assms k by (auto simp: archivable_def list_all_iff content_of_def)
qed

lemma archive_roundtrip:
  assumes "archivable files"
  shows "\<exists>w files'. writeTarGz buffer_writer files [] = (None, w) \<and>
           readTarGz (reader_of w) = Inr files' \<and>
           map_of files' = map_of (map (\<lambda>(n, c). (archive_name n, c)) files)"
proof (intro exI conjI)
  note facts = archivable_facts [OF assms]
  let ?names = "sorted_names files" and ?pair = "\<lambda>n. (archive_name n, content_of files n)"
  have "\<not> list_ex refused ?names" using facts(3) by (auto simp: list_ex_iff)
  then show "writeTarGz buffer_writer files [] = (None, map (archive_entry files) ?names)"
    by (simp add: writeTarGz_def write_archive_buffer)
  have "\<forall>n \<in> set ?names. \<not> refused n \<and> length (content_of files n) \<le> maxSourceUpload"
    using facts(3) by auto
  then show "readTarGz (reader_of (map (archive_entry files) ?names)) =
      Inr (fold (\<lambda>n. AList.update (archive_name n) (content_of files n)) ?names [])"
    unfolding readTarGz_def reader_of_def by (simp only: read_archive_entries sum.case)
  have "set (rev (map ?pair ?names)) = ?pair ` fst ` set files" by simp
  also have "\<dots> = (\<lambda>(n, c). (archive_name n, c)) ` set files"
    unfolding image_image using facts(3) by (intro image_cong) auto
  finally have s: "set (rev (map ?pair ?names)) = set (map (\<lambda>(n, c). (archive_name n, c)) files)"
    by simp
  have "map fst (map (\<lambda>(n, c). (archive_name n, c)) files) = map archive_name (map fst files)"
    by auto
  then have "distinct (map fst (map (\<lambda>(n, c). (archive_name n, c)) files))"
    using facts(1,2) by (simp only: distinct_map [of archive_name] set_map)
  moreover have "map fst (rev (map ?pair ?names)) = rev (map archive_name ?names)"
    by (simp add: rev_map comp_def)
  then have "distinct (map fst (rev (map ?pair ?names)))"
    using facts(2) by (simp add: distinct_map [of archive_name])
  ultimately have "map_of (rev (map ?pair ?names)) = map_of (map (\<lambda>(n, c). (archive_name n, c)) files)"
    using s by (simp only: map_of_inject_set)
  then show "map_of (fold (\<lambda>n. AList.update (archive_name n) (content_of files n)) ?names []) =
      map_of (map (\<lambda>(n, c). (archive_name n, c)) files)"
    by (simp add: map_of_fold_update)
qed

text \<open>
  Exporting a source tree and importing the archive gives the tree back: a tree whose names
  are not refused, do not clash after cleaning and whose files are at most 8 MiB is written
  without an error, and reading the archive returns exactly its files under their cleaned names
  (which are the names themselves when these are already clean).
\<close>

lemma source_archive_roundtrip:
  assumes "archivable files"
  shows "\<exists>w files'. writeTarGz buffer_writer files [] = (None, w) \<and>
           readTarGz (reader_of w) = Inr files' \<and>
           map_of files' = map_of (map (\<lambda>(n, c). (archive_name n, c)) files)"
  by (rule archive_roundtrip [OF assms])

definition example_files :: "string smap" where
  "example_files = [(''src/./index.js'', ''export''), (''package.json'', ''{}'')]"

lemma example_archivable: "archivable example_files"
  by (simp add: archivable_def refused_def archive_name_def clean_elems_def clean_step_def
      example_files_def maxSourceUpload_def)

text \<open>
  The single dot is the one name that an import stores and an export then refuses: a regular
  entry called \<^verbatim>\<open>.\<close> leaves a source that cannot be exported or built.
\<close>

lemma dot_imported_not_exported:
  "readTarGz (Inr [NextEntry \<lparr>h_Name = ''.'', h_Mode = 420, h_Size = 1, h_ModTime = 0,
     h_Typeflag = TypeReg\<rparr> ''x'' None]) = Inr [(''.'', ''x'')]"
  "fst (writeTarGz buffer_writer [(''.'', ''x'')] []) \<noteq> None"
  by (simp_all add: readTarGz_def path_Clean_def clean_elems_def clean_step_def unsafe_path_def
      copy_limited_def maxSourceUpload_def writeTarGz_def write_archive_def sorted_names_def
      invalid_path_def Let_def sublist_code)

end
