(* ===== verification/Kube.thy ===== *)
theory Kube
  imports Archive
begin

text \<open>
  What the control plane uses of the Kubernetes client libraries, which are not part of the
  repository: the calls it makes on the API server and the accessors of unstructured objects are
  the fields of the record \<^verbatim>\<open>kube\<close>, a parameter of every definition that uses them, over an
  unknown cluster state. The objects it sends and the statuses it reads are the records below.
  The documented behaviour that the theorems rely on is named: \<open>accessor_laws\<close> for the
  accessors and \<open>apply_laws\<close> for server-side apply and delete.
\<close>

section \<open>Objects\<close>

text \<open>An unstructured object, as JSON.\<close>

datatype json = JNull | JBool bool | JInt int | JStr string | JArr "json list" | JObj "json smap"

fun json_field :: "json \<Rightarrow> string \<Rightarrow> json option" where
  "json_field (JObj fs) k = map_of fs k"
| "json_field _ k = None"

fun json_path :: "json \<Rightarrow> string list \<Rightarrow> json option" where
  "json_path j [] = Some j"
| "json_path j (k # ks) = (case json_field j k of None \<Rightarrow> None | Some j' \<Rightarrow> json_path j' ks)"

text \<open>Errors of the API server, as \<^verbatim>\<open>apierrors\<close> tells them apart.\<close>

datatype kube_error = KNotFound string | KAlreadyExists string | KError string

fun kerror_text :: "kube_error \<Rightarrow> string" where
  "kerror_text (KNotFound m) = m"
| "kerror_text (KAlreadyExists m) = m"
| "kerror_text (KError m) = m"

definition IsNotFound :: "kube_error \<Rightarrow> bool" where
  "IsNotFound e = (case e of KNotFound _ \<Rightarrow> True | _ \<Rightarrow> False)"

definition IsAlreadyExists :: "kube_error \<Rightarrow> bool" where
  "IsAlreadyExists e = (case e of KAlreadyExists _ \<Rightarrow> True | _ \<Rightarrow> False)"

text \<open>The fields that are read of a \<^verbatim>\<open>Deployment\<close> and of a \<^verbatim>\<open>Job\<close>.\<close>

record deployment =
  dep_Replicas :: int
  dep_UpdatedReplicas :: int
  dep_AvailableReplicas :: int
  dep_ObservedGeneration :: int
  dep_Generation :: int

record job_status =
  js_Succeeded :: int
  js_Failed :: int
  js_Conditions :: "(string \<times> string) list"

record secret =
  sec_Name :: string
  sec_Namespace :: string
  sec_Labels :: "string smap"
  sec_Type :: string
  sec_Data :: "tar_entries smap"

datatype volume_source = SecretVolume string "(string \<times> string) list"

record container =
  ct_Name :: string
  ct_Image :: string
  ct_ImagePullPolicy :: string
  ct_Env :: "(string \<times> string) list"
  ct_VolumeMounts :: "(string \<times> string \<times> bool) list"
  ct_Requests :: "string smap"
  ct_Limits :: "string smap"

record job =
  job_Name :: string
  job_Namespace :: string
  job_Labels :: "string smap"
  job_BackoffLimit :: int
  job_TTLSecondsAfterFinished :: int
  job_PodLabels :: "string smap"
  job_RestartPolicy :: string
  job_ImagePullSecrets :: "string list"
  job_Containers :: "container list"
  job_Volumes :: "(string \<times> volume_source) list"

section \<open>The client\<close>

text \<open>
  Custom resources are addressed by resource, namespace and name. \<^verbatim>\<open>ka_Patch\<close> is a server-side
  apply with the field manager and \<^verbatim>\<open>Force\<close> that the code sets. \<^verbatim>\<open>ka_Poll\<close> is
  \<^verbatim>\<open>wait.PollUntilContextTimeout\<close>: it evaluates a condition on the cluster, again and again
  while the cluster moves on, until the condition gives an error, a result, or time is up.
\<close>

datatype poll_error = DeadlineExceeded | PollError kube_error

record 'k kube =
  ka_GetName :: "json \<Rightarrow> string"
  ka_GetNamespace :: "json \<Rightarrow> string"
  ka_NestedString :: "json \<Rightarrow> string list \<Rightarrow> string option"
  ka_NestedInt64 :: "json \<Rightarrow> string list \<Rightarrow> int option"
  ka_NestedSlice :: "json \<Rightarrow> string list \<Rightarrow> json list option"
  ka_Patch :: "string \<Rightarrow> string \<Rightarrow> string \<Rightarrow> string \<Rightarrow> json \<Rightarrow> 'k \<Rightarrow> (kube_error + json) \<times> 'k"
  ka_Get :: "string \<Rightarrow> string \<Rightarrow> string \<Rightarrow> 'k \<Rightarrow> kube_error + json"
  ka_Delete :: "string \<Rightarrow> string \<Rightarrow> string \<Rightarrow> 'k \<Rightarrow> (kube_error + unit) \<times> 'k"
  ka_GetDeployment :: "string \<Rightarrow> string \<Rightarrow> 'k \<Rightarrow> kube_error + deployment"
  ka_CreateSecret :: "string \<Rightarrow> secret \<Rightarrow> 'k \<Rightarrow> (kube_error + unit) \<times> 'k"
  ka_CreateJob :: "string \<Rightarrow> job \<Rightarrow> 'k \<Rightarrow> (kube_error + unit) \<times> 'k"
  ka_GetJob :: "string \<Rightarrow> string \<Rightarrow> 'k \<Rightarrow> kube_error + job_status"
  ka_ListPods :: "string \<Rightarrow> string \<Rightarrow> 'k \<Rightarrow> kube_error + string list"
  ka_GetLogs :: "string \<Rightarrow> string \<Rightarrow> bool \<Rightarrow> int option \<Rightarrow> 'k \<Rightarrow> kube_error + string"
  ka_Poll :: "duration \<Rightarrow> duration \<Rightarrow> bool \<Rightarrow> ('k \<Rightarrow> kube_error + job_status option) \<Rightarrow> 'k \<Rightarrow>
    (poll_error + job_status) \<times> 'k"

section \<open>Documented behaviour\<close>

definition accessor_laws :: "'k kube \<Rightarrow> bool" where
  "accessor_laws K \<longleftrightarrow>
     (\<forall>j. ka_GetName K j = (case json_path j [''metadata'', ''name''] of Some (JStr s) \<Rightarrow> s | _ \<Rightarrow> [])) \<and>
     (\<forall>j. ka_GetNamespace K j =
        (case json_path j [''metadata'', ''namespace''] of Some (JStr s) \<Rightarrow> s | _ \<Rightarrow> [])) \<and>
     (\<forall>j p. ka_NestedString K j p = (case json_path j p of Some (JStr s) \<Rightarrow> Some s | _ \<Rightarrow> None)) \<and>
     (\<forall>j p. ka_NestedInt64 K j p = (case json_path j p of Some (JInt n) \<Rightarrow> Some n | _ \<Rightarrow> None)) \<and>
     (\<forall>j p. ka_NestedSlice K j p = (case json_path j p of Some (JArr xs) \<Rightarrow> Some xs | _ \<Rightarrow> None))"

text \<open>
  For objects that no admission webhook rewrites and no finalizer retains: a successful apply
  makes the object readable under its name with the fields that were sent, a successful delete
  makes it unreadable, and neither touches another object. A failed call leaves the objects as
  they are.
\<close>

definition sent_fields :: "json \<Rightarrow> json \<Rightarrow> bool" where
  "sent_fields sent got \<longleftrightarrow> (\<forall>p v. json_path sent p = Some v \<longrightarrow>
     (case v of JStr _ \<Rightarrow> json_path got p = Some v | JInt _ \<Rightarrow> json_path got p = Some v | _ \<Rightarrow> True))"

definition same_objects :: "'k kube \<Rightarrow> 'k \<Rightarrow> 'k \<Rightarrow> bool" where
  "same_objects K k k' \<longleftrightarrow> (\<forall>g ns n. ka_Get K g ns n k' = ka_Get K g ns n k)"

definition same_objects_but :: "'k kube \<Rightarrow> string \<Rightarrow> string \<Rightarrow> string \<Rightarrow> 'k \<Rightarrow> 'k \<Rightarrow> bool" where
  "same_objects_but K g ns n k k' \<longleftrightarrow>
     (\<forall>g' ns' n'. (g', ns', n') \<noteq> (g, ns, n) \<longrightarrow> ka_Get K g' ns' n' k' = ka_Get K g' ns' n' k)"

definition object_gone :: "'k kube \<Rightarrow> string \<Rightarrow> string \<Rightarrow> string \<Rightarrow> 'k \<Rightarrow> bool" where
  "object_gone K g ns n k \<longleftrightarrow> (case ka_Get K g ns n k of Inl e \<Rightarrow> IsNotFound e | Inr _ \<Rightarrow> False)"

definition patch_effect ::
  "'k kube \<Rightarrow> string \<Rightarrow> string \<Rightarrow> string \<Rightarrow> json \<Rightarrow> 'k \<Rightarrow> (kube_error + json) \<times> 'k \<Rightarrow> bool" where
  "patch_effect K g ns n obj k r \<longleftrightarrow>
     (case r of
        (Inl e, k') \<Rightarrow> same_objects K k k'
      | (Inr got, k') \<Rightarrow> sent_fields obj got \<and> ka_Get K g ns n k' = Inr got \<and>
          same_objects_but K g ns n k k')"

definition delete_effect ::
  "'k kube \<Rightarrow> string \<Rightarrow> string \<Rightarrow> string \<Rightarrow> 'k \<Rightarrow> (kube_error + unit) \<times> 'k \<Rightarrow> bool" where
  "delete_effect K g ns n k r \<longleftrightarrow>
     (case r of
        (Inl e, k') \<Rightarrow> same_objects K k k' \<and> (IsNotFound e \<longrightarrow> object_gone K g ns n k)
      | (Inr _, k') \<Rightarrow> object_gone K g ns n k' \<and> same_objects_but K g ns n k k')"

definition apply_laws :: "'k kube \<Rightarrow> bool" where
  "apply_laws K \<longleftrightarrow>
     (\<forall>g ns n m obj k. patch_effect K g ns n obj k (ka_Patch K g ns n m obj k)) \<and>
     (\<forall>g ns n k. delete_effect K g ns n k (ka_Delete K g ns n k))"

lemma apply_laws_patch:
  assumes "apply_laws K"
  shows "ka_Patch K g ns n m obj k = (Inr got, k') \<Longrightarrow>
      sent_fields obj got \<and> ka_Get K g ns n k' = Inr got \<and> same_objects_but K g ns n k k'"
    and "ka_Patch K g ns n m obj k = (Inl e, k') \<Longrightarrow> same_objects K k k'"
proof -
  have "patch_effect K g ns n obj k (ka_Patch K g ns n m obj k)"
    using assms by (simp add: apply_laws_def)
  then show "ka_Patch K g ns n m obj k = (Inr got, k') \<Longrightarrow>
      sent_fields obj got \<and> ka_Get K g ns n k' = Inr got \<and> same_objects_but K g ns n k k'"
    and "ka_Patch K g ns n m obj k = (Inl e, k') \<Longrightarrow> same_objects K k k'"
    by (auto simp: patch_effect_def)
qed

lemma apply_laws_delete:
  assumes "apply_laws K"
  shows "ka_Delete K g ns n k = (Inr u, k') \<Longrightarrow>
      object_gone K g ns n k' \<and> same_objects_but K g ns n k k'"
    and "ka_Delete K g ns n k = (Inl e, k') \<Longrightarrow>
      same_objects K k k' \<and> (IsNotFound e \<longrightarrow> object_gone K g ns n k)"
proof -
  have "delete_effect K g ns n k (ka_Delete K g ns n k)"
    using assms by (simp add: apply_laws_def)
  then show "ka_Delete K g ns n k = (Inr u, k') \<Longrightarrow>
      object_gone K g ns n k' \<and> same_objects_but K g ns n k k'"
    and "ka_Delete K g ns n k = (Inl e, k') \<Longrightarrow>
      same_objects K k k' \<and> (IsNotFound e \<longrightarrow> object_gone K g ns n k)"
    by (auto simp: delete_effect_def)
qed

lemma same_objects_refl [simp]: "same_objects K k k" "same_objects_but K g ns n k k"
  by (simp_all add: same_objects_def same_objects_but_def)

lemma same_objects_gone: "same_objects K k k' \<Longrightarrow> object_gone K g ns n k' = object_gone K g ns n k"
  by (simp add: same_objects_def object_gone_def)

section \<open>A cluster for examples\<close>

text \<open>
  A concrete cluster in memory, at which the witnesses instantiate the parameter: custom
  resources by address, jobs by name with a scripted status, and one log.
\<close>

record cluster =
  cl_objects :: "((string \<times> string \<times> string) \<times> json) list"
  cl_secrets :: "secret list"
  cl_jobs :: "job list"
  cl_job_status :: job_status
  cl_log :: string

definition empty_cluster :: cluster where
  "empty_cluster =
     \<lparr>cl_objects = [], cl_secrets = [], cl_jobs = [],
      cl_job_status = \<lparr>js_Succeeded = 1, js_Failed = 0, js_Conditions = []\<rparr>, cl_log = []\<rparr>"

definition mem_kube :: "cluster kube" where
  "mem_kube =
     \<lparr>ka_GetName = (\<lambda>j. case json_path j [''metadata'', ''name''] of Some (JStr s) \<Rightarrow> s | _ \<Rightarrow> []),
      ka_GetNamespace =
        (\<lambda>j. case json_path j [''metadata'', ''namespace''] of Some (JStr s) \<Rightarrow> s | _ \<Rightarrow> []),
      ka_NestedString = (\<lambda>j p. case json_path j p of Some (JStr s) \<Rightarrow> Some s | _ \<Rightarrow> None),
      ka_NestedInt64 = (\<lambda>j p. case json_path j p of Some (JInt n) \<Rightarrow> Some n | _ \<Rightarrow> None),
      ka_NestedSlice = (\<lambda>j p. case json_path j p of Some (JArr xs) \<Rightarrow> Some xs | _ \<Rightarrow> None),
      ka_Patch = (\<lambda>g ns n m obj k.
        (Inr obj, k\<lparr>cl_objects := AList.update (g, ns, n) obj (cl_objects k)\<rparr>)),
      ka_Get = (\<lambda>g ns n k. case map_of (cl_objects k) (g, ns, n) of
        None \<Rightarrow> Inl (KNotFound ''not found'') | Some obj \<Rightarrow> Inr obj),
      ka_Delete = (\<lambda>g ns n k. case map_of (cl_objects k) (g, ns, n) of
        None \<Rightarrow> (Inl (KNotFound ''not found''), k)
      | Some _ \<Rightarrow> (Inr (), k\<lparr>cl_objects := AList.delete (g, ns, n) (cl_objects k)\<rparr>)),
      ka_GetDeployment = (\<lambda>ns n k. Inl (KNotFound ''not found'')),
      ka_CreateSecret = (\<lambda>ns s k. (Inr (), k\<lparr>cl_secrets := s # cl_secrets k\<rparr>)),
      ka_CreateJob = (\<lambda>ns j k. (Inr (), k\<lparr>cl_jobs := j # cl_jobs k\<rparr>)),
      ka_GetJob = (\<lambda>ns n k. if list_ex (\<lambda>j. job_Name j = n) (cl_jobs k)
        then Inr (cl_job_status k) else Inl (KNotFound ''not found'')),
      ka_ListPods = (\<lambda>ns sel k. Inr [''pod'']),
      ka_GetLogs = (\<lambda>ns n f t k. Inr (cl_log k)),
      ka_Poll = (\<lambda>i t im cond k. case cond k of
        Inl e \<Rightarrow> (Inl (PollError e), k)
      | Inr None \<Rightarrow> (Inl DeadlineExceeded, k)
      | Inr (Some js) \<Rightarrow> (Inr js, k))\<rparr>"

lemma mem_kube_accessors [simp]: "accessor_laws mem_kube"
  by (simp add: accessor_laws_def mem_kube_def)

lemma sent_fields_refl [simp]: "sent_fields obj obj"
  by (auto simp: sent_fields_def split: json.splits)

lemma mem_kube_apply [simp]: "apply_laws mem_kube"
  by (auto simp: apply_laws_def patch_effect_def delete_effect_def same_objects_def
      same_objects_but_def object_gone_def mem_kube_def IsNotFound_def
      split: option.splits prod.splits sum.splits)

end
