(* ===== verification/Policy.thy ===== *)
theory Policy
  imports Go_Strings
begin

text \<open>
  The platform's resource policy, \<^verbatim>\<open>internal/policy/resources.go\<close>: how the CPU and memory
  values a user asks for are combined with the platform's own. Kubernetes quantities
  (\<^verbatim>\<open>resource.ParseQuantity\<close> and \<^verbatim>\<open>Quantity.Cmp\<close>, third-party code) are the parameter
  \<^term>\<open>Q\<close> of the definitions; what the code relies on is \<open>quantity_laws\<close>: the
  comparison is a total preorder with its sign convention.
\<close>

section \<open>Quantities\<close>

record 'q quantity_ops =
  ParseQuantity :: "string \<Rightarrow> string + 'q"
  Cmp :: "'q \<Rightarrow> 'q \<Rightarrow> int"

definition quantity_laws :: "'q quantity_ops \<Rightarrow> bool" where
  "quantity_laws Q \<longleftrightarrow>
     (\<forall>a. Cmp Q a a = 0) \<and>
     (\<forall>a b. Cmp Q a b > 0 \<longleftrightarrow> Cmp Q b a < 0) \<and>
     (\<forall>a b c. Cmp Q a b \<le> 0 \<longrightarrow> Cmp Q b c \<le> 0 \<longrightarrow> Cmp Q a c \<le> 0)"

section \<open>Data\<close>

text \<open>
  \<^verbatim>\<open>type Mode string\<close>: any string can be configured, three of them (and the empty one) are
  known.
\<close>

type_synonym mode = string

definition ModeOpen :: mode where "ModeOpen = ''open''"
definition ModeMax :: mode where "ModeMax = ''max''"
definition ModeForced :: mode where "ModeForced = ''forced''"

lemmas mode_defs = ModeOpen_def ModeMax_def ModeForced_def

record resources =
  CPURequest :: string
  CPULimit :: string
  MemoryRequest :: string
  MemoryLimit :: string

record range =
  Request :: string
  Limit :: string

record resource_policy =
  Mode :: mode
  CPU :: range
  Mem :: range

text \<open>
  The errors of \<^verbatim>\<open>Apply\<close>: a violated cap, the two ways of failing to parse a quantity,
  and an unknown mode.
\<close>

datatype policy_error =
    PolicyViolation string string string
  | InvalidQuantity string string string
  | InvalidCap string string string
  | UnknownMode string

text \<open>The text of an error.\<close>

fun policy_text :: "policy_error \<Rightarrow> string" where
  "policy_text (PolicyViolation fld usr cp) =
     fld @ '': '' @ Quote usr @ '' exceeds platform cap '' @ Quote cp"
| "policy_text (InvalidQuantity fld usr err) = fld @ '': invalid quantity '' @ Quote usr @ '': '' @ err"
| "policy_text (InvalidCap fld cp err) = fld @ '': platform cap '' @ Quote cp @ '' is invalid: '' @ err"
| "policy_text (UnknownMode m) = ''unknown resources policy mode '' @ Quote m"

definition IsPolicyViolation :: "policy_error \<Rightarrow> bool" where
  "IsPolicyViolation e = (case e of PolicyViolation _ _ _ \<Rightarrow> True | _ \<Rightarrow> False)"

section \<open>Operations\<close>

definition checkMax ::
  "'q quantity_ops \<Rightarrow> string \<Rightarrow> string \<Rightarrow> string \<Rightarrow> policy_error + unit" where
  "checkMax Q fld usr cp =
     (if usr = '''' \<or> cp = '''' then Inr ()
      else case ParseQuantity Q usr of
        Inl err \<Rightarrow> Inl (InvalidQuantity fld usr err)
      | Inr uq \<Rightarrow>
          (case ParseQuantity Q cp of
             Inl err \<Rightarrow> Inl (InvalidCap fld cp err)
           | Inr cq \<Rightarrow>
               if Cmp Q uq cq > 0 then Inl (PolicyViolation fld usr cp) else Inr ()))"

text \<open>The platform's own four values, which \<^verbatim>\<open>forced\<close> mode puts in place of the user's.\<close>

definition platform_resources :: "resource_policy \<Rightarrow> resources" where
  "platform_resources p =
     \<lparr>CPURequest = Request (CPU p), CPULimit = Limit (CPU p),
      MemoryRequest = Request (Mem p), MemoryLimit = Limit (Mem p)\<rparr>"

definition Apply ::
  "'q quantity_ops \<Rightarrow> resource_policy \<Rightarrow> resources \<Rightarrow> policy_error + resources" where
  "Apply Q p usr =
     (if Mode p = '''' \<or> Mode p = ModeOpen then Inr usr
      else if Mode p = ModeForced then Inr (platform_resources p)
      else if Mode p = ModeMax then
        res_bind (checkMax Q ''cpuRequest'' (CPURequest usr) (Request (CPU p))) (\<lambda>_.
        res_bind (checkMax Q ''cpuLimit'' (CPULimit usr) (Limit (CPU p))) (\<lambda>_.
        res_bind (checkMax Q ''memoryRequest'' (MemoryRequest usr) (Request (Mem p))) (\<lambda>_.
        res_bind (checkMax Q ''memoryLimit'' (MemoryLimit usr) (Limit (Mem p))) (\<lambda>_.
          Inr usr))))
      else Inl (UnknownMode (Mode p)))"

section \<open>What a capped field means\<close>

text \<open>
  The contract of \<^verbatim>\<open>max\<close> mode, field by field: nothing to compare, or both sides parse
  and the user's quantity is at most the cap.
\<close>

definition within_cap :: "'q quantity_ops \<Rightarrow> string \<Rightarrow> string \<Rightarrow> bool" where
  "within_cap Q usr cp \<longleftrightarrow>
     usr = '''' \<or> cp = '''' \<or>
     (case (ParseQuantity Q usr, ParseQuantity Q cp) of
        (Inr uq, Inr cq) \<Rightarrow> Cmp Q uq cq \<le> 0
      | _ \<Rightarrow> False)"

definition resources_within :: "'q quantity_ops \<Rightarrow> resource_policy \<Rightarrow> resources \<Rightarrow> bool" where
  "resources_within Q p r \<longleftrightarrow>
     within_cap Q (CPURequest r) (Request (CPU p)) \<and>
     within_cap Q (CPULimit r) (Limit (CPU p)) \<and>
     within_cap Q (MemoryRequest r) (Request (Mem p)) \<and>
     within_cap Q (MemoryLimit r) (Limit (Mem p))"

definition known_mode :: "mode \<Rightarrow> bool" where
  "known_mode m \<longleftrightarrow> m \<in> {'''', ModeOpen, ModeMax, ModeForced}"

definition caps_parse :: "'q quantity_ops \<Rightarrow> resource_policy \<Rightarrow> bool" where
  "caps_parse Q p \<longleftrightarrow>
     (\<forall>c \<in> {Request (CPU p), Limit (CPU p), Request (Mem p), Limit (Mem p)}.
        c = '''' \<or> is_ok (ParseQuantity Q c))"

lemma checkMax_ok_iff: "checkMax Q f u c = Inr () \<longleftrightarrow> within_cap Q u c"
  by (auto simp: checkMax_def within_cap_def split: sum.splits)

lemma checkMax_ok_iff' [simp]: "is_ok (checkMax Q f u c) \<longleftrightarrow> within_cap Q u c"
  using checkMax_ok_iff [of Q f u c] by (auto simp: is_ok_iff)

lemma checkMax_errE:
  assumes "checkMax Q f u c = Inl e"
  obtains uq cq where "ParseQuantity Q u = Inr uq" "ParseQuantity Q c = Inr cq"
      "Cmp Q uq cq > 0" "e = PolicyViolation f u c" "u \<noteq> ''''" "c \<noteq> ''''"
    | m where "ParseQuantity Q u = Inl m" "e = InvalidQuantity f u m" "u \<noteq> ''''" "c \<noteq> ''''"
    | m where "ParseQuantity Q c = Inl m" "e = InvalidCap f c m" "u \<noteq> ''''" "c \<noteq> ''''"
  using assms by (auto simp: checkMax_def split: if_splits sum.splits)

lemma within_cap_self: "quantity_laws Q \<Longrightarrow> c = '''' \<or> is_ok (ParseQuantity Q c) \<Longrightarrow> within_cap Q c c"
  by (auto simp: within_cap_def quantity_laws_def is_ok_iff)

lemma platform_resources_within:
  "quantity_laws Q \<Longrightarrow> caps_parse Q p \<Longrightarrow> resources_within Q p (platform_resources p)"
  by (auto simp: resources_within_def platform_resources_def caps_parse_def
      intro!: within_cap_self)

lemma Apply_max_iff:
  assumes "Mode p = ModeMax"
  shows "Apply Q p u = Inr r \<longleftrightarrow> r = u \<and> resources_within Q p u"
  using assms by (auto simp: Apply_def mode_defs resources_within_def checkMax_ok_iff)

lemma Apply_open [simp]: "Mode p = '''' \<or> Mode p = ModeOpen \<Longrightarrow> Apply Q p u = Inr u"
  by (auto simp: Apply_def)

lemma Apply_forced [simp]: "Mode p = ModeForced \<Longrightarrow> Apply Q p u = Inr (platform_resources p)"
  by (simp add: Apply_def mode_defs)

lemma Apply_unknown: "\<not> known_mode (Mode p) \<Longrightarrow> Apply Q p u = Inl (UnknownMode (Mode p))"
  by (auto simp: Apply_def known_mode_def mode_defs)

lemma known_mode_cases:
  assumes "known_mode (Mode p)"
  obtains "Mode p = '''' \<or> Mode p = ModeOpen" | "Mode p = ModeForced" | "Mode p = ModeMax"
  using assms by (auto simp: known_mode_def)

section \<open>Properties\<close>

text \<open>
  C29: \<^verbatim>\<open>ResourcePolicy.Apply\<close> succeeds exactly when the mode is known and, in \<^verbatim>\<open>max\<close> mode,
  every field is within its cap (empty user fields and empty caps are always fine); it returns
  the user's values unchanged in \<^verbatim>\<open>open\<close> and \<^verbatim>\<open>max\<close> mode and the platform's in \<^verbatim>\<open>forced\<close>
  mode, and nothing in between.
\<close>

theorem policy_apply_spec:
  "Apply Q p u = Inr r \<longleftrightarrow>
     (Mode p \<in> {'''', ModeOpen} \<and> r = u) \<or>
     (Mode p = ModeForced \<and> r = platform_resources p) \<or>
     (Mode p = ModeMax \<and> r = u \<and> resources_within Q p u)"
proof (cases "known_mode (Mode p)")
  case True
  then show ?thesis
    by (cases rule: known_mode_cases) (auto simp: Apply_max_iff mode_defs)
next
  case False
  then show ?thesis by (auto simp: Apply_unknown known_mode_def)
qed

text \<open>A quantity parser for examples: decimal digits, compared as numbers.\<close>

definition digit_quantity :: "int quantity_ops" where
  "digit_quantity =
     \<lparr>ParseQuantity = (\<lambda>s. if s \<noteq> [] \<and> list_all (\<lambda>c. CHR ''0'' \<le> c \<and> c \<le> CHR ''9'') s
        then Inr (foldl (\<lambda>n c. 10 * n + (of_char c - 48)) 0 s) else Inl ''bad''),
      Cmp = (\<lambda>a b. sgn (a - b))\<rparr>"

lemma digit_quantity_laws: "quantity_laws digit_quantity"
  by (auto simp: quantity_laws_def digit_quantity_def sgn_if split: if_splits)

definition example_policy :: resource_policy where
  "example_policy =
     \<lparr>Mode = ModeMax, CPU = \<lparr>Request = ''200'', Limit = ''500''\<rparr>,
      Mem = \<lparr>Request = [], Limit = ''900''\<rparr>\<rparr>"

definition example_request :: resources where
  "example_request =
     \<lparr>CPURequest = ''100'', CPULimit = ''600'', MemoryRequest = ''64'', MemoryLimit = ''128''\<rparr>"

text \<open>
  a policy violation is only reported in \<^verbatim>\<open>max\<close> mode, for one of the four fields, with
  the user's value and the cap of that field, when both parse and the user's quantity is
  strictly greater than the cap.
\<close>

lemma policy_violation_sound:
  assumes "Apply Q p u = Inl e" "IsPolicyViolation e"
  shows "\<exists>f usr cp uq cq.
           e = PolicyViolation f usr cp \<and> ParseQuantity Q usr = Inr uq \<and>
           ParseQuantity Q cp = Inr cq \<and> Cmp Q uq cq > 0 \<and> Mode p = ModeMax \<and>
           (f, usr, cp) \<in>
             {(''cpuRequest'', CPURequest u, Request (CPU p)),
              (''cpuLimit'', CPULimit u, Limit (CPU p)),
              (''memoryRequest'', MemoryRequest u, Request (Mem p)),
              (''memoryLimit'', MemoryLimit u, Limit (Mem p))}"
proof -
  have m: "Mode p = ModeMax"
    using assms by (auto simp: Apply_def IsPolicyViolation_def split: if_splits)
  then obtain f usr cp where c: "checkMax Q f usr cp = Inl e" "(f, usr, cp) \<in>
      {(''cpuRequest'', CPURequest u, Request (CPU p)), (''cpuLimit'', CPULimit u, Limit (CPU p)),
       (''memoryRequest'', MemoryRequest u, Request (Mem p)),
       (''memoryLimit'', MemoryLimit u, Limit (Mem p))}"
    using assms(1) by (auto simp: Apply_def mode_defs res_bind_eq_Inl)
  from c(1) have "\<exists>uq cq. e = PolicyViolation f usr cp \<and> ParseQuantity Q usr = Inr uq \<and>
      ParseQuantity Q cp = Inr cq \<and> Cmp Q uq cq > 0"
    by (rule checkMax_errE) (use assms(2) in \<open>auto simp: IsPolicyViolation_def\<close>)
  with c(2) m show ?thesis by blast
qed

lemma example_violation:
  "Apply digit_quantity example_policy example_request =
     Inl (PolicyViolation ''cpuLimit'' ''600'' ''500'')"
  by code_simp

end
