(* ===== verification/Json_Text.thy ===== *)
theory Json_Text
  imports Go_Strings
begin

text \<open>
  Text that passes through \<^verbatim>\<open>encoding/json\<close>. \<^verbatim>\<open>Marshal\<close> writes the runes of a string, which
  \<^verbatim>\<open>Unmarshal\<close> reads back, but a byte that starts no rune becomes the replacement character
  U+FFFD: a string that is encoded and decoded again is \<open>json_text\<close> of itself. The store keeps the
  files of a source in this way.
\<close>

section \<open>UTF-8\<close>

definition cont_byte :: "nat \<Rightarrow> bool" where "cont_byte n \<longleftrightarrow> 0x80 \<le> n \<and> n \<le> 0xBF"

text \<open>Runes of two to four bytes: shortest form only, no surrogates, nothing above U+10FFFF.\<close>

definition rune2 :: "nat \<Rightarrow> nat \<Rightarrow> bool" where
  "rune2 a b \<longleftrightarrow> 0xC2 \<le> a \<and> a \<le> 0xDF \<and> cont_byte b"

definition rune3 :: "nat \<Rightarrow> nat \<Rightarrow> nat \<Rightarrow> bool" where
  "rune3 a b c \<longleftrightarrow> 0xE0 \<le> a \<and> a \<le> 0xEF \<and> cont_byte b \<and> cont_byte c \<and>
     (a = 0xE0 \<longrightarrow> 0xA0 \<le> b) \<and> (a = 0xED \<longrightarrow> b \<le> 0x9F)"

definition rune4 :: "nat \<Rightarrow> nat \<Rightarrow> nat \<Rightarrow> nat \<Rightarrow> bool" where
  "rune4 a b c d \<longleftrightarrow> 0xF0 \<le> a \<and> a \<le> 0xF4 \<and> cont_byte b \<and> cont_byte c \<and> cont_byte d \<and>
     (a = 0xF0 \<longrightarrow> 0x90 \<le> b) \<and> (a = 0xF4 \<longrightarrow> b \<le> 0x8F)"

text \<open>The size of the rune at the start, as \<^verbatim>\<open>utf8.DecodeRune\<close>, or 0 when there is none.\<close>

fun utf8_size :: "nat list \<Rightarrow> nat" where
  "utf8_size [] = 0"
| "utf8_size (a # ns) =
     (if a < 0x80 then 1
      else case ns of
        [] \<Rightarrow> 0
      | b # ms \<Rightarrow>
          if rune2 a b then 2
          else case ms of
            [] \<Rightarrow> 0
          | c # ls \<Rightarrow>
              if rune3 a b c then 3
              else case ls of [] \<Rightarrow> 0 | d # _ \<Rightarrow> if rune4 a b c d then 4 else 0)"

text \<open>\<^verbatim>\<open>utf8.Valid\<close>\<close>

function utf8_bytes :: "nat list \<Rightarrow> bool" where
  "utf8_bytes ns =
     (if ns = [] then True else if utf8_size ns = 0 then False else utf8_bytes (drop (utf8_size ns) ns))"
  by pat_completeness auto
termination
  by (relation "measure length") auto

declare utf8_bytes.simps [simp del]

definition utf8_Valid :: "string \<Rightarrow> bool" where
  "utf8_Valid s = utf8_bytes (map of_char s)"

section \<open>Encoding and decoding\<close>

function json_bytes :: "nat list \<Rightarrow> nat list" where
  "json_bytes ns =
     (if ns = [] then []
      else if utf8_size ns = 0 then [0xEF, 0xBF, 0xBD] @ json_bytes (tl ns)
      else take (utf8_size ns) ns @ json_bytes (drop (utf8_size ns) ns))"
  by pat_completeness auto
termination
  by (relation "measure length") auto

declare json_bytes.simps [simp del]

definition json_text :: "string \<Rightarrow> string" where
  "json_text s = map char_of (json_bytes (map of_char s))"

text \<open>
  A \<^verbatim>\<open>map[string]string\<close> is written in the order of its keys; when two of them become the same
  text, the later one wins in reading.
\<close>

definition json_files :: "string smap \<Rightarrow> string smap" where
  "json_files files =
     (let enc = map (\<lambda>(n, c). (json_text n, json_text c))
      in if distinct (map fst (enc files)) then enc files
         else fold (\<lambda>(n, c). AList.update n c) (enc (sort_key fst files)) [])"

section \<open>Text is unchanged\<close>

lemma utf8_size_cases:
  obtains "utf8_size ns = 0"
  | a ms where "ns = a # ms" "a < 0x80" "utf8_size ns = 1"
  | a b ms where "ns = a # b # ms" "\<not> a < 0x80" "rune2 a b" "utf8_size ns = 2"
  | a b c ms where "ns = a # b # c # ms" "\<not> a < 0x80" "\<not> rune2 a b" "rune3 a b c" "utf8_size ns = 3"
  | a b c d ms where "ns = a # b # c # d # ms" "\<not> a < 0x80" "\<not> rune2 a b" "\<not> rune3 a b c" "rune4 a b c d"
      "utf8_size ns = 4"
proof (cases "utf8_size ns = 0")
  case False
  then obtain a ns1 where a: "ns = a # ns1" by (cases ns) auto
  show thesis
  proof (cases "a < 0x80")
    case False
    with a \<open>utf8_size ns \<noteq> 0\<close> obtain b ns2 where b: "ns1 = b # ns2" by (cases ns1) auto
    show thesis
    proof (cases "rune2 a b")
      case False
      with a b \<open>\<not> a < 0x80\<close> \<open>utf8_size ns \<noteq> 0\<close> obtain c ns3 where c: "ns2 = c # ns3" by (cases ns2) auto
      with a b False \<open>\<not> a < 0x80\<close> \<open>utf8_size ns \<noteq> 0\<close> that(4,5) show thesis
        by (cases ns3; cases "rune3 a b c") (auto split: if_splits)
    qed (use a b \<open>\<not> a < 0x80\<close> that(3) in simp)
  qed (use a that(2) in simp)
qed (rule that(1))

lemma json_bytes_simps [simp]:
  "json_bytes [] = []"
  "ns \<noteq> [] \<Longrightarrow> utf8_size ns = 0 \<Longrightarrow> json_bytes ns = [0xEF, 0xBF, 0xBD] @ json_bytes (tl ns)"
  "utf8_size ns \<noteq> 0 \<Longrightarrow> json_bytes ns = take (utf8_size ns) ns @ json_bytes (drop (utf8_size ns) ns)"
  by (cases "ns = []"; simp add: json_bytes.simps [of ns] json_bytes.simps [of "[]"])+

lemma json_bytes_valid: "utf8_bytes ns \<Longrightarrow> json_bytes ns = ns"
proof (induction ns rule: json_bytes.induct)
  case (1 ns)
  then show ?case
    using utf8_bytes.simps [of ns] by (cases "ns = []"; cases "utf8_size ns = 0") simp_all
qed

lemma utf8_size_length: "utf8_size ns \<le> length ns"
  by (rule utf8_size_cases [of ns]) auto

lemma utf8_size_append: "utf8_size ns \<noteq> 0 \<Longrightarrow> utf8_size (take (utf8_size ns) ns @ ms) = utf8_size ns"
  by (rule utf8_size_cases [of ns]) auto

lemma utf8_bytes_json: "utf8_bytes (json_bytes ns)"
proof (induction ns rule: json_bytes.induct)
  case (1 ns)
  consider "ns = []" | "ns \<noteq> []" "utf8_size ns = 0" | "utf8_size ns \<noteq> 0" by blast
  then show ?case
  proof cases
    case 1
    then show ?thesis by (simp add: utf8_bytes.simps [of "[]"])
  next
    case 2
    with "1.IH"(1) have "utf8_bytes (0xEF # 0xBF # 0xBD # json_bytes (tl ns))"
      by (subst utf8_bytes.simps) (simp add: rune2_def rune3_def cont_byte_def)
    with 2 show ?thesis by simp
  next
    case 3
    then have "ns \<noteq> []" by auto
    with "1.IH"(2) 3 utf8_size_length [of ns]
    have "utf8_bytes (take (utf8_size ns) ns @ json_bytes (drop (utf8_size ns) ns))"
      by (subst utf8_bytes.simps) (simp add: utf8_size_append [OF 3])
    with 3 show ?thesis by simp
  qed
qed

lemma json_bytes_valid_iff: "json_bytes ns = ns \<longleftrightarrow> utf8_bytes ns"
  using json_bytes_valid utf8_bytes_json [of ns] by fastforce

section \<open>ASCII is unchanged\<close>

text \<open>An ASCII byte is a rune wherever it stands, so it splits the text.\<close>

lemma utf8_size_before_ascii: "a < 0x80 \<Longrightarrow> ns \<noteq> [] \<Longrightarrow> utf8_size (ns @ a # ms) = utf8_size ns"
  by (cases ns; cases "tl ns"; cases "tl (tl ns)"; cases "tl (tl (tl ns))")
    (auto simp: rune2_def rune3_def rune4_def cont_byte_def split: list.split)

lemma json_bytes_ascii: "a < 0x80 \<Longrightarrow> json_bytes (ns @ a # ms) = json_bytes ns @ a # json_bytes ms"
proof (induction ns rule: json_bytes.induct)
  case (1 ns)
  consider "ns = []" | "ns \<noteq> []" "utf8_size ns = 0" | "utf8_size ns \<noteq> 0" by blast
  then show ?case
  proof cases
    case 1
    with "1.prems" show ?thesis by simp
  next
    case 2
    with "1.IH"(1) "1.prems" utf8_size_before_ascii [OF "1.prems" 2(1)] show ?thesis by simp
  next
    case 3
    then have "ns \<noteq> []" by auto
    with "1.IH"(2) 3 "1.prems" utf8_size_before_ascii [OF "1.prems" this, of ms] utf8_size_length [of ns]
    show ?thesis by simp
  qed
qed

lemma json_bytes_Nil_iff [simp]: "json_bytes ns = [] \<longleftrightarrow> ns = []"
  by (cases "ns = []"; cases "utf8_size ns = 0") auto

text \<open>Output without the replacement character was input.\<close>

lemma json_bytes_all_ascii: "list_all (\<lambda>a. a < 0x80) (json_bytes ns) \<Longrightarrow> json_bytes ns = ns"
proof (induction ns rule: json_bytes.induct)
  case (1 ns)
  consider "ns = []" | "ns \<noteq> []" "utf8_size ns = 0" | "utf8_size ns \<noteq> 0" by blast
  then show ?case
  proof cases
    case 3
    then have "ns \<noteq> []" by auto
    with "1.IH"(2) 3 "1.prems" show ?thesis by simp
  qed (use "1.prems" in simp_all)
qed

section \<open>Strings\<close>

lemma json_bytes_range: "list_all (\<lambda>a. a < 256) ns \<Longrightarrow> list_all (\<lambda>a. a < 256) (json_bytes ns)"
proof (induction ns rule: json_bytes.induct)
  case (1 ns)
  have sub: "list_all (\<lambda>a. a < 256) (tl ns)" "list_all (\<lambda>a. a < 256) (drop k ns)" "list_all (\<lambda>a. a < 256) (take k ns)" for k
  proof -
    have "set (tl ns) \<subseteq> set ns" by (cases ns) auto
    with "1.prems" set_drop_subset [of k ns] set_take_subset [of k ns]
    show "list_all (\<lambda>a. a < 256) (tl ns)" "list_all (\<lambda>a. a < 256) (drop k ns)" "list_all (\<lambda>a. a < 256) (take k ns)"
      unfolding list_all_iff by blast+
  qed
  show ?case
    using 1 sub by (cases "ns = []"; cases "utf8_size ns = 0") simp_all
qed

lemma map_of_char_of [simp]: "list_all (\<lambda>a. a < 256) ns \<Longrightarrow> map of_char (map char_of ns) = (ns :: nat list)"
  by (induction ns) simp_all

lemma of_char_range: "list_all (\<lambda>a. a < 256) (map of_char s :: nat list)"
  by (simp add: list_all_iff)

lemma json_text_bytes: "map of_char (json_text s) = json_bytes (map of_char s :: nat list)"
  unfolding json_text_def by (rule map_of_char_of) (rule json_bytes_range [OF of_char_range])

lemma json_text_Valid [simp]: "utf8_Valid (json_text s)"
  by (simp add: utf8_Valid_def json_text_bytes utf8_bytes_json)

lemma string_bytes_eq: "map of_char s = (map of_char t :: nat list) \<longleftrightarrow> s = t"
  by (simp add: inj_map_eq_map inj_on_def)

lemma json_text_id: "json_text s = s \<longleftrightarrow> utf8_Valid s"
  using json_bytes_valid_iff [of "map of_char s"] json_text_bytes [of s] string_bytes_eq [of "json_text s" s]
  by (simp add: utf8_Valid_def)

lemma json_text_idem [simp]: "json_text (json_text s) = json_text s"
  by (simp add: json_text_id)

lemma json_text_Nil [simp]: "json_text s = [] \<longleftrightarrow> s = []" "json_text [] = []"
  by (simp_all add: json_text_def)

lemma json_text_ascii:
  assumes "of_char c < (0x80 :: nat)"
  shows "json_text (s @ c # t) = json_text s @ c # json_text t"
proof -
  have "map of_char (json_text (s @ c # t)) = (map of_char (json_text s @ c # json_text t) :: nat list)"
    using json_bytes_ascii [OF assms, of "map of_char s" "map of_char t"] by (simp add: json_text_bytes)
  then show ?thesis by (simp only: string_bytes_eq)
qed

lemma json_text_to_ascii:
  assumes "json_text s = t" "list_all (\<lambda>c. of_char c < (0x80 :: nat)) t"
  shows "s = t"
proof -
  have "list_all (\<lambda>a. a < 0x80) (json_bytes (map of_char s))"
    unfolding json_text_bytes [symmetric] assms(1) using assms(2) by (simp add: list_all_iff)
  then have "map of_char (json_text s) = (map of_char s :: nat list)"
    unfolding json_text_bytes by (rule json_bytes_all_ascii)
  with assms(1) show ?thesis by (simp add: string_bytes_eq)
qed

lemma json_bytes_ascii_mem: "a \<in> set (json_bytes ns) \<Longrightarrow> a < 0x80 \<Longrightarrow> a \<in> set ns"
proof (induction ns rule: json_bytes.induct)
  case (1 ns)
  then show ?case
    by (cases "ns = []"; cases "utf8_size ns = 0")
      (auto dest: in_set_takeD in_set_dropD intro: list.set_sel(2))
qed

lemma json_text_ascii_mem:
  assumes "of_char c < (0x80 :: nat)" "c \<in> set (json_text s)"
  shows "c \<in> set s"
proof -
  have "of_char c \<in> set (map of_char (json_text s) :: nat list)" using assms(2) by simp
  then have "of_char c \<in> set (map of_char s :: nat list)"
    unfolding json_text_bytes by (rule json_bytes_ascii_mem) (rule assms(1))
  then show ?thesis by auto
qed

lemma json_text_split:
  assumes "of_char c < (0x80 :: nat)"
  shows "split_on c (json_text s) = map json_text (split_on c s)"
proof (induction "length s" arbitrary: s rule: less_induct)
  case less
  show ?case
  proof (cases "c \<in> set s")
    case True
    then obtain x y where s: "s = x @ c # y" "c \<notin> set x" by (meson split_list_first)
    then have "c \<notin> set (json_text x)" using json_text_ascii_mem [OF assms] by blast
    with s less.hyps [of y] show ?thesis
      by (simp add: json_text_ascii [OF assms] split_on_append_sep)
  next
    case False
    then have "c \<notin> set (json_text s)" using json_text_ascii_mem [OF assms] by blast
    with False show ?thesis by (simp add: split_on_no_sep)
  qed
qed

lemma utf8_bytes_ascii: "list_all (\<lambda>a. a < 0x80) ns \<Longrightarrow> utf8_bytes ns"
  by (induction ns) (simp_all add: utf8_bytes.simps [of "_ # _"] utf8_bytes.simps [of "[]"])

lemma utf8_Valid_ascii: "list_all (\<lambda>c. of_char c < (0x80 :: nat)) s \<Longrightarrow> utf8_Valid s"
  unfolding utf8_Valid_def by (rule utf8_bytes_ascii) (simp add: list_all_iff)

section \<open>Files\<close>

definition text_files :: "string smap \<Rightarrow> bool" where
  "text_files files \<longleftrightarrow> list_all (\<lambda>(n, c). utf8_Valid n \<and> utf8_Valid c) files"

lemma set_update_pairs: "set (fold (\<lambda>(n, c). AList.update n c) xs acc) \<subseteq> set acc \<union> set xs"
proof (induction xs arbitrary: acc)
  case (Cons p xs)
  have "set (AList.update n c acc) \<subseteq> insert (n, c) (set acc)" for n c
    by (induction acc) auto
  with Cons.IH [of "AList.update (fst p) (snd p) acc"] show ?case by (fastforce simp: case_prod_unfold)
qed simp

lemma json_files_mem:
  "(n, c) \<in> set (json_files files) \<Longrightarrow> \<exists>(n0, c0) \<in> set files. n = json_text n0 \<and> c = json_text c0"
  using set_update_pairs [of "map (\<lambda>(n, c). (json_text n, json_text c)) (sort_key fst files)" "[]"]
  by (fastforce simp: json_files_def Let_def split: if_splits)

lemma json_files_nonempty [simp]: "json_files files = [] \<longleftrightarrow> files = []"
proof -
  have "fold (\<lambda>(n, c). AList.update n c) xs acc \<noteq> []" if "acc \<noteq> [] \<or> xs \<noteq> []" for xs acc :: "string smap"
    using that
  proof (induction xs arbitrary: acc)
    case (Cons p xs)
    have "AList.update n c acc \<noteq> []" for n c by (cases acc) auto
    with Cons.IH show ?case by (simp add: case_prod_unfold)
  qed simp
  note nonempty = this [of "[]" "map (\<lambda>(n, c). (json_text n, json_text c)) (sort_key fst files)"]
  have "sort_key fst files = [] \<longleftrightarrow> files = []" by (metis length_0_conv length_sort)
  with nonempty show ?thesis by (cases "files = []") (simp_all add: json_files_def Let_def)
qed

lemma json_files_distinct: "distinct (map fst (json_files files))"
proof -
  have "distinct (map fst (fold (\<lambda>(n, c). AList.update n c) xs acc))" if "distinct (map fst acc)"
    for xs acc :: "string smap"
    using that by (induction xs arbitrary: acc) (auto simp: distinct_update case_prod_unfold)
  then show ?thesis by (simp add: json_files_def Let_def)
qed

lemma json_files_text: "text_files (json_files files)"
  using json_files_mem by (fastforce simp: text_files_def list_all_iff)

text \<open>A map of texts is unchanged, and nothing else is.\<close>

lemma json_files_id:
  assumes "distinct (map fst files)"
  shows "json_files files = files \<longleftrightarrow> text_files files"
proof
  assume "json_files files = files"
  with json_files_text [of files] show "text_files files" by simp
next
  assume "text_files files"
  then have "map (\<lambda>(n, c). (json_text n, json_text c)) files = files"
    by (intro map_idI) (auto simp: text_files_def list_all_iff json_text_id)
  with assms show "json_files files = files" by (simp add: json_files_def Let_def)
qed

end
