(* ===== verification/Store.thy ===== *)
theory Store
  imports Policy Json_Text
begin

text \<open>
  The persistence contract, \<^verbatim>\<open>internal/store/store.go\<close>: the row types, the \<^verbatim>\<open>Store\<close>
  interface as the record \<^verbatim>\<open>store_ops\<close> of operations on a state, and what the interface
  promises: an abstract store of four maps keyed by id (\<^verbatim>\<open>astore\<close>), the effect of every
  operation on it, and the locale \<open>store_contract\<close> which says that an implementation
  refines it. An operation that reads the clock takes the reading as its first argument.

  The three identical structs \<^verbatim>\<open>store.Resources\<close>, \<^verbatim>\<open>policy.Resources\<close> and
  \<^verbatim>\<open>spinapp.Resources\<close> are the one record \<^typ>\<open>resources\<close>; where the code copies one into
  another field by field, so does the model.
\<close>

section \<open>Rows\<close>

type_synonym runtime = string

definition RuntimeSpinKube :: runtime where "RuntimeSpinKube = ''spinkube''"
definition RuntimeWorkerPool :: runtime where "RuntimeWorkerPool = ''workerpool''"

lemmas runtime_defs = RuntimeSpinKube_def RuntimeWorkerPool_def

record variable =
  var_Name :: string
  var_Value :: string

record application =
  a_ID :: string
  a_TenantID :: string
  a_Name :: string
  a_Language :: string
  a_Runtime :: runtime
  a_Description :: string
  a_Replicas :: int
  a_Variables :: "variable list"
  a_Resources :: resources
  a_CreatedAt :: time
  a_UpdatedAt :: time

record func =
  f_ID :: string
  f_ApplicationID :: string
  f_Name :: string
  f_Route :: string
  f_CreatedAt :: time
  f_UpdatedAt :: time

record source =
  src_FunctionID :: string
  src_Files :: "string smap"
  src_UpdatedAt :: time

datatype build_status = BuildPending | BuildRunning | BuildSucceeded | BuildFailed

text \<open>The order in which a build takes its statuses; the two final ones are incomparable.\<close>

fun status_rank :: "build_status \<Rightarrow> nat" where
  "status_rank BuildPending = 0"
| "status_rank BuildRunning = 1"
| "status_rank BuildSucceeded = 2"
| "status_rank BuildFailed = 2"

instantiation build_status :: order
begin

definition less_build_status where
  "x < y \<longleftrightarrow> status_rank x < status_rank y"

definition less_eq_build_status where
  "x \<le> y \<longleftrightarrow> x = y \<or> status_rank x < status_rank y"

instance
  by standard (auto simp: less_build_status_def less_eq_build_status_def)

end

record build =
  b_ID :: string
  b_ApplicationID :: string
  b_ImageRef :: string
  b_ImageSizeBytes :: "int option"
  b_Status :: build_status
  b_Error :: string
  b_CreatedAt :: time
  b_FinishedAt :: "time option"

text \<open>The empty \<^verbatim>\<open>Resources\<close> value.\<close>

definition no_resources :: resources where
  "no_resources = \<lparr>CPURequest = [], CPULimit = [], MemoryRequest = [], MemoryLimit = []\<rparr>"

section \<open>The interface\<close>

text \<open>\<^verbatim>\<open>errors.Is(err, ErrNotFound)\<close> is the only distinction callers make among errors.\<close>

datatype store_error = ErrNotFound | ErrStore string

fun error_text :: "store_error \<Rightarrow> string" where
  "error_text ErrNotFound = ''not found''"
| "error_text (ErrStore m) = m"

type_synonym 's writes = "'s \<Rightarrow> (store_error + unit) \<times> 's"
type_synonym ('s, 'a) reads = "'s \<Rightarrow> store_error + 'a"

record 's store_ops =
  Ping :: "'s \<Rightarrow> string option"
  ListApplications :: "string \<Rightarrow> ('s, application list) reads"
  GetApplication :: "string \<Rightarrow> string \<Rightarrow> ('s, application) reads"
  GetApplicationByName :: "string \<Rightarrow> string \<Rightarrow> ('s, application) reads"
  CreateApplication :: "time \<Rightarrow> application \<Rightarrow> 's writes"
  UpdateApplicationConfig ::
    "time \<Rightarrow> string \<Rightarrow> string \<Rightarrow> string \<Rightarrow> int \<Rightarrow> variable list \<Rightarrow> resources \<Rightarrow> 's writes"
  DeleteApplication :: "string \<Rightarrow> string \<Rightarrow> 's writes"
  ListFunctions :: "string \<Rightarrow> ('s, func list) reads"
  GetFunction :: "string \<Rightarrow> string \<Rightarrow> ('s, func) reads"
  CreateFunction :: "time \<Rightarrow> func \<Rightarrow> 's writes"
  UpdateFunctionRoute :: "time \<Rightarrow> string \<Rightarrow> string \<Rightarrow> string \<Rightarrow> 's writes"
  DeleteFunction :: "string \<Rightarrow> string \<Rightarrow> 's writes"
  GetSource :: "string \<Rightarrow> ('s, source) reads"
  PutSource :: "time \<Rightarrow> source \<Rightarrow> 's writes"
  CreateBuild :: "time \<Rightarrow> build \<Rightarrow> 's writes"
  GetBuild :: "string \<Rightarrow> string \<Rightarrow> ('s, build) reads"
  ListBuilds :: "string \<Rightarrow> int \<Rightarrow> ('s, build list) reads"
  UpdateBuildStatus :: "string \<Rightarrow> build_status \<Rightarrow> string \<Rightarrow> time option \<Rightarrow> 's writes"
  UpdateBuildImageSize :: "string \<Rightarrow> int \<Rightarrow> 's writes"

text \<open>\<^verbatim>\<open>Open\<close> picks the driver; only sqlite exists. \<^term>\<open>opn\<close> is \<^verbatim>\<open>openSQLite\<close> of the DSN.\<close>

definition Open :: "(string \<Rightarrow> string + 's) \<Rightarrow> string \<Rightarrow> string \<Rightarrow> string + 's" where
  "Open opn driver dsn =
     (if driver = ''sqlite'' then opn dsn
      else if driver = ''postgres'' then Inl ''postgres driver not yet implemented''
      else Inl (''unknown db driver '' @ Quote driver))"

section \<open>The abstract store\<close>

record astore =
  A_apps :: "string \<rightharpoonup> application"
  A_fns :: "string \<rightharpoonup> func"
  A_srcs :: "string \<rightharpoonup> source"
  A_blds :: "string \<rightharpoonup> build"

definition empty_astore :: astore where
  "empty_astore = \<lparr>A_apps = Map.empty, A_fns = Map.empty, A_srcs = Map.empty, A_blds = Map.empty\<rparr>"

text \<open>The rows that a creation stores, with the defaults the code fills in.\<close>

definition stored_app :: "time \<Rightarrow> application \<Rightarrow> application" where
  "stored_app now a =
     a\<lparr>a_CreatedAt := (if is_zero_time (a_CreatedAt a) then now else a_CreatedAt a),
       a_UpdatedAt := now,
       a_Runtime := (if a_Runtime a = [] then RuntimeSpinKube else a_Runtime a),
       a_Replicas := (if a_Replicas a \<le> 0 then 1 else a_Replicas a)\<rparr>"

definition stored_fn :: "time \<Rightarrow> func \<Rightarrow> func" where
  "stored_fn now f =
     f\<lparr>f_CreatedAt := (if is_zero_time (f_CreatedAt f) then now else f_CreatedAt f),
       f_UpdatedAt := now\<rparr>"

definition stored_build :: "time \<Rightarrow> build \<Rightarrow> build" where
  "stored_build now b =
     b\<lparr>b_CreatedAt := (if is_zero_time (b_CreatedAt b) then now else b_CreatedAt b),
       b_ImageSizeBytes := None\<rparr>"

text \<open>The files of a source are a JSON column.\<close>

definition stored_source :: "time \<Rightarrow> source \<Rightarrow> source" where
  "stored_source now x = x\<lparr>src_Files := json_files (src_Files x), src_UpdatedAt := now\<rparr>"

definition configured ::
  "time \<Rightarrow> string \<Rightarrow> int \<Rightarrow> variable list \<Rightarrow> resources \<Rightarrow> application \<Rightarrow> application" where
  "configured now desc repl vars res a =
     a\<lparr>a_Description := desc, a_Replicas := (if repl \<le> 0 then 1 else repl), a_Variables := vars,
       a_Resources := res, a_UpdatedAt := now\<rparr>"

definition can_create_app :: "application \<Rightarrow> astore \<Rightarrow> bool" where
  "can_create_app a A \<longleftrightarrow>
     A_apps A (a_ID a) = None \<and>
     (\<forall>i b. A_apps A i = Some b \<longrightarrow> \<not> (a_TenantID b = a_TenantID a \<and> a_Name b = a_Name a))"

definition can_create_fn :: "func \<Rightarrow> astore \<Rightarrow> bool" where
  "can_create_fn f A \<longleftrightarrow>
     A_fns A (f_ID f) = None \<and> A_apps A (f_ApplicationID f) \<noteq> None \<and>
     (\<forall>i g. A_fns A i = Some g \<longrightarrow>
        \<not> (f_ApplicationID g = f_ApplicationID f \<and> f_Name g = f_Name f))"

definition can_create_build :: "build \<Rightarrow> astore \<Rightarrow> bool" where
  "can_create_build b A \<longleftrightarrow> A_blds A (b_ID b) = None \<and> A_apps A (b_ApplicationID b) \<noteq> None"

definition has_app :: "string \<Rightarrow> string \<Rightarrow> astore \<Rightarrow> bool" where
  "has_app tid i A \<longleftrightarrow> (\<exists>a. A_apps A i = Some a \<and> a_TenantID a = tid)"

definition has_fn :: "string \<Rightarrow> string \<Rightarrow> astore \<Rightarrow> bool" where
  "has_fn aid i A \<longleftrightarrow> (\<exists>f. A_fns A i = Some f \<and> f_ApplicationID f = aid)"

text \<open>Deleting an application takes its functions, their sources and its builds along.\<close>

definition remove_app :: "string \<Rightarrow> astore \<Rightarrow> astore" where
  "remove_app i A =
     A\<lparr>A_apps := (A_apps A)(i := None),
       A_fns := (\<lambda>j. if (\<exists>f. A_fns A j = Some f \<and> f_ApplicationID f = i) then None else A_fns A j),
       A_srcs := (\<lambda>j. if (\<exists>f. A_fns A j = Some f \<and> f_ApplicationID f = i) then None else A_srcs A j),
       A_blds := (\<lambda>j. if (\<exists>b. A_blds A j = Some b \<and> b_ApplicationID b = i) then None
                       else A_blds A j)\<rparr>"

definition remove_fn :: "string \<Rightarrow> astore \<Rightarrow> astore" where
  "remove_fn i A = A\<lparr>A_fns := (A_fns A)(i := None), A_srcs := (A_srcs A)(i := None)\<rparr>"

text \<open>
  Well-formed abstract stores: rows sit under their own id, names are unique where the schema
  says so, every child has its parent, and the defaults hold.
\<close>

definition astore_inv :: "astore \<Rightarrow> bool" where
  "astore_inv A \<longleftrightarrow>
     (\<forall>i a. A_apps A i = Some a \<longrightarrow> a_ID a = i \<and> 1 \<le> a_Replicas a \<and> a_Runtime a \<noteq> []) \<and>
     (\<forall>i f. A_fns A i = Some f \<longrightarrow> f_ID f = i \<and> A_apps A (f_ApplicationID f) \<noteq> None) \<and>
     (\<forall>i s. A_srcs A i = Some s \<longrightarrow> src_FunctionID s = i \<and> A_fns A i \<noteq> None) \<and>
     (\<forall>i b. A_blds A i = Some b \<longrightarrow> b_ID b = i \<and> A_apps A (b_ApplicationID b) \<noteq> None) \<and>
     (\<forall>i j a b. A_apps A i = Some a \<longrightarrow> A_apps A j = Some b \<longrightarrow>
        a_TenantID a = a_TenantID b \<longrightarrow> a_Name a = a_Name b \<longrightarrow> i = j) \<and>
     (\<forall>i j f g. A_fns A i = Some f \<longrightarrow> A_fns A j = Some g \<longrightarrow>
        f_ApplicationID f = f_ApplicationID g \<longrightarrow> f_Name f = f_Name g \<longrightarrow> i = j)"

lemma stored_app_simps [simp]:
  "a_ID (stored_app now a) = a_ID a" "a_TenantID (stored_app now a) = a_TenantID a"
  "a_Name (stored_app now a) = a_Name a" "1 \<le> a_Replicas (stored_app now a)"
  "a_Runtime (stored_app now a) \<noteq> []"
  by (simp_all add: stored_app_def runtime_defs)

lemma stored_fn_simps [simp]:
  "f_ID (stored_fn now f) = f_ID f" "f_ApplicationID (stored_fn now f) = f_ApplicationID f"
  "f_Name (stored_fn now f) = f_Name f" "f_Route (stored_fn now f) = f_Route f"
  by (simp_all add: stored_fn_def)

lemma stored_build_simps [simp]:
  "b_ID (stored_build now b) = b_ID b" "b_ApplicationID (stored_build now b) = b_ApplicationID b"
  by (simp_all add: stored_build_def)

lemma stored_source_simps [simp]:
  "src_FunctionID (stored_source now x) = src_FunctionID x"
  "src_Files (stored_source now x) = json_files (src_Files x)"
  "src_UpdatedAt (stored_source now x) = now"
  by (simp_all add: stored_source_def)

lemma configured_simps [simp]:
  "a_ID (configured now d n vs r a) = a_ID a" "a_TenantID (configured now d n vs r a) = a_TenantID a"
  "a_Name (configured now d n vs r a) = a_Name a" "a_Runtime (configured now d n vs r a) = a_Runtime a"
  "1 \<le> a_Replicas (configured now d n vs r a)"
  by (simp_all add: configured_def)

lemma astore_invD:
  assumes "astore_inv A"
  shows "A_apps A i = Some a \<Longrightarrow> a_ID a = i" "A_apps A i = Some a \<Longrightarrow> 1 \<le> a_Replicas a"
    "A_fns A i = Some f \<Longrightarrow> f_ID f = i" "A_fns A i = Some f \<Longrightarrow> \<exists>a. A_apps A (f_ApplicationID f) = Some a"
    "A_srcs A i = Some x \<Longrightarrow> src_FunctionID x = i" "A_srcs A i = Some x \<Longrightarrow> \<exists>f. A_fns A i = Some f"
    "A_blds A i = Some b \<Longrightarrow> b_ID b = i" "A_blds A i = Some b \<Longrightarrow> \<exists>a. A_apps A (b_ApplicationID b) = Some a"
  using assms unfolding astore_inv_def by blast+

lemma astore_inv_unique:
  assumes "astore_inv A"
  shows "A_apps A i = Some a \<Longrightarrow> A_apps A j = Some b \<Longrightarrow> a_TenantID a = a_TenantID b \<Longrightarrow>
      a_Name a = a_Name b \<Longrightarrow> i = j"
    "A_fns A i = Some f \<Longrightarrow> A_fns A j = Some g \<Longrightarrow> f_ApplicationID f = f_ApplicationID g \<Longrightarrow>
      f_Name f = f_Name g \<Longrightarrow> i = j"
  using assms unfolding astore_inv_def by blast+

text \<open>Every abstract operation keeps the abstract store well-formed.\<close>

lemma inv_add_app:
  "astore_inv A \<Longrightarrow> can_create_app a A \<Longrightarrow>
   astore_inv (A\<lparr>A_apps := (A_apps A)(a_ID a \<mapsto> stored_app now a)\<rparr>)"
  unfolding astore_inv_def can_create_app_def by (simp split: if_splits) metis

lemma inv_configure_app:
  "astore_inv A \<Longrightarrow> A_apps A i = Some a \<Longrightarrow>
   astore_inv (A\<lparr>A_apps := (A_apps A)(i \<mapsto> configured now d n vs r a)\<rparr>)"
  unfolding astore_inv_def by (simp split: if_splits) metis

lemma inv_remove_app: "astore_inv A \<Longrightarrow> astore_inv (remove_app i A)"
  unfolding astore_inv_def remove_app_def by (simp split: if_splits) metis

lemma inv_add_fn:
  "astore_inv A \<Longrightarrow> can_create_fn f A \<Longrightarrow>
   astore_inv (A\<lparr>A_fns := (A_fns A)(f_ID f \<mapsto> stored_fn now f)\<rparr>)"
  unfolding astore_inv_def can_create_fn_def by (simp split: if_splits) metis

lemma inv_update_fn:
  "astore_inv A \<Longrightarrow> A_fns A i = Some f \<Longrightarrow>
   astore_inv (A\<lparr>A_fns := (A_fns A)(i \<mapsto> f\<lparr>f_Route := rt, f_UpdatedAt := now\<rparr>)\<rparr>)"
  unfolding astore_inv_def by (simp split: if_splits) metis

lemma inv_remove_fn: "astore_inv A \<Longrightarrow> astore_inv (remove_fn i A)"
  unfolding astore_inv_def remove_fn_def by (simp split: if_splits)

lemma inv_put_source:
  "astore_inv A \<Longrightarrow> A_fns A (src_FunctionID s) \<noteq> None \<Longrightarrow>
   astore_inv (A\<lparr>A_srcs := (A_srcs A)(src_FunctionID s \<mapsto> stored_source now s)\<rparr>)"
  unfolding astore_inv_def by (simp split: if_splits)

lemma inv_add_build:
  "astore_inv A \<Longrightarrow> can_create_build b A \<Longrightarrow>
   astore_inv (A\<lparr>A_blds := (A_blds A)(b_ID b \<mapsto> stored_build now b)\<rparr>)"
  unfolding astore_inv_def can_create_build_def by (simp split: if_splits)

lemma inv_update_build:
  "astore_inv A \<Longrightarrow> (\<And>b. b_ID (g b) = b_ID b \<and> b_ApplicationID (g b) = b_ApplicationID b) \<Longrightarrow>
   astore_inv (A\<lparr>A_blds := (A_blds A)(i := map_option g (A_blds A i))\<rparr>)"
  unfolding astore_inv_def by (simp split: if_splits option.splits) metis

lemma inv_empty_astore [simp]: "astore_inv empty_astore"
  by (simp add: astore_inv_def empty_astore_def)

section \<open>The contract\<close>

definition lookup :: "('a \<Rightarrow> bool) \<Rightarrow> 'a option \<Rightarrow> store_error + 'a" where
  "lookup P r = (case r of None \<Rightarrow> Inl ErrNotFound | Some a \<Rightarrow> if P a then Inr a else Inl ErrNotFound)"

text \<open>\<^verbatim>\<open>ListBuilds\<close> takes a limit that is not positive for 20.\<close>

definition limit_or_20 :: "int \<Rightarrow> nat" where
  "limit_or_20 n = (if n \<le> 0 then 20 else nat n)"

locale store_contract =
  fixes S :: "'s store_ops"
    and inv :: "'s \<Rightarrow> bool"
    and abs :: "'s \<Rightarrow> astore"
  assumes abs_inv: "inv s \<Longrightarrow> astore_inv (abs s)"
    and get_app: "inv s \<Longrightarrow>
      GetApplication S tid i s = lookup (\<lambda>a. a_TenantID a = tid) (A_apps (abs s) i)"
    and list_apps: "inv s \<Longrightarrow> \<exists>as. ListApplications S tid s = Inr as \<and> sorted (map a_Name as) \<and>
      distinct as \<and> set as = {a \<in> ran (A_apps (abs s)). a_TenantID a = tid}"
    and create_app: "inv s \<Longrightarrow> can_create_app a (abs s) \<Longrightarrow>
      fst (CreateApplication S now a s) = Inr () \<and> inv (snd (CreateApplication S now a s)) \<and>
      abs (snd (CreateApplication S now a s)) =
        abs s\<lparr>A_apps := (A_apps (abs s))(a_ID a \<mapsto> stored_app now a)\<rparr>"
    and create_app_err: "inv s \<Longrightarrow> \<not> can_create_app a (abs s) \<Longrightarrow>
      \<exists>m. CreateApplication S now a s = (Inl (ErrStore m), s)"
    and update_app: "inv s \<Longrightarrow> A_apps (abs s) i = Some a \<Longrightarrow> a_TenantID a = tid \<Longrightarrow>
      fst (UpdateApplicationConfig S now tid i d n vs r s) = Inr () \<and>
      inv (snd (UpdateApplicationConfig S now tid i d n vs r s)) \<and>
      abs (snd (UpdateApplicationConfig S now tid i d n vs r s)) =
        abs s\<lparr>A_apps := (A_apps (abs s))(i \<mapsto> configured now d n vs r a)\<rparr>"
    and update_app_err: "inv s \<Longrightarrow> \<not> has_app tid i (abs s) \<Longrightarrow>
      UpdateApplicationConfig S now tid i d n vs r s = (Inl ErrNotFound, s)"
    and delete_app: "inv s \<Longrightarrow> has_app tid i (abs s) \<Longrightarrow>
      fst (DeleteApplication S tid i s) = Inr () \<and> inv (snd (DeleteApplication S tid i s)) \<and>
      abs (snd (DeleteApplication S tid i s)) = remove_app i (abs s)"
    and delete_app_err: "inv s \<Longrightarrow> \<not> has_app tid i (abs s) \<Longrightarrow>
      DeleteApplication S tid i s = (Inl ErrNotFound, s)"
    and get_fn: "inv s \<Longrightarrow>
      GetFunction S aid i s = lookup (\<lambda>f. f_ApplicationID f = aid) (A_fns (abs s) i)"
    and list_fns: "inv s \<Longrightarrow> \<exists>fs. ListFunctions S aid s = Inr fs \<and> sorted (map f_Name fs) \<and>
      distinct fs \<and> set fs = {f \<in> ran (A_fns (abs s)). f_ApplicationID f = aid}"
    and create_fn: "inv s \<Longrightarrow> can_create_fn f (abs s) \<Longrightarrow>
      fst (CreateFunction S now f s) = Inr () \<and> inv (snd (CreateFunction S now f s)) \<and>
      abs (snd (CreateFunction S now f s)) =
        abs s\<lparr>A_fns := (A_fns (abs s))(f_ID f \<mapsto> stored_fn now f)\<rparr>"
    and create_fn_err: "inv s \<Longrightarrow> \<not> can_create_fn f (abs s) \<Longrightarrow>
      \<exists>m. CreateFunction S now f s = (Inl (ErrStore m), s)"
    and update_fn: "inv s \<Longrightarrow> A_fns (abs s) i = Some f \<Longrightarrow> f_ApplicationID f = aid \<Longrightarrow>
      fst (UpdateFunctionRoute S now aid i rt s) = Inr () \<and>
      inv (snd (UpdateFunctionRoute S now aid i rt s)) \<and>
      abs (snd (UpdateFunctionRoute S now aid i rt s)) =
        abs s\<lparr>A_fns := (A_fns (abs s))(i \<mapsto> f\<lparr>f_Route := rt, f_UpdatedAt := now\<rparr>)\<rparr>"
    and delete_fn: "inv s \<Longrightarrow> has_fn aid i (abs s) \<Longrightarrow>
      fst (DeleteFunction S aid i s) = Inr () \<and> inv (snd (DeleteFunction S aid i s)) \<and>
      abs (snd (DeleteFunction S aid i s)) = remove_fn i (abs s)"
    and update_fn_err: "inv s \<Longrightarrow> \<not> has_fn aid i (abs s) \<Longrightarrow>
      UpdateFunctionRoute S now aid i rt s = (Inl ErrNotFound, s)"
    and delete_fn_err: "inv s \<Longrightarrow> \<not> has_fn aid i (abs s) \<Longrightarrow>
      DeleteFunction S aid i s = (Inl ErrNotFound, s)"
    and get_source: "inv s \<Longrightarrow> GetSource S i s = lookup (\<lambda>_. True) (A_srcs (abs s) i)"
    and put_source: "inv s \<Longrightarrow> A_fns (abs s) (src_FunctionID x) \<noteq> None \<Longrightarrow>
      fst (PutSource S now x s) = Inr () \<and> inv (snd (PutSource S now x s)) \<and>
      abs (snd (PutSource S now x s)) =
        abs s\<lparr>A_srcs := (A_srcs (abs s))(src_FunctionID x \<mapsto> stored_source now x)\<rparr>"
    and put_source_err: "inv s \<Longrightarrow> A_fns (abs s) (src_FunctionID x) = None \<Longrightarrow>
      \<exists>m. PutSource S now x s = (Inl (ErrStore m), s)"
    and create_build: "inv s \<Longrightarrow> can_create_build b (abs s) \<Longrightarrow>
      fst (CreateBuild S now b s) = Inr () \<and> inv (snd (CreateBuild S now b s)) \<and>
      abs (snd (CreateBuild S now b s)) =
        abs s\<lparr>A_blds := (A_blds (abs s))(b_ID b \<mapsto> stored_build now b)\<rparr>"
    and create_build_err: "inv s \<Longrightarrow> \<not> can_create_build b (abs s) \<Longrightarrow>
      \<exists>m. CreateBuild S now b s = (Inl (ErrStore m), s)"
    and get_build: "inv s \<Longrightarrow>
      GetBuild S aid i s = lookup (\<lambda>b. b_ApplicationID b = aid) (A_blds (abs s) i)"
    and list_builds: "inv s \<Longrightarrow> \<exists>bs. ListBuilds S aid n s = Inr (take (limit_or_20 n) bs) \<and>
      sorted_wrt (\<lambda>b c. b_CreatedAt c \<le> b_CreatedAt b) bs \<and> distinct bs \<and>
      set bs = {b \<in> ran (A_blds (abs s)). b_ApplicationID b = aid}"
    and update_status: "inv s \<Longrightarrow>
      fst (UpdateBuildStatus S i st e fin s) = Inr () \<and> inv (snd (UpdateBuildStatus S i st e fin s)) \<and>
      abs (snd (UpdateBuildStatus S i st e fin s)) =
        abs s\<lparr>A_blds := (A_blds (abs s))(i := map_option
          (\<lambda>b. b\<lparr>b_Status := st, b_Error := e, b_FinishedAt := fin\<rparr>) (A_blds (abs s) i))\<rparr>"
    and update_size: "inv s \<Longrightarrow>
      fst (UpdateBuildImageSize S i n s) = Inr () \<and> inv (snd (UpdateBuildImageSize S i n s)) \<and>
      abs (snd (UpdateBuildImageSize S i n s)) =
        abs s\<lparr>A_blds := (A_blds (abs s))(i := map_option
          (\<lambda>b. b\<lparr>b_ImageSizeBytes := Some n\<rparr>) (A_blds (abs s) i))\<rparr>"


section \<open>Runs of calls\<close>

text \<open>The writing calls of the interface, and what a sequence of them does to the contents.\<close>

datatype store_call =
    CallCreateApplication time application
  | CallUpdateApplicationConfig time string string string int "variable list" resources
  | CallDeleteApplication string string
  | CallCreateFunction time func
  | CallUpdateFunctionRoute time string string string
  | CallDeleteFunction string string
  | CallPutSource time source
  | CallCreateBuild time build
  | CallUpdateBuildStatus string build_status string "time option"
  | CallUpdateBuildImageSize string int

fun exec_call :: "'s store_ops \<Rightarrow> store_call \<Rightarrow> 's writes" where
  "exec_call S (CallCreateApplication now a) = CreateApplication S now a"
| "exec_call S (CallUpdateApplicationConfig now tid i ds n vs r) =
     UpdateApplicationConfig S now tid i ds n vs r"
| "exec_call S (CallDeleteApplication tid i) = DeleteApplication S tid i"
| "exec_call S (CallCreateFunction now f) = CreateFunction S now f"
| "exec_call S (CallUpdateFunctionRoute now aid i rt) = UpdateFunctionRoute S now aid i rt"
| "exec_call S (CallDeleteFunction aid i) = DeleteFunction S aid i"
| "exec_call S (CallPutSource now x) = PutSource S now x"
| "exec_call S (CallCreateBuild now b) = CreateBuild S now b"
| "exec_call S (CallUpdateBuildStatus i st e fin) = UpdateBuildStatus S i st e fin"
| "exec_call S (CallUpdateBuildImageSize i n) = UpdateBuildImageSize S i n"

text \<open>What the contents accept: an accepted call succeeds, any other fails without effect.\<close>

fun accepts :: "store_call \<Rightarrow> astore \<Rightarrow> bool" where
  "accepts (CallCreateApplication now a) A = can_create_app a A"
| "accepts (CallUpdateApplicationConfig now tid i ds n vs r) A = has_app tid i A"
| "accepts (CallDeleteApplication tid i) A = has_app tid i A"
| "accepts (CallCreateFunction now f) A = can_create_fn f A"
| "accepts (CallUpdateFunctionRoute now aid i rt) A = has_fn aid i A"
| "accepts (CallDeleteFunction aid i) A = has_fn aid i A"
| "accepts (CallPutSource now x) A = (A_fns A (src_FunctionID x) \<noteq> None)"
| "accepts (CallCreateBuild now b) A = can_create_build b A"
| "accepts (CallUpdateBuildStatus i st e fin) A = True"
| "accepts (CallUpdateBuildImageSize i n) A = True"

fun effect :: "store_call \<Rightarrow> astore \<Rightarrow> astore" where
  "effect (CallCreateApplication now a) A =
     A\<lparr>A_apps := (A_apps A)(a_ID a \<mapsto> stored_app now a)\<rparr>"
| "effect (CallUpdateApplicationConfig now tid i ds n vs r) A =
     A\<lparr>A_apps := (A_apps A)(i := map_option (configured now ds n vs r) (A_apps A i))\<rparr>"
| "effect (CallDeleteApplication tid i) A = remove_app i A"
| "effect (CallCreateFunction now f) A = A\<lparr>A_fns := (A_fns A)(f_ID f \<mapsto> stored_fn now f)\<rparr>"
| "effect (CallUpdateFunctionRoute now aid i rt) A =
     A\<lparr>A_fns := (A_fns A)(i := map_option (\<lambda>f. f\<lparr>f_Route := rt, f_UpdatedAt := now\<rparr>) (A_fns A i))\<rparr>"
| "effect (CallDeleteFunction aid i) A = remove_fn i A"
| "effect (CallPutSource now x) A =
     A\<lparr>A_srcs := (A_srcs A)(src_FunctionID x \<mapsto> stored_source now x)\<rparr>"
| "effect (CallCreateBuild now b) A = A\<lparr>A_blds := (A_blds A)(b_ID b \<mapsto> stored_build now b)\<rparr>"
| "effect (CallUpdateBuildStatus i st e fin) A =
     A\<lparr>A_blds := (A_blds A)(i := map_option
        (\<lambda>b. b\<lparr>b_Status := st, b_Error := e, b_FinishedAt := fin\<rparr>) (A_blds A i))\<rparr>"
| "effect (CallUpdateBuildImageSize i n) A =
     A\<lparr>A_blds := (A_blds A)(i := map_option (\<lambda>b. b\<lparr>b_ImageSizeBytes := Some n\<rparr>) (A_blds A i))\<rparr>"

definition spec_call :: "store_call \<Rightarrow> astore \<Rightarrow> bool \<times> astore" where
  "spec_call c A = (if accepts c A then (True, effect c A) else (False, A))"

fun run_calls :: "('c \<Rightarrow> 's \<Rightarrow> 'r \<times> 's) \<Rightarrow> 'c list \<Rightarrow> 's \<Rightarrow> 'r list \<times> 's" where
  "run_calls f [] s = ([], s)"
| "run_calls f (c # cs) s =
     (case f c s of (r, s') \<Rightarrow> case run_calls f cs s' of (rs, s'') \<Rightarrow> (r # rs, s''))"

context store_contract begin

lemma call_refines:
  assumes "inv s"
  shows "inv (snd (exec_call S c s))"
    and "abs (snd (exec_call S c s)) = snd (spec_call c (abs s))"
    and "is_ok (fst (exec_call S c s)) = fst (spec_call c (abs s))"
    and "\<not> accepts c (abs s) \<Longrightarrow> snd (exec_call S c s) = s"
proof -
  have "inv (snd (exec_call S c s)) \<and> abs (snd (exec_call S c s)) = snd (spec_call c (abs s)) \<and>
    is_ok (fst (exec_call S c s)) = fst (spec_call c (abs s)) \<and>
    (\<not> accepts c (abs s) \<longrightarrow> snd (exec_call S c s) = s)"
  proof (cases "accepts c (abs s)")
    case True
    with assms show ?thesis
      by (cases c)
        (auto simp: spec_call_def create_app update_app delete_app create_fn update_fn delete_fn
          put_source create_build update_status update_size has_app_def has_fn_def)
  next
    case False
    have "\<exists>e. exec_call S c s = (Inl e, s)"
    proof (cases c)
      case (CallCreateApplication now a)
      with assms False show ?thesis using create_app_err [of s a now] by auto
    next
      case (CallCreateFunction now f)
      with assms False show ?thesis using create_fn_err [of s f now] by auto
    next
      case (CallPutSource now x)
      with assms False show ?thesis using put_source_err [of s x now] by auto
    next
      case (CallCreateBuild now b)
      with assms False show ?thesis using create_build_err [of s b now] by auto
    qed (use assms False in \<open>simp_all add: update_app_err delete_app_err update_fn_err delete_fn_err\<close>)
    with assms False show ?thesis by (auto simp: spec_call_def)
  qed
  then show "inv (snd (exec_call S c s))"
    and "abs (snd (exec_call S c s)) = snd (spec_call c (abs s))"
    and "is_ok (fst (exec_call S c s)) = fst (spec_call c (abs s))"
    and "\<not> accepts c (abs s) \<Longrightarrow> snd (exec_call S c s) = s"
    by blast+
qed

lemma run_refines:
  assumes "inv s"
  shows "inv (snd (run_calls (exec_call S) cs s)) \<and>
    abs (snd (run_calls (exec_call S) cs s)) = snd (run_calls spec_call cs (abs s)) \<and>
    map is_ok (fst (run_calls (exec_call S) cs s)) = fst (run_calls spec_call cs (abs s))"
  using assms
proof (induction cs arbitrary: s)
  case (Cons c cs)
  show ?case
    using Cons.IH [OF call_refines(1) [OF Cons.prems, of c]] call_refines(2,3) [OF Cons.prems, of c]
    by (simp add: case_prod_unfold)
qed simp

end

end
