(* ===== verification/Spinapp.thy ===== *)
theory Spinapp
  imports Kube Store
begin

text \<open>
  The SpinApp client, \<^verbatim>\<open>internal/spinapp/spinapp.go\<close>: the object that \<^verbatim>\<open>Apply\<close> sends, the
  status that \<^verbatim>\<open>Get\<close> reads back, and \<^verbatim>\<open>Delete\<close>. The client is its namespace.
  \<^verbatim>\<open>spinapp.Variable\<close> and \<^verbatim>\<open>spinapp.Resources\<close> are the records of \<open>Store\<close>.
\<close>

section \<open>Constants\<close>

definition spinapps :: string where "spinapps = ''spinapps''"
definition kind_SpinApp :: string where "kind_SpinApp = ''SpinApp''"
definition spin_apiVersion :: string where "spin_apiVersion = ''core.spinkube.dev/v1alpha1''"
definition defaultExecutor :: string where "defaultExecutor = ''containerd-shim-spin''"
definition labelManagedBy :: string where "labelManagedBy = ''app.kubernetes.io/managed-by''"
definition labelManagedByVal :: string where "labelManagedByVal = ''spinup''"
definition labelAppName :: string where "labelAppName = ''spinup.emdzej.pl/application''"
definition labelApplicationID :: string where
  "labelApplicationID = ''spinup.emdzej.pl/application-id''"
definition fieldManager :: string where "fieldManager = ''spinup-control-plane''"
definition annotationTenantID :: string where "annotationTenantID = ''spinup.emdzej.pl/tenant''"
definition annotationEmittedBy :: string where
  "annotationEmittedBy = ''spinup.emdzej.pl/emitted-by''"
definition annotationEmittedByVal :: string where "annotationEmittedByVal = ''control-plane''"

lemmas spin_const_defs = spinapps_def kind_SpinApp_def spin_apiVersion_def defaultExecutor_def
  labelManagedBy_def labelManagedByVal_def labelAppName_def labelApplicationID_def
  fieldManager_def annotationTenantID_def annotationEmittedBy_def annotationEmittedByVal_def

section \<open>Desired and observed state\<close>

record spin_spec =
  sp_Name :: string
  sp_ApplicationID :: string
  sp_TenantID :: string
  sp_Image :: string
  sp_Replicas :: int
  sp_Executor :: string
  sp_ImagePullSecrets :: "string list"
  sp_Variables :: "variable list"
  sp_Resources :: resources

record spin_status =
  ss_Name :: string
  ss_Namespace :: string
  ss_Image :: string
  ss_Replicas :: int
  ss_Ready :: bool
  ss_ObservedReplicas :: int
  ss_UpdatedReplicas :: int
  ss_Progressing :: bool
  ss_Message :: string

section \<open>Apply\<close>

definition set_field :: "string \<Rightarrow> string \<Rightarrow> json smap" where
  "set_field k v = (if v = [] then [] else [(k, JStr v)])"

definition resourceRequirements :: "resources \<Rightarrow> json option" where
  "resourceRequirements r =
     (let req = set_field ''cpu'' (CPURequest r) @ set_field ''memory'' (MemoryRequest r);
          lim = set_field ''cpu'' (CPULimit r) @ set_field ''memory'' (MemoryLimit r)
      in if req = [] \<and> lim = [] then None
         else Some (JObj ((if req = [] then [] else [(''requests'', JObj req)]) @
                          (if lim = [] then [] else [(''limits'', JObj lim)]))))"

definition spin_spec_object :: "spin_spec \<Rightarrow> json" where
  "spin_spec_object s =
     JObj ([(''image'', JStr (sp_Image s)), (''executor'', JStr (sp_Executor s)),
            (''replicas'', JInt (sp_Replicas s))] @
           (if sp_Variables s = [] then []
            else [(''variables'', JArr (map (\<lambda>v. JObj [(''name'', JStr (var_Name v)),
                                                   (''value'', JStr (var_Value v))]) (sp_Variables s)))]) @
           (case resourceRequirements (sp_Resources s) of
              None \<Rightarrow> [] | Some res \<Rightarrow> [(''resources'', res)]) @
           (if sp_ImagePullSecrets s = [] then []
            else [(''imagePullSecrets'',
                   JArr (map (\<lambda>n. JObj [(''name'', JStr n)]) (sp_ImagePullSecrets s)))]))"

definition spin_object :: "string \<Rightarrow> spin_spec \<Rightarrow> json" where
  "spin_object ns s =
     JObj
       [(''apiVersion'', JStr spin_apiVersion),
        (''kind'', JStr kind_SpinApp),
        (''metadata'', JObj
          [(''name'', JStr (sp_Name s)),
           (''namespace'', JStr ns),
           (''labels'', JObj
             [(labelManagedBy, JStr labelManagedByVal),
              (labelAppName, JStr (sp_Name s)),
              (labelApplicationID, JStr (sp_ApplicationID s))]),
           (''annotations'', JObj
             [(annotationTenantID, JStr (sp_TenantID s)),
              (annotationEmittedBy, JStr annotationEmittedByVal)])]),
        (''spec'', spin_spec_object s)]"

section \<open>Status\<close>

text \<open>The message of the last condition of type \<^verbatim>\<open>Ready\<close> that has one.\<close>

definition condition_string :: "json \<Rightarrow> string \<Rightarrow> string" where
  "condition_string c k = (case json_field c k of Some (JStr s) \<Rightarrow> s | _ \<Rightarrow> [])"

definition ready_message :: "string \<Rightarrow> json list \<Rightarrow> string" where
  "ready_message m conds =
     fold (\<lambda>c m. if condition_string c ''type'' = ''Ready'' \<and> condition_string c ''message'' \<noteq> []
                then condition_string c ''message'' else m) conds m"

definition statusFrom :: "'k kube \<Rightarrow> json \<Rightarrow> spin_status" where
  "statusFrom K u =
     (let img = (case ka_NestedString K u [''spec'', ''image''] of None \<Rightarrow> [] | Some s \<Rightarrow> s);
          repl = (case ka_NestedInt64 K u [''spec'', ''replicas''] of
                    None \<Rightarrow> 0 | Some n \<Rightarrow> to_int32 n);
          obs = (case ka_NestedInt64 K u [''status'', ''readyReplicas''] of
                   None \<Rightarrow> None | Some n \<Rightarrow> Some (to_int32 n));
          msg = (case ka_NestedSlice K u [''status'', ''conditions''] of
                   None \<Rightarrow> [] | Some conds \<Rightarrow> ready_message [] conds)
      in \<lparr>ss_Name = ka_GetName K u, ss_Namespace = ka_GetNamespace K u, ss_Image = img,
          ss_Replicas = repl,
          ss_Ready = (case obs of None \<Rightarrow> False | Some n \<Rightarrow> n \<ge> repl \<and> repl > 0),
          ss_ObservedReplicas = (case obs of None \<Rightarrow> 0 | Some n \<Rightarrow> n),
          ss_UpdatedReplicas = 0, ss_Progressing = False, ss_Message = msg\<rparr>)"

section \<open>Client\<close>

definition spin_Apply ::
  "'k kube \<Rightarrow> string \<Rightarrow> spin_spec \<Rightarrow> 'k \<Rightarrow> (string + spin_status) \<times> 'k" where
  "spin_Apply K ns s0 k =
     (let s = (if sp_Executor s0 = [] then s0\<lparr>sp_Executor := defaultExecutor\<rparr> else s0)
      in case ka_Patch K spinapps ns (sp_Name s) fieldManager (spin_object ns s) k of
           (Inl err, k') \<Rightarrow>
             (Inl ((if IsNotFound err
                    then ''SpinApp CRD not installed on this cluster (install SpinKube first): ''
                    else ''apply spinapp: '') @ kerror_text err), k')
         | (Inr applied, k') \<Rightarrow> (Inr (statusFrom K applied), k'))"

text \<open>
  The Deployment of the same name refines the status. \<^verbatim>\<open>kube\<close> is always set when the client is
  built by \<^verbatim>\<open>main\<close>. A missing SpinApp is \<^const>\<open>None\<close>.
\<close>

definition refine_status :: "deployment \<Rightarrow> spin_status \<Rightarrow> spin_status" where
  "refine_status dep s =
     (let desired = dep_Replicas dep;
          progressing = (dep_UpdatedReplicas dep < desired \<or> dep_AvailableReplicas dep < desired \<or>
                         dep_ObservedGeneration dep < dep_Generation dep)
      in s\<lparr>ss_UpdatedReplicas := dep_UpdatedReplicas dep, ss_Progressing := progressing,
           ss_Ready := (\<not> progressing \<and> desired > 0 \<and> dep_AvailableReplicas dep \<ge> desired)\<rparr>)"

definition spin_Get :: "'k kube \<Rightarrow> string \<Rightarrow> string \<Rightarrow> 'k \<Rightarrow> kube_error + spin_status option" where
  "spin_Get K ns name k =
     (case ka_Get K spinapps ns name k of
        Inl err \<Rightarrow> if IsNotFound err then Inr None else Inl err
      | Inr obj \<Rightarrow>
          (let s = statusFrom K obj
           in case ka_GetDeployment K ns name k of
                Inl _ \<Rightarrow> Inr (Some s)
              | Inr dep \<Rightarrow> Inr (Some (refine_status dep s))))"

definition spin_Delete :: "'k kube \<Rightarrow> string \<Rightarrow> string \<Rightarrow> 'k \<Rightarrow> (kube_error + unit) \<times> 'k" where
  "spin_Delete K ns name k =
     (case ka_Delete K spinapps ns name k of
        (Inl err, k') \<Rightarrow> if IsNotFound err then (Inr (), k') else (Inl err, k')
      | (Inr _, k') \<Rightarrow> (Inr (), k'))"

end
