(* ===== verification/Istio.thy ===== *)
theory Istio
  imports Spinapp
begin

text \<open>
  The VirtualService client, \<^verbatim>\<open>internal/istio/virtualservice.go\<close>. The labels and the field
  manager have the values of the SpinApp client's constants, which this package repeats.
\<close>

definition virtualservices :: string where "virtualservices = ''virtualservices''"
definition kind_VirtualService :: string where "kind_VirtualService = ''VirtualService''"
definition istio_apiVersion :: string where "istio_apiVersion = ''networking.istio.io/v1alpha3''"

lemmas istio_const_defs = virtualservices_def kind_VirtualService_def istio_apiVersion_def

lemma resources_distinct [simp]: "virtualservices \<noteq> spinapps" "spinapps \<noteq> virtualservices"
  by (simp_all add: virtualservices_def spinapps_def)

record vs_spec =
  vs_Name :: string
  vs_ApplicationID :: string
  vs_Host :: string
  vs_Gateway :: string
  vs_DestinationHost :: string
  vs_DestinationPort :: int

definition vs_object :: "string \<Rightarrow> vs_spec \<Rightarrow> json" where
  "vs_object ns s =
     JObj
       [(''apiVersion'', JStr istio_apiVersion),
        (''kind'', JStr kind_VirtualService),
        (''metadata'', JObj
          [(''name'', JStr (vs_Name s)),
           (''namespace'', JStr ns),
           (''labels'', JObj
             [(labelManagedBy, JStr labelManagedByVal),
              (labelAppName, JStr (vs_Name s)),
              (labelApplicationID, JStr (vs_ApplicationID s))]),
           (''annotations'', JObj [(annotationEmittedBy, JStr annotationEmittedByVal)])]),
        (''spec'', JObj
          [(''hosts'', JArr [JStr (vs_Host s)]),
           (''gateways'', JArr [JStr (vs_Gateway s)]),
           (''http'', JArr
             [JObj [(''route'', JArr
               [JObj [(''destination'', JObj
                 [(''host'', JStr (vs_DestinationHost s)),
                  (''port'', JObj [(''number'', JInt (vs_DestinationPort s))])])]])]])])]"

definition vs_Apply :: "'k kube \<Rightarrow> string \<Rightarrow> vs_spec \<Rightarrow> 'k \<Rightarrow> (string + unit) \<times> 'k" where
  "vs_Apply K ns s k =
     (case ka_Patch K virtualservices ns (vs_Name s) fieldManager (vs_object ns s) k of
        (Inl err, k') \<Rightarrow> (Inl (''apply virtualservice: '' @ kerror_text err), k')
      | (Inr _, k') \<Rightarrow> (Inr (), k'))"

definition vs_Delete :: "'k kube \<Rightarrow> string \<Rightarrow> string \<Rightarrow> 'k \<Rightarrow> (kube_error + unit) \<times> 'k" where
  "vs_Delete K ns name k =
     (case ka_Delete K virtualservices ns name k of
        (Inl err, k') \<Rightarrow> if IsNotFound err then (Inr (), k') else (Inl err, k')
      | (Inr _, k') \<Rightarrow> (Inr (), k'))"

end
