(* ===== verification/Deploy.thy ===== *)
theory Deploy
  imports Istio
begin

text \<open>
  Publishing an application, \<^verbatim>\<open>internal/deploy/deploy.go\<close>: \<^verbatim>\<open>Deploy\<close> applies the SpinApp and,
  with public ingress configured, its VirtualService; \<^verbatim>\<open>Undeploy\<close> deletes both.
\<close>

section \<open>The deployer\<close>

text \<open>\<^verbatim>\<open>spin_ns\<close> is the SpinApp client and \<^verbatim>\<open>vs_ns\<close> the VirtualService client, nil or not.\<close>

record deployer =
  dp_spin_ns :: string
  dp_vs_ns :: "string option"
  dp_pullSecrets :: "string list"
  dp_publicDomain :: string
  dp_publicGateway :: string
  dp_resourcePolicy :: resource_policy

record deploy_request =
  dr_App :: application
  dr_Image :: string
  dr_Replicas :: int

definition toSpinappVariables :: "variable list \<Rightarrow> variable list" where
  "toSpinappVariables vs = map (\<lambda>v. \<lparr>var_Name = var_Name v, var_Value = var_Value v\<rparr>) vs"

definition wanted_replicas :: "deploy_request \<Rightarrow> int" where
  "wanted_replicas req =
     (let r1 = dr_Replicas req;
          r2 = (if r1 \<le> 0 then a_Replicas (dr_App req) else r1)
      in if r2 \<le> 0 then 1 else r2)"

definition clean_resources :: "'q quantity_ops \<Rightarrow> resource_policy \<Rightarrow> resources \<Rightarrow> resources" where
  "clean_resources Q p r =
     (case Apply Q p \<lparr>CPURequest = CPURequest r, CPULimit = CPULimit r,
                      MemoryRequest = MemoryRequest r, MemoryLimit = MemoryLimit r\<rparr> of
        Inr clean \<Rightarrow> clean
      | Inl err \<Rightarrow> \<lparr>CPURequest = Request (CPU p), CPULimit = Limit (CPU p),
                   MemoryRequest = Request (Mem p), MemoryLimit = Limit (Mem p)\<rparr>)"

definition deploy_spec :: "'q quantity_ops \<Rightarrow> deployer \<Rightarrow> deploy_request \<Rightarrow> spin_spec" where
  "deploy_spec Q d req =
     (let app = dr_App req; clean = clean_resources Q (dp_resourcePolicy d) (a_Resources app)
      in \<lparr>sp_Name = a_Name app, sp_ApplicationID = a_ID app, sp_TenantID = a_TenantID app,
          sp_Image = dr_Image req, sp_Replicas = wanted_replicas req, sp_Executor = [],
          sp_ImagePullSecrets = dp_pullSecrets d,
          sp_Variables = toSpinappVariables (a_Variables app),
          sp_Resources = \<lparr>CPURequest = CPURequest clean, CPULimit = CPULimit clean,
                          MemoryRequest = MemoryRequest clean, MemoryLimit = MemoryLimit clean\<rparr>\<rparr>)"

definition ingress_spec :: "deployer \<Rightarrow> deploy_request \<Rightarrow> vs_spec" where
  "ingress_spec d req =
     (let app = dr_App req
      in \<lparr>vs_Name = a_Name app, vs_ApplicationID = a_ID app,
          vs_Host = a_Name app @ ''.'' @ dp_publicDomain d, vs_Gateway = dp_publicGateway d,
          vs_DestinationHost = a_Name app, vs_DestinationPort = 80\<rparr>)"

definition deploy_Deploy ::
  "'q quantity_ops \<Rightarrow> 'k kube \<Rightarrow> deployer \<Rightarrow> deploy_request \<Rightarrow> 'k \<Rightarrow> (string + spin_status) \<times> 'k" where
  "deploy_Deploy Q K d req k =
     (case spin_Apply K (dp_spin_ns d) (deploy_spec Q d req) k of
        (Inl err, k1) \<Rightarrow> (Inl err, k1)
      | (Inr st, k1) \<Rightarrow>
          (case dp_vs_ns d of
             Some ns \<Rightarrow>
               if dp_publicDomain d \<noteq> [] \<and> dp_publicGateway d \<noteq> []
               then (Inr st, snd (vs_Apply K ns (ingress_spec d req) k1))
               else (Inr st, k1)
           | None \<Rightarrow> (Inr st, k1)))"

definition deploy_Undeploy :: "'k kube \<Rightarrow> deployer \<Rightarrow> string \<Rightarrow> 'k \<Rightarrow> (string + unit) \<times> 'k" where
  "deploy_Undeploy K d appName k =
     (case spin_Delete K (dp_spin_ns d) appName k of
        (Inl err, k1) \<Rightarrow> (Inl (kerror_text err), k1)
      | (Inr _, k1) \<Rightarrow>
          (case dp_vs_ns d of
             Some ns \<Rightarrow> (Inr (), snd (vs_Delete K ns appName k1))
           | None \<Rightarrow> (Inr (), k1)))"

section \<open>What a deployment asks for\<close>

lemma wanted_replicas_pos: "1 \<le> wanted_replicas req"
  by (simp add: wanted_replicas_def Let_def)

lemma copy_resources [simp]:
  "\<lparr>CPURequest = CPURequest r, CPULimit = CPULimit r, MemoryRequest = MemoryRequest r,
     MemoryLimit = MemoryLimit r\<rparr> = r"
  by (cases r) simp

lemma clean_resources_cases:
  "clean_resources Q p r = (case Apply Q p r of Inr clean \<Rightarrow> clean | Inl _ \<Rightarrow> platform_resources p)"
  by (simp add: clean_resources_def platform_resources_def split: sum.splits)

text \<open>
  The resources of a deployment always satisfy the policy: the caps in \<^verbatim>\<open>max\<close> mode, the
  platform's values in \<^verbatim>\<open>forced\<close> mode and in any mode that is not known.
\<close>

lemma clean_resources_policy:
  assumes "quantity_laws Q" "caps_parse Q p"
  shows "Mode p = ModeMax \<Longrightarrow> resources_within Q p (clean_resources Q p r)"
    and "Mode p = ModeForced \<Longrightarrow> clean_resources Q p r = platform_resources p"
    and "\<not> known_mode (Mode p) \<Longrightarrow> clean_resources Q p r = platform_resources p"
    and "Mode p = '''' \<or> Mode p = ModeOpen \<Longrightarrow> clean_resources Q p r = r"
  using platform_resources_within [OF assms]
  by (auto simp: clean_resources_cases Apply_max_iff Apply_unknown split: sum.splits)


section \<open>Properties\<close>

text \<open>
  C22: The resources with which an application is deployed obey the platform's policy whatever
  the application's row holds: within the caps in \<^verbatim>\<open>max\<close> mode, the row's own values in \<^verbatim>\<open>open\<close>
  mode, and the platform's values in every other mode.
\<close>

theorem deploy_respects_policy:
  assumes "quantity_laws Q" "caps_parse Q (dp_resourcePolicy d)"
  shows "let p = dp_resourcePolicy d; r = sp_Resources (deploy_spec Q d req)
         in if Mode p = ModeMax then resources_within Q p r
            else if Mode p \<in> {'''', ModeOpen} then r = a_Resources (dr_App req)
            else r = platform_resources p"
  using clean_resources_policy [OF assms, of "a_Resources (dr_App req)"]
  by (auto simp: deploy_spec_def Let_def known_mode_def)

definition example_app :: application where
  "example_app =
     \<lparr>a_ID = ''a1'', a_TenantID = ''default'', a_Name = ''hello'', a_Language = ''go'',
      a_Runtime = RuntimeSpinKube, a_Description = [], a_Replicas = 3, a_Variables = [],
      a_Resources = example_request, a_CreatedAt = 0, a_UpdatedAt = 0\<rparr>"

definition example_deployer :: deployer where
  "example_deployer =
     \<lparr>dp_spin_ns = ''fns'', dp_vs_ns = Some ''fns'', dp_pullSecrets = [],
      dp_publicDomain = ''ex.org'', dp_publicGateway = ''gw'',
      dp_resourcePolicy = example_policy\<rparr>"

definition example_deploy :: deploy_request where
  "example_deploy = \<lparr>dr_App = example_app, dr_Image = ''reg/hello'', dr_Replicas = 0\<rparr>"

lemma example_caps: "caps_parse digit_quantity example_policy"
  by (simp add: caps_parse_def example_policy_def digit_quantity_def)

theorem deploy_respects_policy_witness:
  "let p = dp_resourcePolicy example_deployer;
       r = sp_Resources (deploy_spec digit_quantity example_deployer example_deploy)
   in if Mode p = ModeMax then resources_within digit_quantity p r
      else if Mode p \<in> {'''', ModeOpen} then r = a_Resources (dr_App example_deploy)
      else r = platform_resources p"
  by (rule deploy_respects_policy [OF digit_quantity_laws])
    (simp add: example_deployer_def example_caps)

lemma spin_object_paths:
  "json_path (spin_object ns s) [''spec'', ''image''] = Some (JStr (sp_Image s))"
  "json_path (spin_object ns s) [''spec'', ''replicas''] = Some (JInt (sp_Replicas s))"
  "json_path (spin_object ns s) [''metadata'', ''labels'', labelApplicationID] =
     Some (JStr (sp_ApplicationID s))"
  "json_path (spin_object ns s) [''metadata'', ''annotations'', annotationTenantID] =
     Some (JStr (sp_TenantID s))"
  by (simp_all add: spin_object_def spin_spec_object_def spin_const_defs)

lemma sent_fieldsD:
  "sent_fields sent got \<Longrightarrow> json_path sent p = Some (JStr s) \<Longrightarrow> json_path got p = Some (JStr s)"
  "sent_fields sent got \<Longrightarrow> json_path sent p = Some (JInt n) \<Longrightarrow> json_path got p = Some (JInt n)"
  by (fastforce simp: sent_fields_def)+

lemma spin_Apply_ok:
  assumes "apply_laws K" "spin_Apply K ns s k = (Inr st, k')"
  obtains obj where "ka_Get K spinapps ns (sp_Name s) k' = Inr obj" "st = statusFrom K obj"
    "json_path obj [''spec'', ''image''] = Some (JStr (sp_Image s))"
    "json_path obj [''spec'', ''replicas''] = Some (JInt (sp_Replicas s))"
    "json_path obj [''metadata'', ''labels'', labelApplicationID] = Some (JStr (sp_ApplicationID s))"
    "json_path obj [''metadata'', ''annotations'', annotationTenantID] = Some (JStr (sp_TenantID s))"
    "same_objects_but K spinapps ns (sp_Name s) k k'"
proof -
  define s' where "s' = (if sp_Executor s = [] then s\<lparr>sp_Executor := defaultExecutor\<rparr> else s)"
  have same: "sp_Name s' = sp_Name s" "sp_Image s' = sp_Image s" "sp_Replicas s' = sp_Replicas s"
    "sp_ApplicationID s' = sp_ApplicationID s" "sp_TenantID s' = sp_TenantID s"
    by (simp_all add: s'_def)
  obtain obj where p: "ka_Patch K spinapps ns (sp_Name s') fieldManager (spin_object ns s') k = (Inr obj, k')"
      and st: "st = statusFrom K obj"
    using assms(2) by (auto simp: spin_Apply_def s'_def Let_def split: prod.splits sum.splits)
  from apply_laws_patch(1) [OF assms(1) p]
  have sent: "sent_fields (spin_object ns s') obj"
    and get: "ka_Get K spinapps ns (sp_Name s) k' = Inr obj"
    and frame: "same_objects_but K spinapps ns (sp_Name s) k k'"
    by (simp_all add: same)
  note paths = spin_object_paths [of ns s', unfolded same]
  show thesis
    by (rule that [OF get st sent_fieldsD(1) [OF sent paths(1)] sent_fieldsD(2) [OF sent paths(2)]
        sent_fieldsD(1) [OF sent paths(3)] sent_fieldsD(1) [OF sent paths(4)] frame])
qed

lemma vs_Apply_frame:
  assumes "apply_laws K"
  shows "same_objects_but K virtualservices ns (vs_Name s) k (snd (vs_Apply K ns s k))"
proof -
  obtain r k' where r: "ka_Patch K virtualservices ns (vs_Name s) fieldManager (vs_object ns s) k = (r, k')"
    by fastforce
  with apply_laws_patch [OF assms] show ?thesis
    by (cases r) (auto simp: vs_Apply_def same_objects_def same_objects_but_def)
qed

text \<open>Only the two objects of the application's name change.\<close>

definition only_app_objects :: "'k kube \<Rightarrow> string \<Rightarrow> 'k \<Rightarrow> 'k \<Rightarrow> bool" where
  "only_app_objects K name k k' \<longleftrightarrow>
     (\<forall>g ns n. n \<noteq> name \<or> g \<notin> {spinapps, virtualservices} \<longrightarrow>
        ka_Get K g ns n k' = ka_Get K g ns n k)"

lemma only_app_objectsI:
  "same_objects_but K g ns n k k1 \<Longrightarrow> g \<in> {spinapps, virtualservices} \<Longrightarrow>
   same_objects_but K g' ns' n k1 k2 \<Longrightarrow> g' \<in> {spinapps, virtualservices} \<Longrightarrow>
   only_app_objects K n k k2"
  unfolding same_objects_but_def only_app_objects_def by auto

text \<open>
  A successful \<^verbatim>\<open>Deploy\<close> leaves the SpinApp of the application's name in the cluster with
  the requested image, the requested number of replicas (the row's, or one, when the request has
  none), and the application's id and tenant on it; the status returned is read off that object;
  no object but the SpinApp and the VirtualService of that name changes.
\<close>

lemma deploy_publishes:
  assumes "accessor_laws K" "apply_laws K" "deploy_Deploy Q K d req k = (Inr st, k')"
  shows "\<exists>obj. ka_Get K spinapps (dp_spin_ns d) (a_Name (dr_App req)) k' = Inr obj \<and>
    ka_NestedString K obj [''spec'', ''image''] = Some (dr_Image req) \<and>
    ka_NestedInt64 K obj [''spec'', ''replicas''] = Some (wanted_replicas req) \<and>
    ka_NestedString K obj [''metadata'', ''labels'', labelApplicationID] = Some (a_ID (dr_App req)) \<and>
    ka_NestedString K obj [''metadata'', ''annotations'', annotationTenantID] =
      Some (a_TenantID (dr_App req)) \<and>
    st = statusFrom K obj \<and> only_app_objects K (a_Name (dr_App req)) k k'"
proof -
  define s where "s = deploy_spec Q d req"
  have s: "sp_Name s = a_Name (dr_App req)" "sp_Image s = dr_Image req"
    "sp_Replicas s = wanted_replicas req" "sp_ApplicationID s = a_ID (dr_App req)"
    "sp_TenantID s = a_TenantID (dr_App req)"
    by (simp_all add: s_def deploy_spec_def Let_def)
  obtain k1 where ap: "spin_Apply K (dp_spin_ns d) s k = (Inr st, k1)"
    and k': "k' = k1 \<or> (\<exists>ns. k' = snd (vs_Apply K ns (ingress_spec d req) k1))"
    using assms(3)
    by (auto simp: deploy_Deploy_def s_def split: prod.splits sum.splits option.splits if_splits)
  have frame: "\<exists>ns. same_objects_but K virtualservices ns (a_Name (dr_App req)) k1 k'"
    using k' vs_Apply_frame [OF assms(2), of _ "ingress_spec d req" k1]
    by (auto simp: ingress_spec_def Let_def)
  then obtain ns where frame: "same_objects_but K virtualservices ns (a_Name (dr_App req)) k1 k'" ..
  show ?thesis
  proof (rule spin_Apply_ok [OF assms(2) ap], unfold s)
    fix obj
    assume obj: "ka_Get K spinapps (dp_spin_ns d) (a_Name (dr_App req)) k1 = Inr obj"
      "st = statusFrom K obj"
      "json_path obj [''spec'', ''image''] = Some (JStr (dr_Image req))"
      "json_path obj [''spec'', ''replicas''] = Some (JInt (wanted_replicas req))"
      "json_path obj [''metadata'', ''labels'', labelApplicationID] = Some (JStr (a_ID (dr_App req)))"
      "json_path obj [''metadata'', ''annotations'', annotationTenantID] =
        Some (JStr (a_TenantID (dr_App req)))"
      "same_objects_but K spinapps (dp_spin_ns d) (a_Name (dr_App req)) k k1"
    have "ka_Get K spinapps (dp_spin_ns d) (a_Name (dr_App req)) k' = Inr obj"
      using frame obj(1) by (simp add: same_objects_but_def)
    moreover have "only_app_objects K (a_Name (dr_App req)) k k'"
      by (rule only_app_objectsI [OF obj(7) _ frame]) simp_all
    ultimately show ?thesis
      using assms(1) obj(2-6) by (intro exI [of _ obj]) (simp add: accessor_laws_def)
  qed
qed


lemma example_deploy_ok:
  "\<exists>st k'. deploy_Deploy digit_quantity mem_kube example_deployer example_deploy empty_cluster =
     (Inr st, k')"
  by (simp add: deploy_Deploy_def spin_Apply_def mem_kube_def Let_def split: option.split)

lemma vs_Delete_frame:
  assumes "apply_laws K"
  shows "same_objects_but K virtualservices ns n k (snd (vs_Delete K ns n k))"
proof -
  obtain r k' where r: "ka_Delete K virtualservices ns n k = (r, k')"
    by fastforce
  with apply_laws_delete [OF assms] show ?thesis
    by (cases r) (auto simp: vs_Delete_def same_objects_def same_objects_but_def)
qed

lemma spin_Delete_cases:
  assumes "apply_laws K" "spin_Delete K ns n k = (r, k')"
  shows "case r of Inr _ \<Rightarrow> object_gone K spinapps ns n k' \<and> same_objects_but K spinapps ns n k k'
    | Inl e \<Rightarrow> same_objects K k k'"
proof -
  obtain x k1 where x: "ka_Delete K spinapps ns n k = (x, k1)" by fastforce
  show ?thesis
  proof (cases x)
    case (Inl e)
    have laws: "same_objects K k k1" "IsNotFound e \<longrightarrow> object_gone K spinapps ns n k1"
      using apply_laws_delete(2) [OF assms(1) x [unfolded Inl]]
      by (auto simp: same_objects_gone)
    then have "same_objects_but K spinapps ns n k k1"
      by (simp add: same_objects_def same_objects_but_def)
    with laws assms(2) x Inl show ?thesis
      by (auto simp: spin_Delete_def split: if_splits)
  next
    case (Inr u)
    with apply_laws_delete(1) [OF assms(1) x [unfolded Inr]] assms(2) x show ?thesis
      by (auto simp: spin_Delete_def)
  qed
qed

text \<open>
  \<^verbatim>\<open>Undeploy\<close> fails only when the SpinApp could not be deleted, and then no object has
  changed; otherwise the SpinApp is gone (it may have been absent before) and nothing but the two
  objects of that name is different.
\<close>

lemma undeploy_spec:
  assumes "apply_laws K"
  shows "case deploy_Undeploy K d name k of
      (Inr _, k') \<Rightarrow> object_gone K spinapps (dp_spin_ns d) name k' \<and> only_app_objects K name k k'
    | (Inl err, k') \<Rightarrow> same_objects K k k'"
proof -
  obtain r k1 where del: "spin_Delete K (dp_spin_ns d) name k = (r, k1)" by fastforce
  note cases = spin_Delete_cases [OF assms del]
  show ?thesis
  proof (cases r)
    case (Inl e)
    with del cases show ?thesis by (simp add: deploy_Undeploy_def)
  next
    case (Inr u)
    with cases have gone: "object_gone K spinapps (dp_spin_ns d) name k1"
      and f1: "same_objects_but K spinapps (dp_spin_ns d) name k k1" by simp_all
    define k2 where "k2 = (case dp_vs_ns d of None \<Rightarrow> k1 | Some ns \<Rightarrow> snd (vs_Delete K ns name k1))"
    have "\<exists>ns. same_objects_but K virtualservices ns name k1 k2"
      using vs_Delete_frame [OF assms] by (auto simp: k2_def split: option.split)
    then obtain ns where f2: "same_objects_but K virtualservices ns name k1 k2" ..
    have "object_gone K spinapps (dp_spin_ns d) name k2"
      using gone f2 by (simp add: object_gone_def same_objects_but_def)
    moreover have "only_app_objects K name k k2"
      by (rule only_app_objectsI [OF f1 _ f2]) simp_all
    moreover have "deploy_Undeploy K d name k = (Inr (), k2)"
      using del Inr by (simp add: deploy_Undeploy_def k2_def split: option.split)
    ultimately show ?thesis by simp
  qed
qed

end
