(* ===== verification/Manifest.thy ===== *)
theory Manifest
  imports Go_Strings "HOL-Library.Multiset"
begin

text \<open>
  The synthesized \<^verbatim>\<open>spin.toml\<close>, \<^verbatim>\<open>internal/builder/manifest.go\<close>, and a reader for the part of
  it that carries user input, which shows that quoting keeps every route in its place. The
  functions of an application have different names (the schema says so), so that it does not
  matter that \<^verbatim>\<open>sort.Slice\<close> is not stable.
\<close>

section \<open>Writing\<close>

record function_spec =
  fs_Name :: string
  fs_Route :: string

definition println :: "string \<Rightarrow> string" where "println s = s @ [CHR 0x0A]"

text \<open>A string literal of the source that holds quote marks around \<^term>\<open>s\<close>.\<close>

definition quoted :: "string \<Rightarrow> string" where "quoted s = [quote_mark] @ s @ [quote_mark]"

definition writeComponent :: "string \<Rightarrow> string \<Rightarrow> string" where
  "writeComponent language name =
     (let workdir = ''functions/'' @ name
      in println (''[component.'' @ name @ '']'') @
         (if language = ''go'' then
            println (''source = '' @ Quote (workdir @ ''/main.wasm'')) @
            println ''allowed_outbound_hosts = []'' @
            println (''[component.'' @ name @ ''.build]'') @
            println (''command = '' @ quoted ''go tool componentize-go build'') @
            println (''workdir = '' @ Quote workdir) @
            println (''watch = ['' @ quoted ''**/*.go'' @ '', '' @ quoted ''go.mod'' @ '']'')
          else if language = ''js'' \<or> language = ''ts'' then
            println (''source = '' @ Quote (workdir @ ''/dist/scaffold.wasm'')) @
            println (''exclude_files = ['' @ quoted ''**/node_modules'' @ '']'') @
            println (''[component.'' @ name @ ''.build]'') @
            println (''command = ['' @ quoted ''npm install'' @ '', '' @ quoted ''npm run build'' @ '']'') @
            println (''workdir = '' @ Quote workdir) @
            (if language = ''ts''
             then println (''watch = ['' @ quoted ''src/**/*.ts'' @ '', '' @ quoted ''package.json'' @ '']'')
             else println (''watch = ['' @ quoted ''src/**/*.js'' @ '', '' @ quoted ''package.json'' @ '']''))
          else if language = ''rust'' then
            println (''source = '' @ Quote (workdir @ ''/target/wasm32-wasip2/release/scaffold.wasm'')) @
            println ''allowed_outbound_hosts = []'' @
            println (''[component.'' @ name @ ''.build]'') @
            println (''command = '' @ quoted ''cargo build --target wasm32-wasip2 --release'') @
            println (''workdir = '' @ Quote workdir) @
            println (''watch = ['' @ quoted ''src/**/*.rs'' @ '', '' @ quoted ''Cargo.toml'' @ '']'')
          else println (''# unknown language '' @ Quote language)) @
         println [])"

definition write_trigger :: "function_spec \<Rightarrow> string" where
  "write_trigger f =
     println ''[[trigger.http]]'' @
     println (''route = '' @ Quote (fs_Route f)) @
     println (''component = '' @ Quote (fs_Name f)) @
     println []"

definition manifest_head :: "string \<Rightarrow> string" where
  "manifest_head appName =
     println ''spin_manifest_version = 2'' @
     println [] @
     println ''[application]'' @
     println (''name = '' @ Quote appName) @
     println (''version = '' @ quoted ''0.1.0'') @
     println []"

definition synthesizeSpinToml :: "string \<Rightarrow> string \<Rightarrow> function_spec list \<Rightarrow> string + string" where
  "synthesizeSpinToml language appName functions0 =
     (if functions0 = [] then Inl ''no functions''
      else let fns = sort_key fs_Name functions0
           in Inr (manifest_head appName @ concat (map write_trigger fns) @
                   concat (map (\<lambda>f. writeComponent language (fs_Name f)) fns)))"

section \<open>Reading\<close>

text \<open>Readers take what they expect off the front of the text.\<close>

definition expect :: "string \<Rightarrow> string \<Rightarrow> string option" where
  "expect p s = (if HasPrefix s p then Some (drop (length p) s) else None)"

definition read_trigger :: "string \<Rightarrow> ((string \<times> string) \<times> string) option" where
  "read_trigger s =
     Option.bind (expect (println ''[[trigger.http]]'' @ ''route = '') s) (\<lambda>s1.
     Option.bind (Unquote s1) (\<lambda>(route, s2).
     Option.bind (expect (println [] @ ''component = '') s2) (\<lambda>s3.
     Option.bind (Unquote s3) (\<lambda>(name, s4).
     Option.bind (expect (println [] @ println []) s4) (\<lambda>s5. Some ((route, name), s5))))))"

fun read_triggers :: "nat \<Rightarrow> string \<Rightarrow> (string \<times> string) list" where
  "read_triggers 0 s = []"
| "read_triggers (Suc fuel) s =
     (case read_trigger s of None \<Rightarrow> [] | Some (t, s') \<Rightarrow> t # read_triggers fuel s')"

text \<open>The application's name, and the route and component of every trigger in order.\<close>

definition read_manifest :: "string \<Rightarrow> (string \<times> (string \<times> string) list) option" where
  "read_manifest s =
     Option.bind (expect (println ''spin_manifest_version = 2'' @ println [] @
                          println ''[application]'' @ ''name = '') s) (\<lambda>s1.
     Option.bind (Unquote s1) (\<lambda>(appName, s2).
     Option.bind (expect (println [] @ println (''version = '' @ quoted ''0.1.0'') @ println []) s2) (\<lambda>s3.
       Some (appName, read_triggers (length s) s3))))"

lemma expect_append [simp]: "expect p (p @ s) = Some s"
  by (simp add: expect_def)

lemma expect_append_assoc [simp]: "expect (p @ q) (p @ q @ s) = Some s"
  using expect_append [of "p @ q" s] by simp

lemma read_trigger_write: "read_trigger (write_trigger f @ s) = Some ((fs_Route f, fs_Name f), s)"
proof -
  have "write_trigger f @ s =
    (println ''[[trigger.http]]'' @ ''route = '') @ Quote (fs_Route f) @
    (println [] @ ''component = '') @ Quote (fs_Name f) @ (println [] @ println []) @ s"
    by (simp add: write_trigger_def println_def)
  then show ?thesis
    by (simp only: read_trigger_def expect_append Unquote_Quote bind.simps prod.case)
qed

lemma read_triggers_write:
  "read_trigger rest = None \<Longrightarrow> length fs \<le> fuel \<Longrightarrow>
   read_triggers fuel (concat (map write_trigger fs) @ rest) = map (\<lambda>f. (fs_Route f, fs_Name f)) fs"
proof (induction fs arbitrary: fuel)
  case Nil
  then show ?case by (cases fuel) simp_all
next
  case (Cons f fs)
  then show ?case by (cases fuel) (simp_all add: read_trigger_write)
qed

lemma component_no_trigger: "read_trigger (concat (map (\<lambda>f. writeComponent l (fs_Name f)) fs)) = None"
  by (cases fs) (simp_all add: read_trigger_def expect_def println_def writeComponent_def Let_def)

lemma write_trigger_nonempty: "1 \<le> length (write_trigger f)"
  by (simp add: write_trigger_def println_def)

lemma length_triggers: "length fs \<le> length (concat (map write_trigger fs))"
proof (induction fs)
  case (Cons f fs)
  with write_trigger_nonempty [of f] show ?case by simp
qed simp


text \<open>
  C31: The manifest does not depend on the order in which the functions are listed: two listings
  of the same functions, whose names differ, give the same text.
\<close>

theorem manifest_deterministic:
  assumes "mset fs = mset gs" "distinct (map fs_Name fs)"
  shows "synthesizeSpinToml language appName fs = synthesizeSpinToml language appName gs"
proof -
  have "sort_key fs_Name fs = sort_key fs_Name gs"
    using assms by (intro sort_key_eq_sort_key) (auto simp: distinct_map)
  moreover have "fs = [] \<longleftrightarrow> gs = []" using assms(1) by auto
  ultimately show ?thesis by (simp add: synthesizeSpinToml_def)
qed

theorem manifest_deterministic_witness:
  "synthesizeSpinToml ''go'' ''hello''
     [\<lparr>fs_Name = ''b'', fs_Route = ''/b''\<rparr>, \<lparr>fs_Name = ''a'', fs_Route = ''/...''\<rparr>] =
   synthesizeSpinToml ''go'' ''hello''
     [\<lparr>fs_Name = ''a'', fs_Route = ''/...''\<rparr>, \<lparr>fs_Name = ''b'', fs_Route = ''/b''\<rparr>]"
  by (rule manifest_deterministic) simp_all

end
