(* ===== verification/Sqlite.thy ===== *)
theory Sqlite
  imports Store Go_Strings
begin

text \<open>
  The SQLite store, \<^verbatim>\<open>internal/store/sqlite.go\<close>: its four tables as lists of rows in
  insertion order, the schema's constraints, and one definition per method, each the effect of
  its SQL statement. A column that holds JSON holds the value that its
  decoding gives: the files of a source as \<open>json_files\<close> says; variables and resources are text
  already, from decoded request bodies and the configuration, so that theirs are what was encoded.

  \<^verbatim>\<open>PRAGMA foreign_keys\<close> is a property of a connection: \<^verbatim>\<open>foreign_keys\<close> records whether the
  connection that runs the statement has it on. \<^verbatim>\<open>openSQLite\<close> turns it on for the connection
  it uses; the last section shows what a connection without it would do. The store refines
  the contract of \<open>Store\<close> as long as the pragma is in force (\<open>sq\<close>).
\<close>

section \<open>Tables\<close>

record db =
  t_applications :: "application list"
  t_functions :: "func list"
  t_sources :: "source list"
  t_builds :: "build list"
  foreign_keys :: bool

definition empty_db :: db where
  "empty_db =
     \<lparr>t_applications = [], t_functions = [], t_sources = [], t_builds = [], foreign_keys = True\<rparr>"

section \<open>Opening\<close>

text \<open>
  \<^verbatim>\<open>openSQLite\<close>, over the driver's answers: \<^term>\<open>opn\<close>, \<^term>\<open>ping\<close> and the result of
  executing each statement (\<^const>\<open>None\<close> is success). An additive migration may fail with a
  duplicate column, and with nothing else.
\<close>

definition apostrophe :: char where "apostrophe = CHR 0x27"

definition migrations :: "string list" where
  "migrations =
     [''ALTER TABLE builds ADD COLUMN image_size_bytes INTEGER'',
      ''ALTER TABLE applications ADD COLUMN replicas INTEGER NOT NULL DEFAULT 1'',
      ''ALTER TABLE applications ADD COLUMN variables_json TEXT NOT NULL DEFAULT ''
        @ [apostrophe] @ ''[]'' @ [apostrophe],
      ''ALTER TABLE applications ADD COLUMN resources_json TEXT NOT NULL DEFAULT ''
        @ [apostrophe] @ ''{}'' @ [apostrophe]]"

fun migrate :: "(string \<Rightarrow> string option) \<Rightarrow> string list \<Rightarrow> string + unit" where
  "migrate exec [] = Inr ()"
| "migrate exec (stmt # stmts) =
     (case exec stmt of
        Some err \<Rightarrow>
          if Contains err ''duplicate column'' then migrate exec stmts
          else Inl (''migrate '' @ Quote stmt @ '': '' @ err)
      | None \<Rightarrow> migrate exec stmts)"

definition openSQLite ::
  "string option \<Rightarrow> string option \<Rightarrow> string \<Rightarrow> (string \<Rightarrow> string option) \<Rightarrow> db \<Rightarrow> string + db" where
  "openSQLite opn ping schema exec tables =
     (case opn of Some err \<Rightarrow> Inl (''open sqlite: '' @ err) | None \<Rightarrow>
      case ping of Some err \<Rightarrow> Inl (''ping sqlite: '' @ err) | None \<Rightarrow>
      case exec ''PRAGMA foreign_keys = ON'' of
        Some err \<Rightarrow> Inl (''enable foreign keys: '' @ err) | None \<Rightarrow>
      case exec schema of Some err \<Rightarrow> Inl (''apply sqlite schema: '' @ err) | None \<Rightarrow>
      case migrate exec migrations of Inl err \<Rightarrow> Inl err | Inr _ \<Rightarrow>
        Inr (tables\<lparr>foreign_keys := True\<rparr>))"

section \<open>Applications\<close>

definition sq_ListApplications :: "string \<Rightarrow> db \<Rightarrow> store_error + application list" where
  "sq_ListApplications tid d =
     Inr (sort_key a_Name (filter (\<lambda>a. a_TenantID a = tid) (t_applications d)))"

definition sq_GetApplication :: "string \<Rightarrow> string \<Rightarrow> db \<Rightarrow> store_error + application" where
  "sq_GetApplication tid i d =
     (case find (\<lambda>a. a_TenantID a = tid \<and> a_ID a = i) (t_applications d) of
        None \<Rightarrow> Inl ErrNotFound | Some a \<Rightarrow> Inr a)"

definition sq_GetApplicationByName :: "string \<Rightarrow> string \<Rightarrow> db \<Rightarrow> store_error + application" where
  "sq_GetApplicationByName tid nm d =
     (case find (\<lambda>a. a_TenantID a = tid \<and> a_Name a = nm) (t_applications d) of
        None \<Rightarrow> Inl ErrNotFound | Some a \<Rightarrow> Inr a)"

definition sq_CreateApplication :: "time \<Rightarrow> application \<Rightarrow> db writes" where
  "sq_CreateApplication now a0 d =
     (let a1 = (if is_zero_time (a_CreatedAt a0) then a0\<lparr>a_CreatedAt := now\<rparr> else a0);
          a2 = a1\<lparr>a_UpdatedAt := now\<rparr>;
          a3 = (if a_Runtime a2 = [] then a2\<lparr>a_Runtime := RuntimeSpinKube\<rparr> else a2);
          a = (if a_Replicas a3 \<le> 0 then a3\<lparr>a_Replicas := 1\<rparr> else a3)
      in if list_ex (\<lambda>b. a_ID b = a_ID a) (t_applications d)
         then (Inl (ErrStore ''UNIQUE constraint failed: applications.id''), d)
         else if list_ex (\<lambda>b. a_TenantID b = a_TenantID a \<and> a_Name b = a_Name a) (t_applications d)
         then (Inl (ErrStore ''UNIQUE constraint failed: applications.tenant_id, applications.name''), d)
         else (Inr (), d\<lparr>t_applications := t_applications d @ [a]\<rparr>))"

text \<open>\<^verbatim>\<open>UPDATE\<close> and \<^verbatim>\<open>RowsAffected\<close>: no matching row is \<^verbatim>\<open>ErrNotFound\<close>.\<close>

definition update_where :: "('a \<Rightarrow> bool) \<Rightarrow> ('a \<Rightarrow> 'a) \<Rightarrow> 'a list \<Rightarrow> 'a list" where
  "update_where P f rows = map (\<lambda>r. if P r then f r else r) rows"

definition affected :: "('a \<Rightarrow> bool) \<Rightarrow> 'a list \<Rightarrow> nat" where
  "affected P rows = length (filter P rows)"

definition sq_UpdateApplicationConfig ::
  "time \<Rightarrow> string \<Rightarrow> string \<Rightarrow> string \<Rightarrow> int \<Rightarrow> variable list \<Rightarrow> resources \<Rightarrow> db writes" where
  "sq_UpdateApplicationConfig now tid i desc replicas0 vars res d =
     (let replicas = (if replicas0 \<le> 0 then 1 else replicas0);
          P = (\<lambda>a. a_TenantID a = tid \<and> a_ID a = i);
          upd = (\<lambda>a. a\<lparr>a_Description := desc, a_Replicas := replicas, a_Variables := vars,
                       a_Resources := res, a_UpdatedAt := now\<rparr>)
      in if affected P (t_applications d) = 0 then (Inl ErrNotFound, d)
         else (Inr (), d\<lparr>t_applications := update_where P upd (t_applications d)\<rparr>))"

text \<open>
  Deleting function rows deletes their sources, and deleting application rows their functions
  and builds, when the connection enforces foreign keys (\<^verbatim>\<open>ON DELETE CASCADE\<close>).
\<close>

definition delete_functions :: "(func \<Rightarrow> bool) \<Rightarrow> db \<Rightarrow> db" where
  "delete_functions P d =
     d\<lparr>t_functions := filter (\<lambda>f. \<not> P f) (t_functions d),
       t_sources :=
         (if foreign_keys d
          then filter (\<lambda>s. \<not> list_ex (\<lambda>f. P f \<and> f_ID f = src_FunctionID s) (t_functions d)) (t_sources d)
          else t_sources d)\<rparr>"

definition delete_applications :: "(application \<Rightarrow> bool) \<Rightarrow> db \<Rightarrow> db" where
  "delete_applications P d =
     (let gone = (\<lambda>i. list_ex (\<lambda>a. P a \<and> a_ID a = i) (t_applications d));
          d1 = d\<lparr>t_applications := filter (\<lambda>a. \<not> P a) (t_applications d)\<rparr>
      in if foreign_keys d
         then (delete_functions (\<lambda>f. gone (f_ApplicationID f)) d1)
                \<lparr>t_builds := filter (\<lambda>b. \<not> gone (b_ApplicationID b)) (t_builds d)\<rparr>
         else d1)"

definition sq_DeleteApplication :: "string \<Rightarrow> string \<Rightarrow> db writes" where
  "sq_DeleteApplication tid i d =
     (let P = (\<lambda>a. a_TenantID a = tid \<and> a_ID a = i)
      in if affected P (t_applications d) = 0 then (Inl ErrNotFound, d)
         else (Inr (), delete_applications P d))"

section \<open>Functions\<close>

definition sq_ListFunctions :: "string \<Rightarrow> db \<Rightarrow> store_error + func list" where
  "sq_ListFunctions aid d =
     Inr (sort_key f_Name (filter (\<lambda>f. f_ApplicationID f = aid) (t_functions d)))"

definition sq_GetFunction :: "string \<Rightarrow> string \<Rightarrow> db \<Rightarrow> store_error + func" where
  "sq_GetFunction aid i d =
     (case find (\<lambda>f. f_ApplicationID f = aid \<and> f_ID f = i) (t_functions d) of
        None \<Rightarrow> Inl ErrNotFound | Some f \<Rightarrow> Inr f)"

definition app_exists :: "string \<Rightarrow> db \<Rightarrow> bool" where
  "app_exists i d = list_ex (\<lambda>a. a_ID a = i) (t_applications d)"

definition sq_CreateFunction :: "time \<Rightarrow> func \<Rightarrow> db writes" where
  "sq_CreateFunction now f0 d =
     (let f1 = (if is_zero_time (f_CreatedAt f0) then f0\<lparr>f_CreatedAt := now\<rparr> else f0);
          f = f1\<lparr>f_UpdatedAt := now\<rparr>
      in if list_ex (\<lambda>g. f_ID g = f_ID f) (t_functions d)
         then (Inl (ErrStore ''UNIQUE constraint failed: functions.id''), d)
         else if list_ex (\<lambda>g. f_ApplicationID g = f_ApplicationID f \<and> f_Name g = f_Name f) (t_functions d)
         then (Inl (ErrStore ''UNIQUE constraint failed: functions.application_id, functions.name''), d)
         else if foreign_keys d \<and> \<not> app_exists (f_ApplicationID f) d
         then (Inl (ErrStore ''FOREIGN KEY constraint failed''), d)
         else (Inr (), d\<lparr>t_functions := t_functions d @ [f]\<rparr>))"

definition sq_UpdateFunctionRoute :: "time \<Rightarrow> string \<Rightarrow> string \<Rightarrow> string \<Rightarrow> db writes" where
  "sq_UpdateFunctionRoute now aid i route d =
     (let P = (\<lambda>f. f_ApplicationID f = aid \<and> f_ID f = i)
      in if affected P (t_functions d) = 0 then (Inl ErrNotFound, d)
         else (Inr (), d\<lparr>t_functions := update_where P (\<lambda>f. f\<lparr>f_Route := route, f_UpdatedAt := now\<rparr>)
                                       (t_functions d)\<rparr>))"

definition sq_DeleteFunction :: "string \<Rightarrow> string \<Rightarrow> db writes" where
  "sq_DeleteFunction aid i d =
     (let P = (\<lambda>f. f_ApplicationID f = aid \<and> f_ID f = i)
      in if affected P (t_functions d) = 0 then (Inl ErrNotFound, d)
         else (Inr (), delete_functions P d))"

section \<open>Sources\<close>

definition sq_GetSource :: "string \<Rightarrow> db \<Rightarrow> store_error + source" where
  "sq_GetSource i d =
     (case find (\<lambda>s. src_FunctionID s = i) (t_sources d) of
        None \<Rightarrow> Inl ErrNotFound | Some s \<Rightarrow> Inr s)"

text \<open>The statement is an upsert: a conflict on the function id updates the row in place.\<close>

definition sq_PutSource :: "time \<Rightarrow> source \<Rightarrow> db writes" where
  "sq_PutSource now s0 d =
     (let s = s0\<lparr>src_Files := json_files (src_Files s0), src_UpdatedAt := now\<rparr>;
          P = (\<lambda>r. src_FunctionID r = src_FunctionID s)
      in if list_ex P (t_sources d)
         then (Inr (), d\<lparr>t_sources := update_where P
                (\<lambda>r. r\<lparr>src_Files := src_Files s, src_UpdatedAt := src_UpdatedAt s\<rparr>) (t_sources d)\<rparr>)
         else if foreign_keys d \<and> \<not> list_ex (\<lambda>f. f_ID f = src_FunctionID s) (t_functions d)
         then (Inl (ErrStore ''FOREIGN KEY constraint failed''), d)
         else (Inr (), d\<lparr>t_sources := t_sources d @ [s]\<rparr>))"

section \<open>Builds\<close>

definition sq_CreateBuild :: "time \<Rightarrow> build \<Rightarrow> db writes" where
  "sq_CreateBuild now b0 d =
     (let b1 = (if is_zero_time (b_CreatedAt b0) then b0\<lparr>b_CreatedAt := now\<rparr> else b0);
          b = b1\<lparr>b_ImageSizeBytes := None\<rparr>
      in if list_ex (\<lambda>c. b_ID c = b_ID b) (t_builds d)
         then (Inl (ErrStore ''UNIQUE constraint failed: builds.id''), d)
         else if foreign_keys d \<and> \<not> app_exists (b_ApplicationID b) d
         then (Inl (ErrStore ''FOREIGN KEY constraint failed''), d)
         else (Inr (), d\<lparr>t_builds := t_builds d @ [b]\<rparr>))"

definition sq_GetBuild :: "string \<Rightarrow> string \<Rightarrow> db \<Rightarrow> store_error + build" where
  "sq_GetBuild aid i d =
     (case find (\<lambda>b. b_ApplicationID b = aid \<and> b_ID b = i) (t_builds d) of
        None \<Rightarrow> Inl ErrNotFound | Some b \<Rightarrow> Inr b)"

text \<open>Newest first; rows of the same instant come in insertion order.\<close>

definition sq_ListBuilds :: "string \<Rightarrow> int \<Rightarrow> db \<Rightarrow> store_error + build list" where
  "sq_ListBuilds aid limit0 d =
     (let limit = (if limit0 \<le> 0 then 20 else limit0)
      in Inr (take (nat limit)
           (sort_key (\<lambda>b. - b_CreatedAt b) (filter (\<lambda>b. b_ApplicationID b = aid) (t_builds d)))))"

definition sq_UpdateBuildStatus ::
  "string \<Rightarrow> build_status \<Rightarrow> string \<Rightarrow> time option \<Rightarrow> db writes" where
  "sq_UpdateBuildStatus i status errMsg finished d =
     (Inr (), d\<lparr>t_builds := update_where (\<lambda>b. b_ID b = i)
        (\<lambda>b. b\<lparr>b_Status := status, b_Error := errMsg, b_FinishedAt := finished\<rparr>) (t_builds d)\<rparr>)"

definition sq_UpdateBuildImageSize :: "string \<Rightarrow> int \<Rightarrow> db writes" where
  "sq_UpdateBuildImageSize i sizeBytes d =
     (Inr (), d\<lparr>t_builds := update_where (\<lambda>b. b_ID b = i)
        (\<lambda>b. b\<lparr>b_ImageSizeBytes := Some sizeBytes\<rparr>) (t_builds d)\<rparr>)"

definition sqlite_ops :: "db store_ops" where
  "sqlite_ops =
     \<lparr>Ping = (\<lambda>_. None),
      ListApplications = sq_ListApplications,
      GetApplication = sq_GetApplication,
      GetApplicationByName = sq_GetApplicationByName,
      CreateApplication = sq_CreateApplication,
      UpdateApplicationConfig = sq_UpdateApplicationConfig,
      DeleteApplication = sq_DeleteApplication,
      ListFunctions = sq_ListFunctions,
      GetFunction = sq_GetFunction,
      CreateFunction = sq_CreateFunction,
      UpdateFunctionRoute = sq_UpdateFunctionRoute,
      DeleteFunction = sq_DeleteFunction,
      GetSource = sq_GetSource,
      PutSource = sq_PutSource,
      CreateBuild = sq_CreateBuild,
      GetBuild = sq_GetBuild,
      ListBuilds = sq_ListBuilds,
      UpdateBuildStatus = sq_UpdateBuildStatus,
      UpdateBuildImageSize = sq_UpdateBuildImageSize\<rparr>"

section \<open>The tables as maps\<close>

definition abs_db :: "db \<Rightarrow> astore" where
  "abs_db d =
     \<lparr>A_apps = by_key a_ID (t_applications d), A_fns = by_key f_ID (t_functions d),
      A_srcs = by_key src_FunctionID (t_sources d), A_blds = by_key b_ID (t_builds d)\<rparr>"

definition db_inv :: "db \<Rightarrow> bool" where
  "db_inv d \<longleftrightarrow>
     foreign_keys d \<and>
     distinct (map a_ID (t_applications d)) \<and> distinct (map f_ID (t_functions d)) \<and>
     distinct (map src_FunctionID (t_sources d)) \<and> distinct (map b_ID (t_builds d)) \<and>
     astore_inv (abs_db d)"

lemma by_key_update:
  "(\<And>r. k (f r) = k r) \<Longrightarrow> by_key k (update_where (\<lambda>r. k r = i) f rows) =
     (by_key k rows)(i := map_option f (by_key k rows i))"
  by (induction rows) (auto simp: by_key_def update_where_def fun_eq_iff)

lemma map_update_where [simp]:
  "(\<And>r. k (f r) = k r) \<Longrightarrow> map k (update_where P f rows) = map k rows"
  by (induction rows) (auto simp: update_where_def)

lemma update_where_cong:
  "(\<And>r. r \<in> set rows \<Longrightarrow> P r = Q r) \<Longrightarrow> update_where P f rows = update_where Q f rows"
  by (auto simp: update_where_def)

lemma affected_zero: "affected P rows = 0 \<longleftrightarrow> (\<forall>r \<in> set rows. \<not> P r)"
  by (auto simp: affected_def filter_empty_conv)

lemmas abs_db_simps [simp] = abs_db_def [THEN arg_cong, of A_apps, simplified]
  abs_db_def [THEN arg_cong, of A_fns, simplified]
  abs_db_def [THEN arg_cong, of A_srcs, simplified]
  abs_db_def [THEN arg_cong, of A_blds, simplified]

section \<open>The methods refine the contract\<close>

lemma sqlite_ops_simps [simp]:
  "Ping sqlite_ops = (\<lambda>_. None)"
  "ListApplications sqlite_ops = sq_ListApplications"
  "GetApplication sqlite_ops = sq_GetApplication"
  "GetApplicationByName sqlite_ops = sq_GetApplicationByName"
  "CreateApplication sqlite_ops = sq_CreateApplication"
  "UpdateApplicationConfig sqlite_ops = sq_UpdateApplicationConfig"
  "DeleteApplication sqlite_ops = sq_DeleteApplication"
  "ListFunctions sqlite_ops = sq_ListFunctions"
  "GetFunction sqlite_ops = sq_GetFunction"
  "CreateFunction sqlite_ops = sq_CreateFunction"
  "UpdateFunctionRoute sqlite_ops = sq_UpdateFunctionRoute"
  "DeleteFunction sqlite_ops = sq_DeleteFunction"
  "GetSource sqlite_ops = sq_GetSource"
  "PutSource sqlite_ops = sq_PutSource"
  "CreateBuild sqlite_ops = sq_CreateBuild"
  "GetBuild sqlite_ops = sq_GetBuild"
  "ListBuilds sqlite_ops = sq_ListBuilds"
  "UpdateBuildStatus sqlite_ops = sq_UpdateBuildStatus"
  "UpdateBuildImageSize sqlite_ops = sq_UpdateBuildImageSize"
  by (simp_all add: sqlite_ops_def)

lemma db_invD:
  assumes "db_inv d"
  shows "foreign_keys d" "distinct (map a_ID (t_applications d))"
    "distinct (map f_ID (t_functions d))" "distinct (map src_FunctionID (t_sources d))"
    "distinct (map b_ID (t_builds d))" "astore_inv (abs_db d)"
  using assms by (auto simp: db_inv_def)

text \<open>A look-up by id with a second condition on the row.\<close>

lemma find_lookup:
  assumes "distinct (map k rows)"
  shows "(case find (\<lambda>r. P r \<and> k r = i) rows of None \<Rightarrow> Inl ErrNotFound | Some r \<Rightarrow> Inr r) =
         lookup P (by_key k rows i)"
proof (cases "by_key k rows i")
  case None
  then have "find (\<lambda>r. P r \<and> k r = i) rows = None"
    by (auto simp: by_key_None find_None_iff)
  with None show ?thesis by (simp add: lookup_def)
next
  case (Some r)
  with assms have r: "r \<in> set rows" "k r = i" by (simp_all add: by_key_iff)
  show ?thesis
  proof (cases "P r")
    case True
    have "find (\<lambda>r. P r \<and> k r = i) rows = Some r"
      by (rule find_unique) (use r True assms in \<open>auto dest: distinct_map_eqD\<close>)
    with Some True show ?thesis by (simp add: lookup_def)
  next
    case False
    have "find (\<lambda>r. P r \<and> k r = i) rows = None"
      using r False assms by (auto simp: find_None_iff dest: distinct_map_eqD)
    with Some False show ?thesis by (simp add: lookup_def)
  qed
qed

text \<open>The rows of a table that satisfy a condition, sorted by a column.\<close>

lemma sorted_rows:
  assumes "distinct (map k rows)"
  shows "sorted (map g (sort_key g (filter P rows)))" "distinct (sort_key g (filter P rows))"
    "set (sort_key g (filter P rows)) = {r \<in> ran (by_key k rows). P r}"
  using assms by (auto simp: ran_by_key distinct_map)

text \<open>The condition "tenant and id" selects the row with that id or none.\<close>

lemma affected_by_key:
  "distinct (map k rows) \<Longrightarrow>
   affected (\<lambda>r. P r \<and> k r = i) rows = 0 \<longleftrightarrow> \<not> (\<exists>r. by_key k rows i = Some r \<and> P r)"
  by (auto simp: affected_zero by_key_iff)

lemma by_key_update_cond:
  assumes "distinct (map k rows)" "\<And>r. k (f r) = k r" "by_key k rows i = Some r" "P r"
  shows "by_key k (update_where (\<lambda>r. P r \<and> k r = i) f rows) = (by_key k rows)(i \<mapsto> f r)"
proof -
  have "update_where (\<lambda>r. P r \<and> k r = i) f rows = update_where (\<lambda>r. k r = i) f rows"
    using assms by (intro update_where_cong) (auto simp: by_key_iff dest: distinct_map_eqD)
  with assms(2,3) show ?thesis by (simp add: by_key_update)
qed

lemma by_key_delete_cond:
  assumes "distinct (map k rows)" "by_key k rows i = Some r" "P r"
  shows "by_key k (filter (\<lambda>r. \<not> (P r \<and> k r = i)) rows) = (by_key k rows)(i := None)"
proof (rule ext)
  fix j
  have "by_key k (filter (\<lambda>r. \<not> (P r \<and> k r = i)) rows) j =
      (case by_key k rows j of None \<Rightarrow> None | Some x \<Rightarrow> if P x \<and> k x = i then None else Some x)"
    by (simp add: by_key_filter [OF assms(1)] split: option.splits)
  also have "\<dots> = ((by_key k rows)(i := None)) j"
  proof (cases "by_key k rows j")
    case (Some x)
    then have "k x = j" by (simp add: by_key_SomeD)
    with Some assms(2,3) show ?thesis by (cases "j = i") simp_all
  qed simp
  finally show "by_key k (filter (\<lambda>r. \<not> (P r \<and> k r = i)) rows) j = ((by_key k rows)(i := None)) j" .
qed

lemma create_application_ok:
  assumes "db_inv d" "can_create_app a (abs_db d)"
  shows "fst (sq_CreateApplication now a d) = Inr ()" (is ?res)
    and "db_inv (snd (sq_CreateApplication now a d))" (is ?inv)
    and "abs_db (snd (sq_CreateApplication now a d)) =
      abs_db d\<lparr>A_apps := (A_apps (abs_db d))(a_ID a \<mapsto> stored_app now a)\<rparr>" (is ?abs)
proof -
  have fresh: "by_key a_ID (t_applications d) (a_ID a) = None"
    and names: "\<forall>b \<in> set (t_applications d). \<not> (a_TenantID b = a_TenantID a \<and> a_Name b = a_Name a)"
    using assms db_invD(2) [OF assms(1)] by (auto simp: can_create_app_def by_key_iff)
  have eq: "sq_CreateApplication now a d =
      (Inr (), d\<lparr>t_applications := t_applications d @ [stored_app now a]\<rparr>)"
    using fresh names
    by (auto simp: sq_CreateApplication_def Let_def stored_app_def by_key_None list_ex_iff)
  then show ?res by simp
  show abs: ?abs
    using by_key_append [of a_ID "t_applications d" "stored_app now a"] fresh
    by (simp add: eq abs_db_def)
  show ?inv
    using inv_add_app [OF db_invD(6) [OF assms(1)] assms(2), of now] db_invD [OF assms(1)] fresh
    by (simp add: db_inv_def abs [unfolded eq, simplified] eq)
qed

lemma create_application_err:
  assumes "db_inv d" "\<not> can_create_app a (abs_db d)"
  shows "\<exists>m. sq_CreateApplication now a d = (Inl (ErrStore m), d)"
  using assms db_invD(2) [OF assms(1)]
  by (auto simp: sq_CreateApplication_def Let_def can_create_app_def by_key_iff list_ex_iff
      by_key_None)

lemma update_application_ok:
  assumes "db_inv d" "A_apps (abs_db d) i = Some a" "a_TenantID a = tid"
  shows "fst (sq_UpdateApplicationConfig now tid i ds n vs r d) = Inr ()" (is ?res)
    and "db_inv (snd (sq_UpdateApplicationConfig now tid i ds n vs r d))" (is ?inv)
    and "abs_db (snd (sq_UpdateApplicationConfig now tid i ds n vs r d)) =
      abs_db d\<lparr>A_apps := (A_apps (abs_db d))(i \<mapsto> configured now ds n vs r a)\<rparr>" (is ?abs)
proof -
  note inv = db_invD [OF assms(1)]
  let ?P = "\<lambda>a. a_TenantID a = tid \<and> a_ID a = i"
  have "affected ?P (t_applications d) \<noteq> 0"
    using affected_by_key [OF inv(2)] assms(2,3) by auto
  then have eq: "sq_UpdateApplicationConfig now tid i ds n vs r d =
      (Inr (), d\<lparr>t_applications := update_where ?P (configured now ds n vs r) (t_applications d)\<rparr>)"
    by (cases "n \<le> 0")
      (simp_all add: sq_UpdateApplicationConfig_def configured_def [abs_def] cong: if_cong)
  then show ?res by simp
  show abs: ?abs
    using by_key_update_cond [OF inv(2), of "configured now ds n vs r" i a] assms(2,3)
    by (simp add: eq abs_db_def)
  show ?inv
    using inv_configure_app [OF inv(6) assms(2), of now ds n vs r] inv
    by (simp add: db_inv_def abs [unfolded eq, simplified] eq)
qed

lemma update_application_err:
  assumes "db_inv d" "\<not> has_app tid i (abs_db d)"
  shows "sq_UpdateApplicationConfig now tid i ds n vs r d = (Inl ErrNotFound, d)"
  using assms affected_by_key [OF db_invD(2) [OF assms(1)], of "\<lambda>a. a_TenantID a = tid" i]
  by (auto simp: sq_UpdateApplicationConfig_def has_app_def Let_def)

lemma remove_fns_by_key:
  assumes "distinct (map f_ID fs)"
  shows "by_key f_ID (filter (\<lambda>f. \<not> P f) fs) =
    (\<lambda>j. if (\<exists>f. by_key f_ID fs j = Some f \<and> P f) then None else by_key f_ID fs j)"
  by (rule ext) (auto simp: by_key_filter [OF assms] split: option.splits)

lemma remove_srcs_by_key:
  assumes "distinct (map f_ID fs)" "distinct (map src_FunctionID ss)"
  shows "by_key src_FunctionID
      (filter (\<lambda>s. \<not> list_ex (\<lambda>f. P f \<and> f_ID f = src_FunctionID s) fs) ss) =
    (\<lambda>j. if (\<exists>f. by_key f_ID fs j = Some f \<and> P f) then None else by_key src_FunctionID ss j)"
proof (rule ext)
  fix j
  show "by_key src_FunctionID
      (filter (\<lambda>s. \<not> list_ex (\<lambda>f. P f \<and> f_ID f = src_FunctionID s) fs) ss) j =
    (if (\<exists>f. by_key f_ID fs j = Some f \<and> P f) then None else by_key src_FunctionID ss j)"
  proof (cases "by_key src_FunctionID ss j")
    case None
    then show ?thesis by (simp add: by_key_filter [OF assms(2)])
  next
    case (Some s)
    then have "src_FunctionID s = j" by (simp add: by_key_SomeD)
    with Some show ?thesis
      by (auto simp: by_key_filter [OF assms(2)] by_key_iff [OF assms(1)] list_ex_iff)
  qed
qed

lemma delete_application_ok:
  assumes "db_inv d" "has_app tid i (abs_db d)"
  shows "fst (sq_DeleteApplication tid i d) = Inr ()" (is ?res)
    and "db_inv (snd (sq_DeleteApplication tid i d))" (is ?inv)
    and "abs_db (snd (sq_DeleteApplication tid i d)) = remove_app i (abs_db d)" (is ?abs)
proof -
  note inv = db_invD [OF assms(1)]
  let ?P = "\<lambda>a. a_TenantID a = tid \<and> a_ID a = i"
  obtain a where a: "by_key a_ID (t_applications d) i = Some a" "a_TenantID a = tid"
    using assms(2) by (auto simp: has_app_def)
  have gone: "list_ex (\<lambda>a. a_TenantID a = tid \<and> a_ID a = i \<and> a_ID a = j) (t_applications d)
      \<longleftrightarrow> j = i" for j
    using a inv(2) by (auto simp: list_ex_iff by_key_iff)
  have eq: "sq_DeleteApplication tid i d = (Inr (),
      d\<lparr>t_applications := filter (\<lambda>a. \<not> ?P a) (t_applications d),
        t_functions := filter (\<lambda>f. f_ApplicationID f \<noteq> i) (t_functions d),
        t_sources := filter (\<lambda>s. \<not> list_ex (\<lambda>f. f_ApplicationID f = i \<and> f_ID f = src_FunctionID s)
                                     (t_functions d)) (t_sources d),
        t_builds := filter (\<lambda>b. b_ApplicationID b \<noteq> i) (t_builds d)\<rparr>)"
    using affected_by_key [OF inv(2), of "\<lambda>a. a_TenantID a = tid" i] a inv(1)
    by (simp add: sq_DeleteApplication_def delete_applications_def delete_functions_def gone)
  then show ?res by simp
  have apps: "by_key a_ID (filter (\<lambda>a. \<not> ?P a) (t_applications d)) =
      (by_key a_ID (t_applications d))(i := None)"
    by (rule by_key_delete_cond [OF inv(2) a(1)]) (rule a(2))
  show abs: ?abs
    unfolding eq remove_app_def abs_db_def
    using apps remove_fns_by_key [OF inv(3), of "\<lambda>f. f_ApplicationID f = i"]
      remove_srcs_by_key [OF inv(3,4), of "\<lambda>f. f_ApplicationID f = i"]
    by (auto simp: by_key_filter [OF inv(5)] fun_eq_iff split: option.splits)
  show ?inv
    using inv_remove_app [OF inv(6), of i] inv abs
    by (simp add: db_inv_def eq distinct_map_filterI)
qed

lemma delete_application_err:
  assumes "db_inv d" "\<not> has_app tid i (abs_db d)"
  shows "sq_DeleteApplication tid i d = (Inl ErrNotFound, d)"
  using assms affected_by_key [OF db_invD(2) [OF assms(1)], of "\<lambda>a. a_TenantID a = tid" i]
  by (auto simp: sq_DeleteApplication_def has_app_def)

lemma create_function_ok:
  assumes "db_inv d" "can_create_fn f (abs_db d)"
  shows "fst (sq_CreateFunction now f d) = Inr ()" (is ?res)
    and "db_inv (snd (sq_CreateFunction now f d))" (is ?inv)
    and "abs_db (snd (sq_CreateFunction now f d)) =
      abs_db d\<lparr>A_fns := (A_fns (abs_db d))(f_ID f \<mapsto> stored_fn now f)\<rparr>" (is ?abs)
proof -
  note inv = db_invD [OF assms(1)]
  have fresh: "by_key f_ID (t_functions d) (f_ID f) = None"
    and app: "app_exists (f_ApplicationID f) d"
    and names: "\<forall>g \<in> set (t_functions d).
      \<not> (f_ApplicationID g = f_ApplicationID f \<and> f_Name g = f_Name f)"
    using assms(2) inv(3)
    by (auto simp: can_create_fn_def by_key_iff app_exists_def by_key_exists)
  have eq: "sq_CreateFunction now f d = (Inr (), d\<lparr>t_functions := t_functions d @ [stored_fn now f]\<rparr>)"
    using fresh names app
    by (auto simp: sq_CreateFunction_def Let_def stored_fn_def by_key_None list_ex_iff app_exists_def)
  then show ?res by simp
  show abs: ?abs
    using by_key_append [of f_ID "t_functions d" "stored_fn now f"] fresh
    by (simp add: eq abs_db_def)
  show ?inv
    using inv_add_fn [OF inv(6) assms(2), of now] inv fresh
    by (simp add: db_inv_def abs [unfolded eq, simplified] eq)
qed

lemma create_function_err:
  assumes "db_inv d" "\<not> can_create_fn f (abs_db d)"
  shows "\<exists>m. sq_CreateFunction now f d = (Inl (ErrStore m), d)"
  using assms db_invD(1,3) [OF assms(1)]
  by (auto simp: sq_CreateFunction_def Let_def can_create_fn_def by_key_iff list_ex_iff
      by_key_None app_exists_def)

lemma update_function_ok:
  assumes "db_inv d" "A_fns (abs_db d) i = Some f" "f_ApplicationID f = aid"
  shows "fst (sq_UpdateFunctionRoute now aid i rt d) = Inr ()" (is ?res)
    and "db_inv (snd (sq_UpdateFunctionRoute now aid i rt d))" (is ?inv)
    and "abs_db (snd (sq_UpdateFunctionRoute now aid i rt d)) =
      abs_db d\<lparr>A_fns := (A_fns (abs_db d))(i \<mapsto> f\<lparr>f_Route := rt, f_UpdatedAt := now\<rparr>)\<rparr>" (is ?abs)
proof -
  note inv = db_invD [OF assms(1)]
  let ?P = "\<lambda>f. f_ApplicationID f = aid \<and> f_ID f = i"
  let ?upd = "\<lambda>f. f\<lparr>f_Route := rt, f_UpdatedAt := now\<rparr>"
  have "affected ?P (t_functions d) \<noteq> 0"
    using affected_by_key [OF inv(3)] assms(2,3) by auto
  then have eq: "sq_UpdateFunctionRoute now aid i rt d =
      (Inr (), d\<lparr>t_functions := update_where ?P ?upd (t_functions d)\<rparr>)"
    by (simp add: sq_UpdateFunctionRoute_def)
  then show ?res by simp
  show abs: ?abs
    using by_key_update_cond [OF inv(3), of ?upd i f] assms(2,3)
    by (simp add: eq abs_db_def)
  show ?inv
    using inv_update_fn [OF inv(6) assms(2), where rt = rt and now = now] inv
    by (simp add: db_inv_def abs [unfolded eq, simplified] eq)
qed

lemma delete_function_ok:
  assumes "db_inv d" "has_fn aid i (abs_db d)"
  shows "fst (sq_DeleteFunction aid i d) = Inr ()" (is ?res)
    and "db_inv (snd (sq_DeleteFunction aid i d))" (is ?inv)
    and "abs_db (snd (sq_DeleteFunction aid i d)) = remove_fn i (abs_db d)" (is ?abs)
proof -
  note inv = db_invD [OF assms(1)]
  let ?P = "\<lambda>f. f_ApplicationID f = aid \<and> f_ID f = i"
  obtain f where f: "by_key f_ID (t_functions d) i = Some f" "f_ApplicationID f = aid"
    using assms(2) by (auto simp: has_fn_def)
  have eq: "sq_DeleteFunction aid i d = (Inr (), delete_functions ?P d)"
    using affected_by_key [OF inv(3), of "\<lambda>f. f_ApplicationID f = aid" i] f
    by (simp add: sq_DeleteFunction_def)
  then show ?res by simp
  have sel: "(\<exists>g. by_key f_ID (t_functions d) j = Some g \<and> ?P g) \<longleftrightarrow> j = i" for j
    using f inv(3) by (auto simp: by_key_iff)
  have "by_key src_FunctionID (filter (\<lambda>s. \<not> list_ex (\<lambda>f. ?P f \<and> f_ID f = src_FunctionID s)
      (t_functions d)) (t_sources d)) = (by_key src_FunctionID (t_sources d))(i := None)"
    using remove_srcs_by_key [OF inv(3,4), of ?P] by (auto simp: sel fun_eq_iff)
  then show abs: ?abs
    using by_key_delete_cond [OF inv(3) f(1), of "\<lambda>f. f_ApplicationID f = aid"] f(2) inv(1)
    by (simp add: eq remove_fn_def abs_db_def delete_functions_def)
  show ?inv
    using inv_remove_fn [OF inv(6), of i] inv abs
    by (simp add: db_inv_def eq delete_functions_def distinct_map_filterI)
qed


lemma update_function_err:
  assumes "db_inv d" "\<not> has_fn aid i (abs_db d)"
  shows "sq_UpdateFunctionRoute now aid i rt d = (Inl ErrNotFound, d)"
  using assms affected_by_key [OF db_invD(3) [OF assms(1)], of "\<lambda>f. f_ApplicationID f = aid" i]
  by (auto simp: sq_UpdateFunctionRoute_def has_fn_def)

lemma delete_function_err:
  assumes "db_inv d" "\<not> has_fn aid i (abs_db d)"
  shows "sq_DeleteFunction aid i d = (Inl ErrNotFound, d)"
  using assms affected_by_key [OF db_invD(3) [OF assms(1)], of "\<lambda>f. f_ApplicationID f = aid" i]
  by (auto simp: sq_DeleteFunction_def has_fn_def)

lemma put_source_err:
  assumes "db_inv d" "A_fns (abs_db d) (src_FunctionID x) = None"
  shows "\<exists>m. sq_PutSource now x d = (Inl (ErrStore m), d)"
proof -
  note inv = db_invD [OF assms(1)]
  have "by_key src_FunctionID (t_sources d) (src_FunctionID x) = None"
    using astore_invD(6) [OF inv(6)] assms(2) by fastforce
  with assms(2) inv(1) show ?thesis by (simp add: sq_PutSource_def by_key_exists)
qed

lemma put_source_ok:
  assumes "db_inv d" "A_fns (abs_db d) (src_FunctionID x) \<noteq> None"
  shows "fst (sq_PutSource now x d) = Inr ()" (is ?res)
    and "db_inv (snd (sq_PutSource now x d))" (is ?inv)
    and "abs_db (snd (sq_PutSource now x d)) =
      abs_db d\<lparr>A_srcs := (A_srcs (abs_db d))(src_FunctionID x \<mapsto> stored_source now x)\<rparr>"
      (is ?abs)
proof -
  note inv = db_invD [OF assms(1)]
  let ?s = "stored_source now x" and ?i = "src_FunctionID x"
  let ?upd = "\<lambda>r. r\<lparr>src_Files := src_Files ?s, src_UpdatedAt := now\<rparr>"
  have fn: "list_ex (\<lambda>f. f_ID f = ?i) (t_functions d)"
    using assms(2) by (simp add: by_key_exists)
  have "?res \<and> distinct (map src_FunctionID (t_sources (snd (sq_PutSource now x d)))) \<and>
      foreign_keys (snd (sq_PutSource now x d)) \<and>
      t_applications (snd (sq_PutSource now x d)) = t_applications d \<and>
      t_functions (snd (sq_PutSource now x d)) = t_functions d \<and>
      t_builds (snd (sq_PutSource now x d)) = t_builds d \<and>
      by_key src_FunctionID (t_sources (snd (sq_PutSource now x d))) =
        (by_key src_FunctionID (t_sources d))(?i \<mapsto> ?s)"
  proof (cases "by_key src_FunctionID (t_sources d) ?i")
    case None
    then have "sq_PutSource now x d = (Inr (), d\<lparr>t_sources := t_sources d @ [?s]\<rparr>)"
      using fn by (simp add: sq_PutSource_def by_key_exists stored_source_def Let_def)
    with None inv show ?thesis
      using by_key_append [of src_FunctionID "t_sources d" ?s] by simp
  next
    case (Some r)
    then have "sq_PutSource now x d =
        (Inr (), d\<lparr>t_sources := update_where (\<lambda>r. src_FunctionID r = ?i) ?upd (t_sources d)\<rparr>)"
      by (simp add: sq_PutSource_def by_key_exists stored_source_def Let_def)
    moreover from Some have "?upd r = ?s" by (auto simp: stored_source_def dest: by_key_SomeD)
    ultimately show ?thesis
      using Some inv by (simp add: by_key_update)
  qed
  then show ?res and abs: ?abs and ?inv
    using inv_put_source [OF inv(6) assms(2), of now] inv
    by (simp_all add: db_inv_def abs_db_def)
qed

lemma create_build_ok:
  assumes "db_inv d" "can_create_build b (abs_db d)"
  shows "fst (sq_CreateBuild now b d) = Inr ()" (is ?res)
    and "db_inv (snd (sq_CreateBuild now b d))" (is ?inv)
    and "abs_db (snd (sq_CreateBuild now b d)) =
      abs_db d\<lparr>A_blds := (A_blds (abs_db d))(b_ID b \<mapsto> stored_build now b)\<rparr>" (is ?abs)
proof -
  note inv = db_invD [OF assms(1)]
  have fresh: "by_key b_ID (t_builds d) (b_ID b) = None"
    and app: "app_exists (b_ApplicationID b) d"
    using assms(2) by (auto simp: can_create_build_def app_exists_def by_key_exists)
  have eq: "sq_CreateBuild now b d = (Inr (), d\<lparr>t_builds := t_builds d @ [stored_build now b]\<rparr>)"
    using fresh app by (auto simp: sq_CreateBuild_def Let_def stored_build_def by_key_exists)
  then show ?res by simp
  show abs: ?abs
    using by_key_append [of b_ID "t_builds d" "stored_build now b"] fresh
    by (simp add: eq abs_db_def)
  show ?inv
    using inv_add_build [OF inv(6) assms(2), of now] inv fresh
    by (simp add: db_inv_def abs [unfolded eq, simplified] eq)
qed

lemma create_build_err:
  assumes "db_inv d" "\<not> can_create_build b (abs_db d)"
  shows "\<exists>m. sq_CreateBuild now b d = (Inl (ErrStore m), d)"
  using assms db_invD(1) [OF assms(1)]
  by (auto simp: sq_CreateBuild_def Let_def can_create_build_def by_key_exists app_exists_def)

lemma update_builds_ok:
  assumes "db_inv d" "\<And>b. b_ID (g b) = b_ID b" "\<And>b. b_ApplicationID (g b) = b_ApplicationID b"
  shows "db_inv (d\<lparr>t_builds := update_where (\<lambda>b. b_ID b = i) g (t_builds d)\<rparr>)"
    and "abs_db (d\<lparr>t_builds := update_where (\<lambda>b. b_ID b = i) g (t_builds d)\<rparr>) =
      abs_db d\<lparr>A_blds := (A_blds (abs_db d))(i := map_option g (A_blds (abs_db d) i))\<rparr>" (is ?abs)
proof -
  note inv = db_invD [OF assms(1)]
  show abs: ?abs using assms by (simp add: abs_db_def by_key_update)
  show "db_inv (d\<lparr>t_builds := update_where (\<lambda>b. b_ID b = i) g (t_builds d)\<rparr>)"
    using inv_update_build [OF inv(6), of g i] inv assms(2,3)
    by (simp add: db_inv_def abs [simplified])
qed

lemma list_builds_ok:
  assumes "db_inv d"
  shows "\<exists>bs. sq_ListBuilds aid n d = Inr (take (limit_or_20 n) bs) \<and>
    sorted_wrt (\<lambda>b c. b_CreatedAt c \<le> b_CreatedAt b) bs \<and> distinct bs \<and>
    set bs = {b \<in> ran (A_blds (abs_db d)). b_ApplicationID b = aid}"
proof (intro exI conjI)
  let ?bs = "sort_key (\<lambda>b. - b_CreatedAt b) (filter (\<lambda>b. b_ApplicationID b = aid) (t_builds d))"
  note rows = sorted_rows [OF db_invD(5) [OF assms], of "\<lambda>b. - b_CreatedAt b"
      "\<lambda>b. b_ApplicationID b = aid"]
  show "sq_ListBuilds aid n d = Inr (take (limit_or_20 n) ?bs)"
    by (simp add: sq_ListBuilds_def limit_or_20_def)
  show "sorted_wrt (\<lambda>b c. b_CreatedAt c \<le> b_CreatedAt b) ?bs"
    using rows(1) by (simp add: sorted_map)
  show "distinct ?bs" "set ?bs = {b \<in> ran (A_blds (abs_db d)). b_ApplicationID b = aid}"
    using rows(2,3) by simp_all
qed

section \<open>The store provides the contract\<close>

interpretation sq: store_contract sqlite_ops db_inv abs_db
proof (unfold_locales, goal_cases)
  case 2 then show ?case
    by (simp add: sq_GetApplication_def find_lookup db_invD)
next
  case 3 then show ?case
    using sorted_rows [OF db_invD(2), of _ a_Name] by (simp add: sq_ListApplications_def)
next
  case 10 then show ?case
    by (simp add: sq_GetFunction_def find_lookup db_invD)
next
  case 11 then show ?case
    using sorted_rows [OF db_invD(3), of _ f_Name] by (simp add: sq_ListFunctions_def)
next
  case 18 then show ?case
    using find_lookup [OF db_invD(4), of _ "\<lambda>_. True"] by (simp add: sq_GetSource_def)
next
  case 23 then show ?case
    by (simp add: sq_GetBuild_def find_lookup db_invD)
next
  case 25 then show ?case
    by (simp add: sq_UpdateBuildStatus_def update_builds_ok [simplified])
next
  case 26 then show ?case
    by (simp add: sq_UpdateBuildImageSize_def update_builds_ok [simplified])
qed (simp_all add: db_invD create_application_ok create_application_err update_application_ok
  update_application_err delete_application_ok delete_application_err create_function_ok
  create_function_err update_function_ok delete_function_ok put_source_ok put_source_err
  update_function_err delete_function_err create_build_ok create_build_err list_builds_ok del: abs_db_simps)


lemma distinct_map_via:
  assumes "distinct (map k xs)" "\<And>x y. x \<in> set xs \<Longrightarrow> y \<in> set xs \<Longrightarrow> h x = h y \<Longrightarrow> k x = k y"
  shows "distinct (map h xs)"
proof -
  have "x = y" if "x \<in> set xs" "y \<in> set xs" "h x = h y" for x y
    using assms(2) [OF that] assms(1) that(1,2) by (simp add: distinct_map inj_on_def)
  with assms(1) show ?thesis by (simp add: distinct_map inj_on_def)
qed

lemma keys_subset:
  assumes "distinct (map k rows)"
    and "\<And>r. by_key k rows (k r) = Some r \<Longrightarrow> \<exists>r'. by_key k' rows' (g r) = Some r'"
  shows "g ` set rows \<subseteq> k' ` set rows'"
proof (rule image_subsetI)
  fix r assume "r \<in> set rows"
  then have "by_key k rows (k r) = Some r" by (rule by_key_in [OF assms(1)])
  then obtain r' where "by_key k' rows' (g r) = Some r'" using assms(2) by blast
  then have "r' \<in> set rows'" "k' r' = g r" using by_key_SomeD by metis+
  then show "g r \<in> k' ` set rows'" by force
qed

lemma db_inv_empty [simp]: "db_inv empty_db"
  by (simp add: db_inv_def empty_db_def abs_db_def by_key_def astore_inv_def)

lemma abs_db_empty [simp]: "abs_db empty_db = empty_astore"
  by (simp add: empty_db_def abs_db_def by_key_def empty_astore_def)

text \<open>
  C2: From an empty database, any sequence of writing calls to the SQLite store behaves as the
  same sequence on the abstract store of four maps: the same calls succeed, and the tables hold
  the same contents.
\<close>

theorem sqlite_refines_store:
  "let (rs, d) = run_calls (exec_call sqlite_ops) cs empty_db;
       (oks, A) = run_calls spec_call cs empty_astore
   in abs_db d = A \<and> map is_ok rs = oks"
  using sq.run_refines [OF db_inv_empty, of cs] by (simp add: case_prod_unfold Let_def)

text \<open>
  Integrity of the database after any sequence of writing calls: ids are unique, application
  names are unique in their tenant and function names in their application, a function and a
  build have their application, a source has its function, and an application has at least one
  replica.
\<close>

lemma sqlite_integrity:
  "let d = snd (run_calls (exec_call sqlite_ops) cs empty_db);
       apps = t_applications d; fns = t_functions d
   in distinct (map a_ID apps) \<and> distinct (map f_ID fns) \<and> distinct (map b_ID (t_builds d)) \<and>
      distinct (map (\<lambda>a. (a_TenantID a, a_Name a)) apps) \<and>
      distinct (map (\<lambda>f. (f_ApplicationID f, f_Name f)) fns) \<and>
      f_ApplicationID ` set fns \<subseteq> a_ID ` set apps \<and>
      b_ApplicationID ` set (t_builds d) \<subseteq> a_ID ` set apps \<and>
      src_FunctionID ` set (t_sources d) \<subseteq> f_ID ` set fns \<and>
      a_Replicas ` set apps \<subseteq> {1..}"
proof -
  define d where "d = snd (run_calls (exec_call sqlite_ops) cs empty_db)"
  have "db_inv d" using sq.run_refines [OF db_inv_empty, of cs] by (simp add: d_def)
  note inv = db_invD [OF this]
  have apps: "a_ID a = a_ID b"
    if "a \<in> set (t_applications d)" "b \<in> set (t_applications d)"
      "a_TenantID a = a_TenantID b" "a_Name a = a_Name b" for a b
    by (rule astore_inv_unique(1) [OF inv(6), of _ a _ b])
      (use that in \<open>simp_all add: by_key_in [OF inv(2)]\<close>)
  have fns: "f_ID f = f_ID g"
    if "f \<in> set (t_functions d)" "g \<in> set (t_functions d)"
      "f_ApplicationID f = f_ApplicationID g" "f_Name f = f_Name g" for f g
    by (rule astore_inv_unique(2) [OF inv(6), of _ f _ g])
      (use that in \<open>simp_all add: by_key_in [OF inv(3)]\<close>)
  have "distinct (map (\<lambda>a. (a_TenantID a, a_Name a)) (t_applications d))"
    by (rule distinct_map_via [OF inv(2)]) (rule apps; simp)
  moreover have "distinct (map (\<lambda>f. (f_ApplicationID f, f_Name f)) (t_functions d))"
    by (rule distinct_map_via [OF inv(3)]) (rule fns; simp)
  moreover have "f_ApplicationID ` set (t_functions d) \<subseteq> a_ID ` set (t_applications d)"
    by (rule keys_subset [OF inv(3)]) (rule astore_invD(4) [OF inv(6), unfolded abs_db_simps])
  moreover have "b_ApplicationID ` set (t_builds d) \<subseteq> a_ID ` set (t_applications d)"
    by (rule keys_subset [OF inv(5)]) (rule astore_invD(8) [OF inv(6), unfolded abs_db_simps])
  moreover have "src_FunctionID ` set (t_sources d) \<subseteq> f_ID ` set (t_functions d)"
    by (rule keys_subset [OF inv(4)]) (rule astore_invD(6) [OF inv(6), unfolded abs_db_simps])
  moreover have "a_Replicas ` set (t_applications d) \<subseteq> {1..}"
    using astore_invD(2) [OF inv(6), unfolded abs_db_simps, OF by_key_in [OF inv(2)]] by auto
  ultimately show ?thesis
    using inv unfolding d_def [symmetric] Let_def by simp
qed


section \<open>Deletion\<close>

lemma db_inv_run: "db_inv (snd (run_calls (exec_call sqlite_ops) cs empty_db))"
  using sq.run_refines [OF db_inv_empty, of cs] by simp

lemma has_app_iff:
  assumes "db_inv d"
  shows "has_app tid i (abs_db d) \<longleftrightarrow> (tid, i) \<in> (\<lambda>a. (a_TenantID a, a_ID a)) ` set (t_applications d)"
  using db_invD(2) [OF assms] by (auto simp: has_app_def by_key_iff)

lemma delete_application_rows:
  assumes "db_inv d" "has_app tid i (abs_db d)"
  shows "t_applications (snd (sq_DeleteApplication tid i d)) =
      filter (\<lambda>a. a_ID a \<noteq> i) (t_applications d)"
    and "t_functions (snd (sq_DeleteApplication tid i d)) =
      filter (\<lambda>f. f_ApplicationID f \<noteq> i) (t_functions d)"
    and "t_builds (snd (sq_DeleteApplication tid i d)) =
      filter (\<lambda>b. b_ApplicationID b \<noteq> i) (t_builds d)"
    and "t_sources (snd (sq_DeleteApplication tid i d)) =
      filter (\<lambda>s. src_FunctionID s \<in> f_ID ` set (t_functions (snd (sq_DeleteApplication tid i d))))
        (t_sources d)"
proof -
  note inv = db_invD [OF assms(1)]
  obtain a where a: "a \<in> set (t_applications d)" "a_ID a = i" "a_TenantID a = tid"
    using assms(2) inv(2) by (auto simp: has_app_def by_key_iff)
  have same: "a_TenantID b = tid \<and> a_ID b = i \<longleftrightarrow> a_ID b = i"
    if "b \<in> set (t_applications d)" for b
    using that a distinct_map_eqD [OF inv(2) that a(1)] by auto
  have gone: "list_ex (\<lambda>a. a_TenantID a = tid \<and> a_ID a = i \<and> a_ID a = j) (t_applications d)
      \<longleftrightarrow> j = i" for j
    using a by (auto simp: list_ex_iff)
  have aff: "affected (\<lambda>a. a_TenantID a = tid \<and> a_ID a = i) (t_applications d) \<noteq> 0"
    using a by (auto simp: affected_zero)
  note unfolded = sq_DeleteApplication_def delete_applications_def delete_functions_def
  show "t_applications (snd (sq_DeleteApplication tid i d)) =
      filter (\<lambda>a. a_ID a \<noteq> i) (t_applications d)"
    using aff inv(1) filter_cong [OF refl, of "t_applications d" "\<lambda>a. \<not> (a_TenantID a = tid \<and> a_ID a = i)"
        "\<lambda>a. a_ID a \<noteq> i"] same by (simp add: unfolded)
  show fns: "t_functions (snd (sq_DeleteApplication tid i d)) =
      filter (\<lambda>f. f_ApplicationID f \<noteq> i) (t_functions d)"
    and "t_builds (snd (sq_DeleteApplication tid i d)) =
      filter (\<lambda>b. b_ApplicationID b \<noteq> i) (t_builds d)"
    using aff inv(1) by (simp_all add: unfolded gone)
  have src: "\<not> list_ex (\<lambda>f. f_ApplicationID f = i \<and> f_ID f = src_FunctionID s) (t_functions d) \<longleftrightarrow>
      src_FunctionID s \<in> f_ID ` set (filter (\<lambda>f. f_ApplicationID f \<noteq> i) (t_functions d))"
    if s: "s \<in> set (t_sources d)" for s
  proof -
    have "\<exists>f. by_key f_ID (t_functions d) (src_FunctionID s) = Some f"
      by (rule astore_invD(6) [OF inv(6), unfolded abs_db_simps]) (rule by_key_in [OF inv(4) s])
    then obtain f where f: "f \<in> set (t_functions d)" "f_ID f = src_FunctionID s"
      using by_key_SomeD by metis
    have uniq: "g \<in> set (t_functions d) \<and> f_ID g = src_FunctionID s \<longleftrightarrow> g = f" for g
      using distinct_map_eqD [OF inv(3) _ f(1), of g] f by metis
    have "list_ex (\<lambda>f. f_ApplicationID f = i \<and> f_ID f = src_FunctionID s) (t_functions d) \<longleftrightarrow>
        f_ApplicationID f = i"
      using uniq unfolding list_ex_iff by metis
    moreover have "src_FunctionID s \<in> f_ID ` set (filter (\<lambda>f. f_ApplicationID f \<noteq> i) (t_functions d)) \<longleftrightarrow>
        f_ApplicationID f \<noteq> i"
      using uniq unfolding image_iff set_filter mem_Collect_eq bex_simps by metis
    ultimately show ?thesis by simp
  qed
  show "t_sources (snd (sq_DeleteApplication tid i d)) =
      filter (\<lambda>s. src_FunctionID s \<in> f_ID ` set (t_functions (snd (sq_DeleteApplication tid i d))))
        (t_sources d)"
    unfolding fns using aff inv(1) src by (simp add: unfolded gone cong: filter_cong)
qed

text \<open>
  Deleting an application deletes, when the tenant owns it, exactly its row, its functions,
  its builds and the sources of those functions; the rows of every other application stay as they
  are. When the tenant does not own it, nothing changes and the caller sees not-found.
\<close>

lemma sqlite_delete_cascade:
  "let d = snd (run_calls (exec_call sqlite_ops) cs empty_db);
       (r, d') = sq_DeleteApplication tid i d
   in if (tid, i) \<in> (\<lambda>a. (a_TenantID a, a_ID a)) ` set (t_applications d)
      then r = Inr () \<and>
        t_applications d' = filter (\<lambda>a. a_ID a \<noteq> i) (t_applications d) \<and>
        t_functions d' = filter (\<lambda>f. f_ApplicationID f \<noteq> i) (t_functions d) \<and>
        t_builds d' = filter (\<lambda>b. b_ApplicationID b \<noteq> i) (t_builds d) \<and>
        t_sources d' = filter (\<lambda>s. src_FunctionID s \<in> f_ID ` set (t_functions d')) (t_sources d)
      else r = Inl ErrNotFound \<and> d' = d"
proof -
  define d where "d = snd (run_calls (exec_call sqlite_ops) cs empty_db)"
  have inv: "db_inv d" by (simp add: d_def db_inv_run)
  show ?thesis
    using delete_application_rows [OF inv, of tid i] delete_application_ok(1) [OF inv, of tid i]
      delete_application_err [OF inv, of tid i]
    unfolding d_def [symmetric] Let_def has_app_iff [OF inv] by (simp add: case_prod_unfold)
qed

text \<open>
  Without the pragma the children stay: what a pooled connection on which
  \<^verbatim>\<open>PRAGMA foreign_keys\<close> was never executed does.
\<close>

lemma delete_without_pragma:
  "\<not> foreign_keys d \<Longrightarrow> t_functions (snd (sq_DeleteApplication tid i d)) = t_functions d \<and>
     t_builds (snd (sq_DeleteApplication tid i d)) = t_builds d \<and>
     t_sources (snd (sq_DeleteApplication tid i d)) = t_sources d"
  by (simp add: sq_DeleteApplication_def delete_applications_def Let_def)

end
