(* ===== verification/Builder.thy ===== *)
theory Builder
  imports Deploy Manifest Sqlite
begin

text \<open>
  Builds, \<^verbatim>\<open>internal/builder/builder.go\<close>. \<^verbatim>\<open>Start\<close> records the build and creates its Secret and
  Job; the goroutine that it starts, \<^verbatim>\<open>watch\<close>, is a \<^verbatim>\<open>watcher\<close> in the state of the process and
  two steps, \<^verbatim>\<open>watch_begin\<close> and \<^verbatim>\<open>watch_end\<close>, between which anything else may happen. The
  clock readings of one step are one value, an argument, as is the UUID that \<^verbatim>\<open>newID\<close> shortens.
\<close>

section \<open>The state of the process\<close>

text \<open>Calls on the metrics API are recorded in order.\<close>

datatype metric_event =
    FunctionsCreated | FunctionsDeleted | DeploysApplied | BuildsStarted
  | BuildsFinished string | BuildDuration duration

text \<open>A goroutine that watches a build, with the values it captured.\<close>

record watcher =
  wt_BuildID :: string
  wt_App :: application
  wt_ImageRef :: string
  wt_StartedAt :: time
  wt_Polling :: bool

record ('s, 'k) world =
  w_store :: 's
  w_kube :: 'k
  w_metrics :: "metric_event list"
  w_watchers :: "watcher list"

definition store_do :: "'s writes \<Rightarrow> ('s, 'k) world \<Rightarrow> (store_error + unit) \<times> ('s, 'k) world" where
  "store_do f w = (case f (w_store w) of (r, s) \<Rightarrow> (r, w\<lparr>w_store := s\<rparr>))"

definition kube_do :: "('k \<Rightarrow> 'r \<times> 'k) \<Rightarrow> ('s, 'k) world \<Rightarrow> 'r \<times> ('s, 'k) world" where
  "kube_do f w = (case f (w_kube w) of (r, k) \<Rightarrow> (r, w\<lparr>w_kube := k\<rparr>))"

definition count_event :: "metric_event \<Rightarrow> ('s, 'k) world \<Rightarrow> ('s, 'k) world" where
  "count_event e w = w\<lparr>w_metrics := w_metrics w @ [e]\<rparr>"

section \<open>Configuration\<close>

definition labelBuildID :: string where "labelBuildID = ''spinup.emdzej.pl/build-id''"

record builder_config =
  bc_Namespace :: string
  bc_GoImage :: string
  bc_JSImage :: string
  bc_TSImage :: string
  bc_RustImage :: string
  bc_RegistryURL :: string
  bc_AuthSecret :: string
  bc_ImagePullSecrets :: "string list"
  bc_Deployer :: deployer

definition profile :: "builder_config \<Rightarrow> string \<Rightarrow> string + string" where
  "profile cfg lang =
     (if lang = ''go'' then Inr (bc_GoImage cfg)
      else if lang = ''js'' then Inr (bc_JSImage cfg)
      else if lang = ''ts'' then Inr (bc_TSImage cfg)
      else if lang = ''rust'' then Inr (bc_RustImage cfg)
      else Inl (''language '' @ Quote lang @ '' has no builder''))"

definition secretName :: "string \<Rightarrow> string" where "secretName buildID = ''src-'' @ buildID"
definition jobName :: "string \<Rightarrow> string" where "jobName buildID = ''build-'' @ buildID"

definition newID :: "string \<Rightarrow> string" where
  "newID uuid = filter (\<lambda>c. c \<noteq> CHR ''-'') uuid"

definition pullSecretRefs :: "string list \<Rightarrow> string list" where
  "pullSecretRefs names = filter (\<lambda>n. n \<noteq> []) (map TrimSpace names)"

section \<open>Starting a build\<close>

record build_input =
  bi_Function :: func
  bi_Source :: source

text \<open>The tree that is shipped: \<^verbatim>\<open>functions/{name}/{path}\<close> for every file, and the manifest.\<close>

definition function_files :: "build_input \<Rightarrow> string smap" where
  "function_files fb =
     map (\<lambda>(relPath, content). (''functions/'' @ f_Name (bi_Function fb) @ ''/'' @ relPath, content))
       (src_Files (bi_Source fb))"

definition build_files :: "build_input list \<Rightarrow> string smap" where
  "build_files fns =
     fold (\<lambda>fb files. fold (\<lambda>(n, c). AList.update n c) (function_files fb) files) fns []"

definition build_specs :: "build_input list \<Rightarrow> function_spec list" where
  "build_specs fns =
     map (\<lambda>fb. \<lparr>fs_Name = f_Name (bi_Function fb), fs_Route = f_Route (bi_Function fb)\<rparr>) fns"

definition build_secret :: "builder_config \<Rightarrow> string \<Rightarrow> tar_entries \<Rightarrow> secret" where
  "build_secret cfg buildID tarball =
     \<lparr>sec_Name = secretName buildID, sec_Namespace = bc_Namespace cfg,
      sec_Labels = [(labelManagedBy, labelManagedByVal), (labelBuildID, buildID)],
      sec_Type = ''Opaque'', sec_Data = [(''source.tar.gz'', tarball)]\<rparr>"

definition createSecret ::
  "'k kube \<Rightarrow> builder_config \<Rightarrow> string \<Rightarrow> string smap \<Rightarrow> 'k \<Rightarrow> (string + unit) \<times> 'k" where
  "createSecret K cfg buildID files k =
     (case packFiles files of
        Inl err \<Rightarrow> (Inl (''pack source: '' @ err), k)
      | Inr tarball \<Rightarrow>
          (case ka_CreateSecret K (bc_Namespace cfg) (build_secret cfg buildID tarball) k of
             (Inl err, k') \<Rightarrow> if IsAlreadyExists err then (Inr (), k') else (Inl (kerror_text err), k')
           | (Inr _, k') \<Rightarrow> (Inr (), k')))"

definition build_job ::
  "builder_config \<Rightarrow> string \<Rightarrow> application \<Rightarrow> string \<Rightarrow> string \<Rightarrow> job" where
  "build_job cfg buildID app imageRef builderImage =
     (let auth = bc_AuthSecret cfg;
          labels = [(labelManagedBy, labelManagedByVal), (labelBuildID, buildID),
                    (labelApplicationID, a_ID app), (labelAppName, a_Name app)];
          volumes = [(''source'', SecretVolume (secretName buildID) [])] @
            (if auth \<noteq> [] then [(''registry-auth'', SecretVolume auth [(''.dockerconfigjson'', ''config.json'')])]
             else []);
          mounts = [(''source'', ''/source'', False)] @
            (if auth \<noteq> [] then [(''registry-auth'', ''/root/.docker'', True)] else [])
      in \<lparr>job_Name = jobName buildID, job_Namespace = bc_Namespace cfg, job_Labels = labels,
          job_BackoffLimit = 0, job_TTLSecondsAfterFinished = 600, job_PodLabels = labels,
          job_RestartPolicy = ''Never'',
          job_ImagePullSecrets = pullSecretRefs (bc_ImagePullSecrets cfg),
          job_Containers =
            [\<lparr>ct_Name = ''builder'', ct_Image = builderImage, ct_ImagePullPolicy = ''IfNotPresent'',
              ct_Env = [(''IMAGE_REF'', imageRef), (''APPLICATION_NAME'', a_Name app)],
              ct_VolumeMounts = mounts,
              ct_Requests = [(''cpu'', ''200m''), (''memory'', ''256Mi'')],
              ct_Limits = [(''cpu'', ''2''), (''memory'', ''2Gi'')]\<rparr>],
          job_Volumes = volumes\<rparr>)"

definition createJob ::
  "'k kube \<Rightarrow> builder_config \<Rightarrow> string \<Rightarrow> application \<Rightarrow> string \<Rightarrow> string \<Rightarrow> 'k \<Rightarrow> (string + unit) \<times> 'k" where
  "createJob K cfg buildID app imageRef builderImage k =
     (case ka_CreateJob K (bc_Namespace cfg) (build_job cfg buildID app imageRef builderImage) k of
        (Inl err, k') \<Rightarrow> (Inl (kerror_text err), k')
      | (Inr _, k') \<Rightarrow> (Inr (), k'))"

definition fail_build ::
  "'s store_ops \<Rightarrow> time \<Rightarrow> string \<Rightarrow> string \<Rightarrow> ('s, 'k) world \<Rightarrow> ('s, 'k) world" where
  "fail_build S now buildID msg w =
     snd (store_do (UpdateBuildStatus S buildID BuildFailed msg (Some now)) w)"

definition image_ref :: "builder_config \<Rightarrow> string \<Rightarrow> string \<Rightarrow> string" where
  "image_ref cfg appName buildID = bc_RegistryURL cfg @ ''/'' @ appName @ '':'' @ buildID"

definition new_build :: "string \<Rightarrow> string \<Rightarrow> string \<Rightarrow> time \<Rightarrow> build" where
  "new_build buildID appID imageRef now =
     \<lparr>b_ID = buildID, b_ApplicationID = appID, b_ImageRef = imageRef, b_ImageSizeBytes = None,
      b_Status = BuildPending, b_Error = [], b_CreatedAt = now, b_FinishedAt = None\<rparr>"

definition new_watcher :: "string \<Rightarrow> application \<Rightarrow> string \<Rightarrow> time \<Rightarrow> watcher" where
  "new_watcher buildID app imageRef now =
     \<lparr>wt_BuildID = buildID, wt_App = app, wt_ImageRef = imageRef, wt_StartedAt = now,
      wt_Polling = False\<rparr>"

definition spawn :: "watcher \<Rightarrow> ('s, 'k) world \<Rightarrow> ('s, 'k) world" where
  "spawn wt w = w\<lparr>w_watchers := w_watchers w @ [wt]\<rparr>"

definition Start ::
  "'s store_ops \<Rightarrow> 'k kube \<Rightarrow> builder_config \<Rightarrow> time \<Rightarrow> string \<Rightarrow> application \<Rightarrow> build_input list \<Rightarrow>
   ('s, 'k) world \<Rightarrow> (string + build) \<times> ('s, 'k) world" where
  "Start S K cfg now uuid app fns w =
     (case profile cfg (a_Language app) of
        Inl err \<Rightarrow> (Inl err, w)
      | Inr img \<Rightarrow>
          if fns = [] then (Inl ''application has no functions to build'', w)
          else
            let buildID = newID uuid;
                imageRef = image_ref cfg (a_Name app) buildID
            in (case synthesizeSpinToml (a_Language app) (a_Name app) (build_specs fns) of
                  Inl err \<Rightarrow> (Inl err, w)
                | Inr manifest \<Rightarrow>
                    let files = AList.update ''spin.toml'' manifest (build_files fns);
                        bld = new_build buildID (a_ID app) imageRef now
                    in (case store_do (CreateBuild S now bld) w of
                          (Inl err, w1) \<Rightarrow> (Inl (''create build row: '' @ error_text err), w1)
                        | (Inr _, w1) \<Rightarrow>
                            (case kube_do (createSecret K cfg buildID files) w1 of
                               (Inl err, w2) \<Rightarrow>
                                 (Inl err, fail_build S now buildID (''create source secret: '' @ err) w2)
                             | (Inr _, w2) \<Rightarrow>
                                 (case kube_do (createJob K cfg buildID app imageRef img) w2 of
                                    (Inl err, w3) \<Rightarrow>
                                      (Inl err, fail_build S now buildID (''create job: '' @ err) w3)
                                  | (Inr _, w3) \<Rightarrow>
                                      (Inr bld, spawn (new_watcher buildID app imageRef now)
                                                  (count_event BuildsStarted w3)))))))"

section \<open>Logs\<close>

definition first_pod_log ::
  "'k kube \<Rightarrow> builder_config \<Rightarrow> string \<Rightarrow> bool \<Rightarrow> int option \<Rightarrow> 'k \<Rightarrow> kube_error + string option" where
  "first_pod_log K cfg selector follow tailLines k =
     (case ka_ListPods K (bc_Namespace cfg) selector k of
        Inl err \<Rightarrow> Inl err
      | Inr [] \<Rightarrow> Inr None
      | Inr (pod # _) \<Rightarrow>
          (case ka_GetLogs K (bc_Namespace cfg) pod follow tailLines k of
             Inl err \<Rightarrow> Inl err | Inr stream \<Rightarrow> Inr (Some stream)))"

definition PodLogsByLabel ::
  "'k kube \<Rightarrow> builder_config \<Rightarrow> string \<Rightarrow> bool \<Rightarrow> int \<Rightarrow> 'k \<Rightarrow> kube_error + string option" where
  "PodLogsByLabel K cfg labelSelector follow tailLines k =
     first_pod_log K cfg labelSelector follow (if tailLines > 0 then Some tailLines else None) k"

definition Logs ::
  "'k kube \<Rightarrow> builder_config \<Rightarrow> string \<Rightarrow> bool \<Rightarrow> 'k \<Rightarrow> kube_error + string option" where
  "Logs K cfg buildID follow k =
     first_pod_log K cfg (labelBuildID @ ''='' @ buildID) follow None k"

text \<open>
  \<^verbatim>\<open>bufio.Scanner\<close> over lines with a buffer of at most 1 MiB: a final newline ends the last line,
  a carriage return before the newline is dropped, and a line that does not fit ends the scan.
\<close>

definition scan_limit :: nat where "scan_limit = 1048576"

definition drop_cr :: "string \<Rightarrow> string" where
  "drop_cr l = (if l \<noteq> [] \<and> last l = CHR 0x0D then butlast l else l)"

definition scan_lines :: "string \<Rightarrow> string list" where
  "scan_lines s =
     (let ls = split_on (CHR 0x0A) s;
          ls' = (if last ls = [] then butlast ls else ls)
      in map drop_cr (takeWhile (\<lambda>l. length l < scan_limit) ls'))"

definition sizeMarker :: string where "sizeMarker = ''SPINUP_IMAGE_SIZE_BYTES=''"

fun find_size :: "string list \<Rightarrow> int option" where
  "find_size [] = None"
| "find_size (line # ls) =
     (if \<not> HasPrefix line sizeMarker then find_size ls
      else case ParseInt (TrimSpace (TrimPrefix line sizeMarker)) of
             Some n \<Rightarrow> if n > 0 then Some n else find_size ls
           | None \<Rightarrow> find_size ls)"

definition extractImageSize :: "'k kube \<Rightarrow> builder_config \<Rightarrow> string \<Rightarrow> 'k \<Rightarrow> int option" where
  "extractImageSize K cfg buildID k =
     (case Logs K cfg buildID False k of
        Inr (Some stream) \<Rightarrow> find_size (scan_lines stream)
      | _ \<Rightarrow> None)"

section \<open>Watching a build\<close>

definition recordFinish :: "string \<Rightarrow> ('s, 'k) world \<Rightarrow> ('s, 'k) world" where
  "recordFinish outcome w = count_event (BuildsFinished outcome) w"

text \<open>The first step of \<^verbatim>\<open>watch\<close>: mark the build running, whatever the store answers.\<close>

definition watch_begin :: "'s store_ops \<Rightarrow> watcher \<Rightarrow> ('s, 'k) world \<Rightarrow> ('s, 'k) world" where
  "watch_begin S wt w = snd (store_do (UpdateBuildStatus S (wt_BuildID wt) BuildRunning [] None) w)"

text \<open>The condition that is polled, every 3 s for at most 15 min, the first time at once.\<close>

definition job_condition ::
  "'k kube \<Rightarrow> builder_config \<Rightarrow> string \<Rightarrow> 'k \<Rightarrow> kube_error + job_status option" where
  "job_condition K cfg buildID k =
     (case ka_GetJob K (bc_Namespace cfg) (jobName buildID) k of
        Inl err \<Rightarrow> Inl err
      | Inr job \<Rightarrow> if js_Succeeded job > 0 then Inr (Some job)
                   else if js_Failed job > 0 then Inr (Some job) else Inr None)"

definition watch_poll ::
  "'k kube \<Rightarrow> builder_config \<Rightarrow> watcher \<Rightarrow> ('s, 'k) world \<Rightarrow> (poll_error + job_status) \<times> ('s, 'k) world"
  where
  "watch_poll K cfg wt w =
     kube_do (ka_Poll K (3 * second) (15 * minute) True (job_condition K cfg (wt_BuildID wt))) w"

fun failure_message :: "(string \<times> string) list \<Rightarrow> string" where
  "failure_message [] = ''job failed''"
| "failure_message ((type, msg) # conds) =
     (if type = ''Failed'' \<and> msg \<noteq> [] then msg else failure_message conds)"

definition finish ::
  "'s store_ops \<Rightarrow> time \<Rightarrow> string \<Rightarrow> build_status \<Rightarrow> string \<Rightarrow> ('s, 'k) world \<Rightarrow> ('s, 'k) world" where
  "finish S now buildID st msg w = snd (store_do (UpdateBuildStatus S buildID st msg (Some now)) w)"

definition store_size ::
  "'s store_ops \<Rightarrow> 'k kube \<Rightarrow> builder_config \<Rightarrow> string \<Rightarrow> ('s, 'k) world \<Rightarrow> ('s, 'k) world" where
  "store_size S K cfg buildID w =
     (case extractImageSize K cfg buildID (w_kube w) of
        None \<Rightarrow> w | Some n \<Rightarrow> snd (store_do (UpdateBuildImageSize S buildID n) w))"

text \<open>The rest of \<^verbatim>\<open>watch\<close> on the outcome of the poll, and the deferred duration.\<close>

definition watch_outcome ::
  "'s store_ops \<Rightarrow> 'q quantity_ops \<Rightarrow> 'k kube \<Rightarrow> builder_config \<Rightarrow> time \<Rightarrow> watcher \<Rightarrow>
   poll_error + job_status \<Rightarrow> ('s, 'k) world \<Rightarrow> ('s, 'k) world" where
  "watch_outcome S Q K cfg now wt polled w =
     (case polled of
        Inl e \<Rightarrow>
          let msg = (case e of DeadlineExceeded \<Rightarrow> ''build timed out after 15m''
                             | PollError err \<Rightarrow> kerror_text err)
          in recordFinish ''failed'' (finish S now (wt_BuildID wt) BuildFailed msg w)
      | Inr job \<Rightarrow>
          if js_Failed job > 0
          then recordFinish ''failed''
                 (finish S now (wt_BuildID wt) BuildFailed (failure_message (js_Conditions job)) w)
          else
            let w1 = store_size S K cfg (wt_BuildID wt) w
            in if a_Runtime (wt_App wt) = RuntimeWorkerPool
               then recordFinish ''succeeded''
                      (count_event DeploysApplied (finish S now (wt_BuildID wt) BuildSucceeded [] w1))
               else
                 (case kube_do (deploy_Deploy Q K (bc_Deployer cfg)
                          \<lparr>dr_App = wt_App wt, dr_Image = wt_ImageRef wt, dr_Replicas = 1\<rparr>) w1 of
                    (Inl err, w2) \<Rightarrow>
                      recordFinish ''failed'' (finish S now (wt_BuildID wt) BuildFailed (''deploy: '' @ err) w2)
                  | (Inr _, w2) \<Rightarrow>
                      recordFinish ''succeeded''
                        (count_event DeploysApplied (finish S now (wt_BuildID wt) BuildSucceeded [] w2))))"

definition watch_end ::
  "'s store_ops \<Rightarrow> 'q quantity_ops \<Rightarrow> 'k kube \<Rightarrow> builder_config \<Rightarrow> time \<Rightarrow> watcher \<Rightarrow> ('s, 'k) world \<Rightarrow>
   ('s, 'k) world" where
  "watch_end S Q K cfg now wt w =
     (case watch_poll K cfg wt w of
        (polled, w1) \<Rightarrow>
          count_event (BuildDuration (time_sub now (wt_StartedAt wt)))
            (watch_outcome S Q K cfg now wt polled w1))"


section \<open>The life of a build\<close>

text \<open>
  The steps of a running process that concern builds: a build starts, a watcher marks its build
  running, a watcher acts on the outcome of its poll (any outcome), another call reaches the
  store, or the cluster moves on. The identifiers that \<^verbatim>\<open>newID\<close> makes are not in use.
\<close>

fun touches_builds :: "store_call \<Rightarrow> bool" where
  "touches_builds (CallCreateBuild now b) = True"
| "touches_builds (CallUpdateBuildStatus i st e fin) = True"
| "touches_builds (CallUpdateBuildImageSize i n) = True"
| "touches_builds _ = False"

definition begin_at :: "'s store_ops \<Rightarrow> nat \<Rightarrow> ('s, 'k) world \<Rightarrow> ('s, 'k) world" where
  "begin_at S n w =
     (let wt = w_watchers w ! n
      in (watch_begin S wt w)\<lparr>w_watchers := (w_watchers w)[n := wt\<lparr>wt_Polling := True\<rparr>]\<rparr>)"

definition end_at ::
  "'s store_ops \<Rightarrow> 'q quantity_ops \<Rightarrow> 'k kube \<Rightarrow> builder_config \<Rightarrow> time \<Rightarrow> nat \<Rightarrow> poll_error + job_status \<Rightarrow>
   ('s, 'k) world \<Rightarrow> ('s, 'k) world" where
  "end_at S Q K cfg now n polled w =
     (let wt = w_watchers w ! n
      in (count_event (BuildDuration (time_sub now (wt_StartedAt wt)))
            (watch_outcome S Q K cfg now wt polled w))
           \<lparr>w_watchers := take n (w_watchers w) @ drop (Suc n) (w_watchers w)\<rparr>)"

inductive builder_step ::
  "'s store_ops \<Rightarrow> 'q quantity_ops \<Rightarrow> 'k kube \<Rightarrow> builder_config \<Rightarrow> ('s, 'k) world \<Rightarrow> ('s, 'k) world \<Rightarrow> bool"
  for S Q K cfg where
  step_start: "newID uuid \<notin> wt_BuildID ` set (w_watchers w) \<Longrightarrow>
    builder_step S Q K cfg w (snd (Start S K cfg now uuid app fns w))"
| step_begin: "n < length (w_watchers w) \<Longrightarrow> \<not> wt_Polling (w_watchers w ! n) \<Longrightarrow>
    builder_step S Q K cfg w (begin_at S n w)"
| step_end: "n < length (w_watchers w) \<Longrightarrow> wt_Polling (w_watchers w ! n) \<Longrightarrow>
    builder_step S Q K cfg w (end_at S Q K cfg now n polled w)"
| step_call: "\<not> touches_builds c \<Longrightarrow> builder_step S Q K cfg w (snd (store_do (exec_call S c) w))"
| step_cluster: "builder_step S Q K cfg w (w\<lparr>w_kube := k\<rparr>)"

inductive_cases builder_stepE: "builder_step S Q K cfg w w'"

definition build_over :: "build \<Rightarrow> bool" where
  "build_over b \<longleftrightarrow>
     b_FinishedAt b \<noteq> None \<and> (b_Status b = BuildFailed \<or> b_Status b = BuildSucceeded \<and> b_Error b = [])"

definition build_going :: "bool \<Rightarrow> build \<Rightarrow> bool" where
  "build_going polling b \<longleftrightarrow>
     b_Status b = (if polling then BuildRunning else BuildPending) \<and> b_FinishedAt b = None \<and> b_Error b = []"

definition watched :: "watcher list \<Rightarrow> build \<Rightarrow> bool" where
  "watched ws b \<longleftrightarrow>
     (case by_key wt_BuildID ws (b_ID b) of
        None \<Rightarrow> build_over b
      | Some wt \<Rightarrow> build_going (wt_Polling wt) b)"

definition builds_inv :: "(string \<rightharpoonup> build) \<Rightarrow> watcher list \<Rightarrow> bool" where
  "builds_inv B ws \<longleftrightarrow>
     distinct (map wt_BuildID ws) \<and> (\<forall>i b. B i = Some b \<longrightarrow> b_ID b = i \<and> watched ws b)"

text \<open>How the stored builds may change in a step.\<close>

definition status_moves :: "(build_status \<times> build_status) set" where
  "status_moves = {(BuildPending, BuildRunning), (BuildRunning, BuildSucceeded), (BuildRunning, BuildFailed)}"

definition builds_move :: "(string \<rightharpoonup> build) \<Rightarrow> (string \<rightharpoonup> build) \<Rightarrow> bool" where
  "builds_move B B' \<longleftrightarrow>
     (\<forall>i b b'. B i = Some b \<longrightarrow> B' i = Some b' \<longrightarrow>
        b' = b \<or> (b_Status b, b_Status b') \<in> status_moves)"

lemma status_moves_less: "(x, y) \<in> status_moves \<Longrightarrow> x < y"
  by (auto simp: status_moves_def less_build_status_def)

text \<open>A status never goes back, and one that is final never changes.\<close>

lemma builds_move_mono:
  assumes "builds_move B B'" "B i = Some b" "B' i = Some b'"
  shows "b_Status b \<le> b_Status b'"
  using assms status_moves_less unfolding builds_move_def by (metis order.refl order.strict_implies_order)

lemma builds_invD:
  "builds_inv B ws \<Longrightarrow> B i = Some b \<Longrightarrow> b_ID b = i"
  "builds_inv B ws \<Longrightarrow> B i = Some b \<Longrightarrow> watched ws b"
  by (simp_all add: builds_inv_def)

text \<open>Another build is watched as before when only the watcher of \<^term>\<open>i\<close> changes.\<close>

lemma watched_other:
  "by_key wt_BuildID ws' = (by_key wt_BuildID ws)(i := x) \<Longrightarrow> b_ID b \<noteq> i \<Longrightarrow>
   watched ws' b = watched ws b"
  by (simp add: watched_def)

lemma watched_here:
  "by_key wt_BuildID ws i = Some wt \<Longrightarrow> b_ID b = i \<Longrightarrow> watched ws b = build_going (wt_Polling wt) b"
  by (simp add: watched_def)

text \<open>The four ways in which a step changes builds and watchers.\<close>

lemma builds_inv_shrink:
  assumes "builds_inv B ws" "\<And>i b. B' i = Some b \<Longrightarrow> B i = Some b"
  shows "builds_inv B' ws" "builds_move B B'"
  using assms by (auto simp: builds_inv_def builds_move_def)

lemma builds_inv_fail:
  assumes "builds_inv B ws" "B (b_ID b) = None" "by_key wt_BuildID ws (b_ID b) = None" "build_over b"
  shows "builds_inv (B(b_ID b \<mapsto> b)) ws" "builds_move B (B(b_ID b \<mapsto> b))"
  using assms by (auto simp: builds_inv_def watched_def builds_move_def)

lemma builds_inv_start:
  assumes "builds_inv B ws" "B (b_ID b) = None" "by_key wt_BuildID ws (b_ID b) = None"
    "wt_BuildID wt = b_ID b" "\<not> wt_Polling wt" "build_going False b"
  shows "builds_inv (B(b_ID b \<mapsto> b)) (ws @ [wt])" "builds_move B (B(b_ID b \<mapsto> b))"
proof -
  have keys: "by_key wt_BuildID (ws @ [wt]) = (by_key wt_BuildID ws)(b_ID b \<mapsto> wt)"
    using by_key_append [of wt_BuildID ws wt] assms(3,4) by simp
  have "distinct (map wt_BuildID (ws @ [wt]))"
    using assms(1,3,4) by (simp add: builds_inv_def)
  moreover have "watched (ws @ [wt]) c" if "B i = Some c" for i c
    using assms(1,2) that by (auto simp: builds_inv_def watched_def keys)
  ultimately show "builds_inv (B(b_ID b \<mapsto> b)) (ws @ [wt])"
    using assms by (auto simp: builds_inv_def watched_def keys)
  show "builds_move B (B(b_ID b \<mapsto> b))" using assms(2) by (auto simp: builds_move_def)
qed

lemma builds_inv_begin:
  assumes "builds_inv B ws" "n < length ws" "\<not> wt_Polling (ws ! n)" "i = wt_BuildID (ws ! n)"
    "B' = B(i := map_option (\<lambda>b. b\<lparr>b_Status := BuildRunning, b_Error := [], b_FinishedAt := None\<rparr>) (B i))"
  shows "builds_inv B' (ws[n := (ws ! n)\<lparr>wt_Polling := True\<rparr>])" "builds_move B B'"
proof -
  let ?wt = "(ws ! n)\<lparr>wt_Polling := True\<rparr>"
  have d: "distinct (map wt_BuildID ws)" using assms(1) by (simp add: builds_inv_def)
  have keys: "by_key wt_BuildID (ws[n := ?wt]) = (by_key wt_BuildID ws)(i \<mapsto> ?wt)"
    using by_key_list_update [OF d assms(2), of ?wt] assms(4) by simp
  have here: "by_key wt_BuildID ws i = Some (ws ! n)"
    using assms(2,4) by (simp add: by_key_iff [OF d])
  have "map wt_BuildID (ws[n := ?wt]) = map wt_BuildID ws"
    using assms(2) by (simp add: map_update list_update_same_conv)
  with d have d': "distinct (map wt_BuildID (ws[n := ?wt]))" by simp
  have "b_ID b = j \<and> watched (ws[n := ?wt]) b" if Bj: "B' j = Some b" for j b
  proof (cases "j = i")
    case True
    then obtain c where "B i = Some c"
      "b = c\<lparr>b_Status := BuildRunning, b_Error := [], b_FinishedAt := None\<rparr>"
      using Bj assms(5) by auto
    with True builds_invD(1) [OF assms(1)] show ?thesis
      by (simp add: watched_def keys build_going_def)
  next
    case False
    with Bj assms(5) have "B j = Some b" by simp
    with False builds_invD [OF assms(1)] watched_other [OF keys, of b] show ?thesis by simp
  qed
  with d' show "builds_inv B' (ws[n := ?wt])" by (simp add: builds_inv_def)
  have "b_Status b = BuildPending" if "B i = Some b" for b
    using builds_invD [OF assms(1) that] assms(3) watched_here [OF here, of b]
    by (simp add: build_going_def)
  then show "builds_move B B'" by (auto simp: builds_move_def assms(5) status_moves_def)
qed

lemma builds_inv_end:
  assumes "builds_inv B ws" "n < length ws" "wt_Polling (ws ! n)" "i = wt_BuildID (ws ! n)"
    "B' = B(i := map_option g (B i))" "\<And>b. b_ID (g b) = b_ID b" "\<And>b. build_over (g b)"
  shows "builds_inv B' (take n ws @ drop (Suc n) ws)" "builds_move B B'"
proof -
  have d: "distinct (map wt_BuildID ws)" using assms(1) by (simp add: builds_inv_def)
  have keys: "by_key wt_BuildID (take n ws @ drop (Suc n) ws) = (by_key wt_BuildID ws)(i := None)"
    using by_key_remove_nth [OF d assms(2)] assms(4) by simp
  have here: "by_key wt_BuildID ws i = Some (ws ! n)"
    using assms(2,4) by (simp add: by_key_iff [OF d])
  have "b_ID b = j \<and> watched (take n ws @ drop (Suc n) ws) b" if Bj: "B' j = Some b" for j b
  proof (cases "j = i")
    case True
    then obtain c where "B i = Some c" "b = g c" using Bj assms(5) by auto
    with True builds_invD(1) [OF assms(1)] assms(6,7) show ?thesis
      by (simp add: watched_def keys)
  next
    case False
    with Bj assms(5) have "B j = Some b" by simp
    with False builds_invD [OF assms(1)] watched_other [OF keys, of b] show ?thesis by simp
  qed
  with by_key_others(3) [OF d assms(2)] show "builds_inv B' (take n ws @ drop (Suc n) ws)"
    by (simp add: builds_inv_def)
  have "b_Status b = BuildRunning" if "B i = Some b" for b
    using builds_invD [OF assms(1) that] assms(3) watched_here [OF here, of b]
    by (simp add: build_going_def)
  moreover have "b_Status (g b) = BuildFailed \<or> b_Status (g b) = BuildSucceeded" for b
    using assms(7) [of b] by (auto simp: build_over_def)
  ultimately show "builds_move B B'" by (fastforce simp: builds_move_def assms(5) status_moves_def)
qed


lemma store_do_simps [simp]:
  "w_store (snd (store_do f w)) = snd (f (w_store w))"
  "w_kube (snd (store_do f w)) = w_kube w"
  "w_metrics (snd (store_do f w)) = w_metrics w"
  "w_watchers (snd (store_do f w)) = w_watchers w"
  "fst (store_do f w) = fst (f (w_store w))"
  by (simp_all add: store_do_def split: prod.split)

lemma kube_do_simps [simp]:
  "w_store (snd (kube_do g w)) = w_store w"
  "w_metrics (snd (kube_do g w)) = w_metrics w"
  "w_watchers (snd (kube_do g w)) = w_watchers w"
  by (simp_all add: kube_do_def split: prod.split)

lemma world_simps [simp]:
  "w_store (count_event e w) = w_store w" "w_watchers (count_event e w) = w_watchers w"
  "w_kube (count_event e w) = w_kube w" "w_store (spawn wt w) = w_store w"
  "w_watchers (spawn wt w) = w_watchers w @ [wt]"
  "w_store (recordFinish r w) = w_store w" "w_watchers (recordFinish r w) = w_watchers w"
  by (simp_all add: count_event_def spawn_def recordFinish_def)

lemma Start_cases:
  obtains (unchanged) "w_store (snd (Start S K cfg now uuid app fns w)) = w_store w"
      "w_watchers (snd (Start S K cfg now uuid app fns w)) = w_watchers w"
    | (not_created) ref e s1 where
      "CreateBuild S now (new_build (newID uuid) (a_ID app) ref now) (w_store w) = (Inl e, s1)"
      "w_store (snd (Start S K cfg now uuid app fns w)) = s1"
      "w_watchers (snd (Start S K cfg now uuid app fns w)) = w_watchers w"
    | (failed) ref s1 msg where
      "CreateBuild S now (new_build (newID uuid) (a_ID app) ref now) (w_store w) = (Inr (), s1)"
      "w_store (snd (Start S K cfg now uuid app fns w)) =
         snd (UpdateBuildStatus S (newID uuid) BuildFailed msg (Some now) s1)"
      "w_watchers (snd (Start S K cfg now uuid app fns w)) = w_watchers w"
    | (started) ref s1 where
      "CreateBuild S now (new_build (newID uuid) (a_ID app) ref now) (w_store w) = (Inr (), s1)"
      "w_store (snd (Start S K cfg now uuid app fns w)) = s1"
      "w_watchers (snd (Start S K cfg now uuid app fns w)) =
         w_watchers w @ [new_watcher (newID uuid) app ref now]"
proof -
  let ?ref = "image_ref cfg (a_Name app) (newID uuid)"
  let ?bld = "new_build (newID uuid) (a_ID app) ?ref now"
  obtain r s1 where cb: "CreateBuild S now ?bld (w_store w) = (r, s1)" by fastforce
  then have do1: "store_do (CreateBuild S now ?bld) w = (r, w\<lparr>w_store := s1\<rparr>)"
    by (simp add: store_do_def)
  show thesis
  proof (cases "is_ok (profile cfg (a_Language app)) \<and> fns \<noteq> []")
    case False
    then show ?thesis
      by (intro unchanged) (auto simp: Start_def is_ok_iff split: sum.split)
  next
    case True
    then obtain img manifest where prof: "profile cfg (a_Language app) = Inr img" "fns \<noteq> []"
      and man: "synthesizeSpinToml (a_Language app) (a_Name app) (build_specs fns) = Inr manifest"
      by (auto simp: is_ok_iff synthesizeSpinToml_def build_specs_def Let_def)
    define files where "files = AList.update ''spin.toml'' manifest (build_files fns)"
    obtain r2 w2 where sec: "kube_do (createSecret K cfg (newID uuid) files) (w\<lparr>w_store := s1\<rparr>) = (r2, w2)"
      by fastforce
    then have w2: "w_store w2 = s1" "w_watchers w2 = w_watchers w"
      using kube_do_simps(1,3) [of "createSecret K cfg (newID uuid) files" "w\<lparr>w_store := s1\<rparr>"] by auto
    obtain r3 w3 where job: "kube_do (createJob K cfg (newID uuid) app ?ref img) w2 = (r3, w3)"
      by fastforce
    then have w3: "w_store w3 = s1" "w_watchers w3 = w_watchers w"
      using kube_do_simps(1,3) [of "createJob K cfg (newID uuid) app ?ref img" w2] w2 by auto
    note eqs = Start_def prof man Let_def do1 sec [unfolded files_def] job
    show ?thesis
    proof (cases r)
      case (Inl e)
      show ?thesis by (rule not_created [of ?ref e s1]) (simp_all add: cb eqs Inl)
    next
      case r: (Inr u)
      show ?thesis
      proof (cases r2)
        case (Inl e)
        show ?thesis
          by (rule failed [of ?ref s1 "''create source secret: '' @ e"])
            (simp_all add: cb eqs r Inl fail_build_def w2)
      next
        case r2: (Inr u)
        show ?thesis
        proof (cases r3)
          case (Inl e)
          show ?thesis
            by (rule failed [of ?ref s1 "''create job: '' @ e"])
              (simp_all add: cb eqs r r2 Inl fail_build_def w3)
        next
          case (Inr u)
          show ?thesis by (rule started [of ?ref s1]) (simp_all add: cb eqs r r2 Inr w3)
        qed
      qed
    qed
  qed
qed


lemma watch_outcome_cases:
  obtains s1 st msg where
    "s1 = w_store w \<or> (\<exists>n. s1 = snd (UpdateBuildImageSize S (wt_BuildID wt) n (w_store w)))"
    "st = BuildFailed \<or> st = BuildSucceeded \<and> msg = []"
    "w_store (watch_outcome S Q K cfg now wt polled w) =
       snd (UpdateBuildStatus S (wt_BuildID wt) st msg (Some now) s1)"
    "w_watchers (watch_outcome S Q K cfg now wt polled w) = w_watchers w"
proof -
  let ?w' = "watch_outcome S Q K cfg now wt polled w"
  define w1 where "w1 = store_size S K cfg (wt_BuildID wt) w"
  have w1: "w_store w1 = w_store w \<or>
      (\<exists>n. w_store w1 = snd (UpdateBuildImageSize S (wt_BuildID wt) n (w_store w)))"
    "w_watchers w1 = w_watchers w"
    by (auto simp: w1_def store_size_def split: option.split)
  let ?dep = "kube_do (deploy_Deploy Q K (bc_Deployer cfg)
      \<lparr>dr_App = wt_App wt, dr_Image = wt_ImageRef wt, dr_Replicas = 1\<rparr>) w1"
  obtain r w2 where dep: "?dep = (r, w2)" by fastforce
  have w2: "w_store w2 = w_store w1" "w_watchers w2 = w_watchers w"
    using kube_do_simps(1,3) [of "deploy_Deploy Q K (bc_Deployer cfg)
      \<lparr>dr_App = wt_App wt, dr_Image = wt_ImageRef wt, dr_Replicas = 1\<rparr>" w1] dep w1(2) by simp_all
  note unfolded = watch_outcome_def finish_def Let_def w1_def [symmetric] dep
  show thesis
  proof (cases polled)
    case (Inl e)
    show ?thesis
      by (rule that [of "w_store w" BuildFailed]) (simp_all add: Inl unfolded)
  next
    case (Inr job)
    consider "js_Failed job > 0" | "\<not> js_Failed job > 0" "a_Runtime (wt_App wt) = RuntimeWorkerPool"
      | e where "\<not> js_Failed job > 0" "a_Runtime (wt_App wt) \<noteq> RuntimeWorkerPool" "r = Inl e"
      | st where "\<not> js_Failed job > 0" "a_Runtime (wt_App wt) \<noteq> RuntimeWorkerPool" "r = Inr st"
      by (cases r) auto
    then show ?thesis
    proof cases
      case 1
      then show ?thesis
        by (intro that [of "w_store w" BuildFailed]) (simp_all add: Inr unfolded)
    next
      case 2
      then show ?thesis
        by (intro that [of "w_store w1" BuildSucceeded "[]"]) (simp_all add: Inr unfolded w1)
    next
      case 3
      then show ?thesis
        by (intro that [of "w_store w1" BuildFailed "''deploy: '' @ e"])
          (simp_all add: Inr unfolded w1 w2)
    next
      case 4
      then show ?thesis
        by (intro that [of "w_store w1" BuildSucceeded "[]"]) (simp_all add: Inr unfolded w1 w2)
    qed
  qed
qed

context store_contract begin

lemma create_build_result:
  assumes "inv s" "CreateBuild S now b s = (r, s1)"
  obtains m where "r = Inl m" "s1 = s"
    | "r = Inr ()" "A_blds (abs s) (b_ID b) = None" "inv s1"
      "A_blds (abs s1) = (A_blds (abs s))(b_ID b \<mapsto> stored_build now b)"
proof (cases "can_create_build b (abs s)")
  case True
  then show thesis
    using create_build [OF assms(1) True, of now] assms(2) that(2)
    by (simp add: can_create_build_def)
next
  case False
  then show thesis using create_build_err [OF assms(1) False, of now] assms(2) that(1) by auto
qed

lemma other_call_builds:
  assumes "inv s" "\<not> touches_builds c"
  shows "A_blds (abs (snd (exec_call S c s))) i = Some b \<Longrightarrow> A_blds (abs s) i = Some b"
  using assms(2) unfolding call_refines(2) [OF assms(1)] spec_call_def
  by (cases c) (auto simp: remove_app_def remove_fn_def split: if_splits)

lemma stored_new_build:
  "b_ID (new_build i aid ref now) = i"
  "build_going False (stored_build now (new_build i aid ref now))"
  by (simp_all add: new_build_def build_going_def stored_build_def)

text \<open>Every step of the process keeps the store sound and the builds watched.\<close>

lemma builder_step_keeps:
  assumes "builder_step S Q K cfg w w'" "inv (w_store w)"
    "builds_inv (A_blds (abs (w_store w))) (w_watchers w)"
  shows "inv (w_store w') \<and> builds_inv (A_blds (abs (w_store w'))) (w_watchers w') \<and>
    builds_move (A_blds (abs (w_store w))) (A_blds (abs (w_store w')))"
  using assms(1)
proof (cases rule: builder_step.cases)
  case (step_start uuid now app fns)
  let ?B = "A_blds (abs (w_store w))"
  have fresh: "by_key wt_BuildID (w_watchers w) (newID uuid) = None"
    using step_start(2) by (simp add: by_key_None image_iff) metis
  show ?thesis
  proof (rule Start_cases [of S K cfg now uuid app fns w])
    assume "w_store (snd (Start S K cfg now uuid app fns w)) = w_store w"
      "w_watchers (snd (Start S K cfg now uuid app fns w)) = w_watchers w"
    then show ?thesis using assms(2,3) step_start(1) builds_inv_shrink by simp
  next
    fix ref e s1
    assume st: "CreateBuild S now (new_build (newID uuid) (a_ID app) ref now) (w_store w) = (Inl e, s1)"
      "w_store (snd (Start S K cfg now uuid app fns w)) = s1"
      "w_watchers (snd (Start S K cfg now uuid app fns w)) = w_watchers w"
    then have "s1 = w_store w" by (auto elim: create_build_result [OF assms(2)])
    then show ?thesis using assms(2,3) step_start(1) builds_inv_shrink st by simp
  next
    fix ref s1 msg
    let ?b = "stored_build now (new_build (newID uuid) (a_ID app) ref now)"
    let ?f = "?b\<lparr>b_Status := BuildFailed, b_Error := msg, b_FinishedAt := Some now\<rparr>"
    assume st: "CreateBuild S now (new_build (newID uuid) (a_ID app) ref now) (w_store w) = (Inr (), s1)"
      "w_store (snd (Start S K cfg now uuid app fns w)) =
        snd (UpdateBuildStatus S (newID uuid) BuildFailed msg (Some now) s1)"
      "w_watchers (snd (Start S K cfg now uuid app fns w)) = w_watchers w"
    from st(1) have c: "?B (newID uuid) = None" "inv s1" "A_blds (abs s1) = ?B(newID uuid \<mapsto> ?b)"
      by (auto simp: new_build_def elim: create_build_result [OF assms(2)])
    then have "A_blds (abs (w_store w')) = ?B(newID uuid \<mapsto> ?f)" "inv (w_store w')"
      using update_status [OF c(2), of "newID uuid" BuildFailed msg "Some now"] step_start(1) st(2)
      by simp_all
    then show ?thesis
      using builds_inv_fail [OF assms(3), of ?f] c(1) fresh st(3) step_start(1)
      by (simp add: stored_new_build build_over_def)
  next
    fix ref s1
    let ?b = "stored_build now (new_build (newID uuid) (a_ID app) ref now)"
    assume st: "CreateBuild S now (new_build (newID uuid) (a_ID app) ref now) (w_store w) = (Inr (), s1)"
      "w_store (snd (Start S K cfg now uuid app fns w)) = s1"
      "w_watchers (snd (Start S K cfg now uuid app fns w)) =
        w_watchers w @ [new_watcher (newID uuid) app ref now]"
    from st(1) have c: "?B (newID uuid) = None" "inv s1" "A_blds (abs s1) = ?B(newID uuid \<mapsto> ?b)"
      by (auto simp: new_build_def elim: create_build_result [OF assms(2)])
    then show ?thesis
      using builds_inv_start [OF assms(3), of ?b "new_watcher (newID uuid) app ref now"] fresh st(2,3)
        step_start(1)
      by (simp add: stored_new_build new_watcher_def)
  qed
next
  case (step_begin n)
  let ?i = "wt_BuildID (w_watchers w ! n)"
  note upd = update_status [OF assms(2), of ?i BuildRunning "[]" None]
  show ?thesis
    using builds_inv_begin [OF assms(3) step_begin(2,3) refl refl] upd step_begin(1)
    by (simp add: begin_at_def Let_def watch_begin_def)
next
  case (step_end n now polled)
  let ?wt = "w_watchers w ! n"
  show ?thesis
  proof (rule watch_outcome_cases [of w S ?wt Q K cfg now polled])
    fix s1 st msg
    assume s1: "s1 = w_store w \<or> (\<exists>k. s1 = snd (UpdateBuildImageSize S (wt_BuildID ?wt) k (w_store w)))"
      and st: "st = BuildFailed \<or> st = BuildSucceeded \<and> msg = []"
      and o: "w_store (watch_outcome S Q K cfg now ?wt polled w) =
          snd (UpdateBuildStatus S (wt_BuildID ?wt) st msg (Some now) s1)"
        "w_watchers (watch_outcome S Q K cfg now ?wt polled w) = w_watchers w"
    obtain h where h: "inv s1" "A_blds (abs s1) = (A_blds (abs (w_store w)))
        (wt_BuildID ?wt := map_option h (A_blds (abs (w_store w)) (wt_BuildID ?wt)))"
      "\<And>b. b_ID (h b) = b_ID b"
      using s1
    proof
      assume "s1 = w_store w"
      then show thesis using that [of id] assms(2) by (simp add: option.map_id)
    next
      assume "\<exists>k. s1 = snd (UpdateBuildImageSize S (wt_BuildID ?wt) k (w_store w))"
      then obtain k where "s1 = snd (UpdateBuildImageSize S (wt_BuildID ?wt) k (w_store w))" ..
      then show thesis
        using that [of "\<lambda>b. b\<lparr>b_ImageSizeBytes := Some k\<rparr>"] update_size [OF assms(2), of "wt_BuildID ?wt" k]
        by simp
    qed
    let ?g = "\<lambda>b. (h b)\<lparr>b_Status := st, b_Error := msg, b_FinishedAt := Some now\<rparr>"
    have "A_blds (abs (w_store w')) = (A_blds (abs (w_store w)))
        (wt_BuildID ?wt := map_option ?g (A_blds (abs (w_store w)) (wt_BuildID ?wt)))" "inv (w_store w')"
      using update_status [OF h(1), of "wt_BuildID ?wt" st msg "Some now"] h(2) o step_end(1)
      by (simp_all add: end_at_def Let_def option.map_comp comp_def)
    moreover have "build_over (?g b)" for b using st by (auto simp: build_over_def)
    ultimately show ?thesis
      using builds_inv_end [OF assms(3) step_end(2,3) refl refl, of ?g] h(3) step_end(1)
      by (simp add: end_at_def Let_def)
  qed
next
  case (step_call c)
  then show ?thesis
    using builds_inv_shrink [OF assms(3)] other_call_builds [OF assms(2) step_call(2)]
      call_refines(1) [OF assms(2), of c] by simp
next
  case (step_cluster k)
  then show ?thesis using assms(2,3) builds_inv_shrink by simp
qed

end


section \<open>Properties of the life of a build\<close>

definition fresh_process :: "'k \<Rightarrow> (db, 'k) world" where
  "fresh_process k = \<lparr>w_store = empty_db, w_kube = k, w_metrics = [], w_watchers = []\<rparr>"

lemma reachable_inv:
  assumes "rtranclp (builder_step sqlite_ops Q K cfg) (fresh_process k) w"
  shows "db_inv (w_store w)" "builds_inv (A_blds (abs_db (w_store w))) (w_watchers w)"
proof -
  have "db_inv (w_store w) \<and> builds_inv (A_blds (abs_db (w_store w))) (w_watchers w)"
    using assms
  proof (induction rule: rtranclp_induct)
    case base
    show ?case
      by (simp add: fresh_process_def builds_inv_def empty_astore_def del: abs_db_simps)
  next
    case (step w w')
    then show ?case using sq.builder_step_keeps [OF step.hyps(2)] by blast
  qed
  then show "db_inv (w_store w)" "builds_inv (A_blds (abs_db (w_store w))) (w_watchers w)" by auto
qed



definition example_config :: builder_config where
  "example_config =
     \<lparr>bc_Namespace = ''fns'', bc_GoImage = ''go-img'', bc_JSImage = ''js-img'', bc_TSImage = ''ts-img'',
      bc_RustImage = ''rust-img'', bc_RegistryURL = ''reg'', bc_AuthSecret = [],
      bc_ImagePullSecrets = [], bc_Deployer = example_deployer\<rparr>"

definition example_input :: build_input where
  "example_input =
     \<lparr>bi_Function = \<lparr>f_ID = ''f1'', f_ApplicationID = ''a1'', f_Name = ''default'', f_Route = ''/...'',
                     f_CreatedAt = 0, f_UpdatedAt = 0\<rparr>,
      bi_Source = \<lparr>src_FunctionID = ''f1'', src_Files = [], src_UpdatedAt = 0\<rparr>\<rparr>"

definition example_w1 :: "(db, cluster) world" where
  "example_w1 = snd (store_do (exec_call sqlite_ops (CallCreateApplication 1 example_app))
     (fresh_process empty_cluster))"

definition example_w2 :: "(db, cluster) world" where
  "example_w2 = snd (Start sqlite_ops mem_kube example_config 5 ''b-1'' example_app [example_input]
     example_w1)"

definition example_w3 :: "(db, cluster) world" where
  "example_w3 = begin_at sqlite_ops 0 example_w2"

lemma example_pack: "packFiles [(''spin.toml'', m)] = Inr [archive_entry [(''spin.toml'', m)] ''spin.toml'']"
proof -
  have "\<not> refused ''spin.toml''"
    by (simp add: refused_def archive_name_def clean_elems_def clean_step_def)
  then show ?thesis by (simp add: packFiles_def write_archive_buffer sorted_names_def)
qed

lemma example_stores:
  "t_builds (w_store example_w1) = []" "t_applications (w_store example_w1) = [stored_app 1 example_app]"
  "w_watchers example_w1 = []" "foreign_keys (w_store example_w1)"
  by (simp_all add: example_w1_def fresh_process_def sq_CreateApplication_def empty_db_def Let_def
      stored_app_def example_app_def runtime_defs)

lemma example_w2_facts:
  "t_builds (w_store example_w2) = [new_build ''b1'' ''a1'' ''reg/hello:b1'' 5]"
  "w_watchers example_w2 = [new_watcher ''b1'' example_app ''reg/hello:b1'' 5]"
  "t_applications (w_store example_w2) = [stored_app 1 example_app]"
proof -
  have id: "newID ''b-1'' = ''b1''" by (simp add: newID_def)
  have prof: "profile example_config (a_Language example_app) = Inr ''go-img''"
    by (simp add: profile_def example_config_def example_app_def)
  have specs: "build_specs [example_input] \<noteq> []" "build_files [example_input] = []"
    by (simp_all add: build_specs_def build_files_def function_files_def example_input_def)
  then obtain m where man: "synthesizeSpinToml (a_Language example_app) (a_Name example_app)
      (build_specs [example_input]) = Inr m"
    by (simp add: synthesizeSpinToml_def Let_def)
  have app: "app_exists (a_ID example_app) (w_store example_w1)"
    by (simp add: app_exists_def example_stores)
  note eqs = example_w2_def Start_def id prof man specs Let_def store_do_def kube_do_def
    createSecret_def createJob_def mem_kube_def example_pack sq_CreateBuild_def example_stores app
    new_build_def is_zero_time_def image_ref_def spawn_def
  show "t_builds (w_store example_w2) = [new_build ''b1'' ''a1'' ''reg/hello:b1'' 5]"
    "w_watchers example_w2 = [new_watcher ''b1'' example_app ''reg/hello:b1'' 5]"
    "t_applications (w_store example_w2) = [stored_app 1 example_app]"
    by (simp_all add: eqs zero_time_def) (simp_all add: example_config_def example_app_def)
qed


lemma example_reach:
  "rtranclp (builder_step sqlite_ops digit_quantity mem_kube example_config)
     (fresh_process empty_cluster) example_w2"
  "builder_step sqlite_ops digit_quantity mem_kube example_config example_w2 example_w3"
proof -
  have "builder_step sqlite_ops digit_quantity mem_kube example_config (fresh_process empty_cluster) example_w1"
    unfolding example_w1_def by (rule step_call) simp
  moreover have "builder_step sqlite_ops digit_quantity mem_kube example_config example_w1 example_w2"
    unfolding example_w2_def by (rule step_start) (simp add: example_stores)
  ultimately show "rtranclp (builder_step sqlite_ops digit_quantity mem_kube example_config)
      (fresh_process empty_cluster) example_w2" by (meson rtranclp.simps)
  show "builder_step sqlite_ops digit_quantity mem_kube example_config example_w2 example_w3"
    unfolding example_w3_def by (rule step_begin) (simp_all add: example_w2_facts new_watcher_def)
qed

lemma example_w3_builds:
  "t_builds (w_store example_w3) =
     [(new_build ''b1'' ''a1'' ''reg/hello:b1'' 5)\<lparr>b_Status := BuildRunning\<rparr>]"
  by (simp add: example_w3_def begin_at_def watch_begin_def example_w2_facts sq_UpdateBuildStatus_def
      update_where_def new_build_def new_watcher_def Let_def)




section \<open>What a build ships\<close>

definition tree_name :: "build_input \<Rightarrow> string \<Rightarrow> string" where
  "tree_name fb p = ''functions/'' @ f_Name (bi_Function fb) @ ''/'' @ p"

lemma append_sep_inj:
  "c \<notin> set x \<Longrightarrow> c \<notin> set y \<Longrightarrow> x @ c # p = y @ c # q \<longleftrightarrow> x = y \<and> p = q"
proof (induction x arbitrary: y)
  case Nil
  then show ?case by (cases y) auto
next
  case (Cons a x)
  then show ?case by (cases y) auto
qed

lemma tree_name_inj:
  "CHR ''/'' \<notin> set (f_Name (bi_Function fa)) \<Longrightarrow> CHR ''/'' \<notin> set (f_Name (bi_Function fb)) \<Longrightarrow>
   tree_name fa p = tree_name fb q \<longleftrightarrow> f_Name (bi_Function fa) = f_Name (bi_Function fb) \<and> p = q"
  by (simp add: tree_name_def append_sep_inj)

lemma function_files_map:
  assumes "CHR ''/'' \<notin> set (f_Name (bi_Function fa))" "CHR ''/'' \<notin> set (f_Name (bi_Function fb))"
  shows "map_of (function_files fb) (tree_name fa p) =
    (if f_Name (bi_Function fa) = f_Name (bi_Function fb) then map_of (src_Files (bi_Source fb)) p else None)"
proof -
  have "map_of (map (\<lambda>(q, c). (tree_name fb q, c)) xs) (tree_name fa p) =
    (if f_Name (bi_Function fa) = f_Name (bi_Function fb) then map_of xs p else None)" for xs :: "string smap"
    by (induction xs) (auto simp: tree_name_inj assms)
  moreover have "function_files fb = map (\<lambda>(q, c). (tree_name fb q, c)) (src_Files (bi_Source fb))"
    by (simp add: function_files_def tree_name_def)
  ultimately show ?thesis by simp
qed

lemma map_of_fold_pairs:
  "map_of (fold (\<lambda>(n, c). AList.update n c) xs acc) = map_of acc ++ map_of (rev xs)"
  using map_of_fold_update [of fst snd xs acc] by (simp add: case_prod_unfold)

text \<open>Sources whose functions have different names without slashes, and whose files do not clash.\<close>

definition well_named :: "build_input list \<Rightarrow> bool" where
  "well_named fns \<longleftrightarrow> distinct (map (\<lambda>fb. f_Name (bi_Function fb)) fns) \<and>
     list_all (\<lambda>fb. CHR ''/'' \<notin> set (f_Name (bi_Function fb)) \<and>
                    distinct (map fst (src_Files (bi_Source fb)))) fns"

lemma build_files_snoc: "build_files (fns @ [fb]) =
    fold (\<lambda>(n, c). AList.update n c) (function_files fb) (build_files fns)"
  by (simp add: build_files_def)

lemma build_files_map:
  assumes "well_named fns" "CHR ''/'' \<notin> set (f_Name (bi_Function fa))"
  shows "map_of (build_files fns) (tree_name fa p) =
    (case find (\<lambda>fb. f_Name (bi_Function fb) = f_Name (bi_Function fa)) fns of
       None \<Rightarrow> None | Some fb \<Rightarrow> map_of (src_Files (bi_Source fb)) p)"
  using assms(1)
proof (induction fns rule: rev_induct)
  case Nil
  show ?case by (simp add: build_files_def)
next
  case (snoc fb fns)
  then have fb: "CHR ''/'' \<notin> set (f_Name (bi_Function fb))" "distinct (map fst (src_Files (bi_Source fb)))"
    "well_named fns" "\<forall>x \<in> set fns. f_Name (bi_Function x) \<noteq> f_Name (bi_Function fb)"
    by (auto simp: well_named_def image_iff)
  have "map fst (function_files fb) = map (tree_name fb) (map fst (src_Files (bi_Source fb)))"
    by (simp add: function_files_def tree_name_def case_prod_unfold)
  moreover have "inj_on (tree_name fb) (set (map fst (src_Files (bi_Source fb))))"
    by (simp add: inj_on_def tree_name_def)
  ultimately have "distinct (map fst (function_files fb))"
    using fb(2) by (simp only: distinct_map [of "tree_name fb"])
  then have "map_of (rev (function_files fb)) = map_of (function_files fb)"
    by (metis distinct_rev map_of_inject_set rev_map set_rev)
  then have step: "map_of (build_files (fns @ [fb])) (tree_name fa p) =
      (case map_of (function_files fb) (tree_name fa p) of
         None \<Rightarrow> map_of (build_files fns) (tree_name fa p) | Some c \<Rightarrow> Some c)"
    by (simp add: build_files_snoc map_of_fold_pairs map_add_def)
  show ?case
  proof (cases "f_Name (bi_Function fa) = f_Name (bi_Function fb)")
    case True
    then have "find (\<lambda>x. f_Name (bi_Function x) = f_Name (bi_Function fa)) fns = None"
      using fb(4) by (auto simp: find_None_iff)
    with True show ?thesis
      using snoc.IH [OF fb(3)] step function_files_map [OF assms(2) fb(1), of p]
      by (simp add: find_append split: option.split)
  next
    case False
    then show ?thesis
      using snoc.IH [OF fb(3)] step function_files_map [OF assms(2) fb(1), of p]
      by (simp add: find_append split: option.split)
  qed
qed

lemma build_tree_files:
  assumes "well_named fns" "fb \<in> set fns"
  shows "map_of (AList.update ''spin.toml'' manifest (build_files fns)) ''spin.toml'' = Some manifest \<and>
    map_of (AList.update ''spin.toml'' manifest (build_files fns))
      (''functions/'' @ f_Name (bi_Function fb) @ ''/'' @ p) = map_of (src_Files (bi_Source fb)) p"
proof -
  have slash: "CHR ''/'' \<notin> set (f_Name (bi_Function fb))"
    using assms by (auto simp: well_named_def list_all_iff)
  have "find (\<lambda>x. f_Name (bi_Function x) = f_Name (bi_Function fb)) fns = Some fb"
    by (rule find_unique) (use assms in \<open>auto simp: well_named_def dest: distinct_map_eqD\<close>)
  then show ?thesis
    using build_files_map [OF assms(1) slash, of p] by (simp add: tree_name_def)
qed

text \<open>
  After a build the application is always deployed with one replica, whatever its row says.
\<close>

lemma build_deploys_one_replica:
  "sp_Replicas (deploy_spec Q d \<lparr>dr_App = app, dr_Image = ref, dr_Replicas = 1\<rparr>) = 1"
  by (simp add: deploy_spec_def wanted_replicas_def Let_def)

end
