(* ===== verification/Http.thy ===== *)
theory Http
  imports Archive Json_Text
begin

text \<open>
  The part of \<^verbatim>\<open>net/http\<close>, \<^verbatim>\<open>net/url\<close>, \<^verbatim>\<open>encoding/base64\<close> that the
  clients of \<^verbatim>\<open>internal/proxy\<close>, \<^verbatim>\<open>internal/promql\<close> and \<^verbatim>\<open>internal/httpapi/invoke.go\<close> use:
  header keys, query encoding, UTF-8 validity and the base64 round trip. What the network answers
  to a request, and what \<^verbatim>\<open>http.NewRequest\<close> objects to in a method and a URL, are the
  parameter \<open>net\<close>.
\<close>

section \<open>Headers\<close>

type_synonym http_header = "string list smap"

text \<open>The bytes of a header field name (a token of RFC 7230).\<close>

definition is_alpha :: "char \<Rightarrow> bool" where
  "is_alpha c \<longleftrightarrow> (CHR ''a'' \<le> c \<and> c \<le> CHR ''z'') \<or> (CHR ''A'' \<le> c \<and> c \<le> CHR ''Z'')"

definition is_token_char :: "char \<Rightarrow> bool" where
  "is_token_char c \<longleftrightarrow> is_alpha c \<or> is_digit c \<or>
     c \<in> set (''!#$%&*+-.^_|~'' @ [CHR 0x27, CHR 0x60])"

fun canonical_from :: "bool \<Rightarrow> string \<Rightarrow> string" where
  "canonical_from up [] = []"
| "canonical_from up (c # cs) =
     (if up then upper_char c else lower_char c) # canonical_from (c = CHR ''-'') cs"

definition CanonicalHeaderKey :: "string \<Rightarrow> string" where
  "CanonicalHeaderKey k = (if list_all is_token_char k then canonical_from True k else k)"

definition header_values :: "http_header \<Rightarrow> string \<Rightarrow> string list" where
  "header_values h k = (case map_of h (CanonicalHeaderKey k) of None \<Rightarrow> [] | Some vs \<Rightarrow> vs)"

definition header_Add :: "string \<Rightarrow> string \<Rightarrow> http_header \<Rightarrow> http_header" where
  "header_Add k v h = AList.update (CanonicalHeaderKey k) (header_values h k @ [v]) h"

definition header_Get :: "http_header \<Rightarrow> string \<Rightarrow> string" where
  "header_Get h k = (case header_values h k of [] \<Rightarrow> [] | v # _ \<Rightarrow> v)"

text \<open>Two loops over a header: every value of every key, except the keys that \<^term>\<open>skip\<close> names.\<close>

definition copy_headers :: "(string \<Rightarrow> bool) \<Rightarrow> http_header \<Rightarrow> http_header" where
  "copy_headers skip hs =
     fold (\<lambda>(k, vs) h. if skip k then h else fold (header_Add k) vs h) hs []"

section \<open>Queries\<close>

definition upper_hex :: "nat \<Rightarrow> char" where
  "upper_hex n = ''0123456789ABCDEF'' ! n"

definition unreserved :: "char \<Rightarrow> bool" where
  "unreserved c \<longleftrightarrow> is_alpha c \<or> is_digit c \<or> c \<in> set ''-_.~''"

definition escape_char :: "char \<Rightarrow> string" where
  "escape_char c =
     (if unreserved c then [c]
      else if c = CHR '' '' then ''+''
      else [CHR ''%'', upper_hex (of_char c div 16), upper_hex (of_char c mod 16)])"

definition QueryEscape :: "string \<Rightarrow> string" where
  "QueryEscape s = concat (map escape_char s)"

definition query_pairs :: "string list smap \<Rightarrow> (string \<times> string) list" where
  "query_pairs q = concat (map (\<lambda>(k, vs). map (Pair k) vs) (sort_key fst q))"

definition Encode :: "string list smap \<Rightarrow> string" where
  "Encode q = join ''&'' (map (\<lambda>(k, v). QueryEscape k @ ''='' @ QueryEscape v) (query_pairs q))"

section \<open>Requests and answers\<close>

record http_request =
  hr_Method :: string
  hr_URL :: string
  hr_Headers :: http_header
  hr_Body :: string

record http_response =
  rs_Status :: int
  rs_Headers :: http_header
  rs_Body :: string
  rs_Err :: "string option"

text \<open>
  The objection of \<^verbatim>\<open>NewRequest\<close> to a method and a URL, if any; what \<^verbatim>\<open>Do\<close> returns for a
  request; and how long that took.
\<close>

record net =
  nt_NewRequest :: "string \<Rightarrow> string \<Rightarrow> string option"
  nt_Do :: "http_request \<Rightarrow> string + http_response"
  nt_Millis :: int

section \<open>Base64\<close>

lemma b64_decode_last:
  "sextet p = Some a \<Longrightarrow> sextet q = Some b \<Longrightarrow> sextet r = Some c \<Longrightarrow> sextet s = Some d \<Longrightarrow>
   b64_decode (p # q # r # s # rest) =
     map_option ((@) [a * 4 + b div 16, b mod 16 * 16 + c div 4, c mod 4 * 64 + d]) (b64_decode rest)"
  by (cases rest) simp_all

lemma b64_parts:
  "(a::nat) < 256 \<Longrightarrow> a div 4 < 64" "b < 256 \<Longrightarrow> a mod 4 * 16 + b div 16 < (64::nat)"
  "c < 256 \<Longrightarrow> b mod 16 * 4 + c div 64 < (64::nat)" "c mod 64 < (64::nat)"
  by (simp_all add: less_mult_imp_div_less)

lemma b64_back:
  "(b::nat) < 256 \<Longrightarrow> a div 4 * 4 + (a mod 4 * 16 + b div 16) div 16 = a"
  "b < 256 \<Longrightarrow> c < 256 \<Longrightarrow>
     (a mod 4 * 16 + b div 16) mod 16 * 16 + (b mod 16 * 4 + c div 64) div 4 = (b::nat)"
  "c < 256 \<Longrightarrow> (b mod 16 * 4 + c div 64) mod 4 * 64 + c mod 64 = (c::nat)"
proof -
  assume "b < 256"
  then have "b div 16 < 16" by (simp add: less_mult_imp_div_less)
  then show "a div 4 * 4 + (a mod 4 * 16 + b div 16) div 16 = a" by simp
next
  assume "b < 256" "c < 256"
  then have "b div 16 < 16" "c div 64 < 4" by (simp_all add: less_mult_imp_div_less)
  then show "(a mod 4 * 16 + b div 16) mod 16 * 16 + (b mod 16 * 4 + c div 64) div 4 = b" by simp
next
  assume "c < 256"
  then have "c div 64 < 4" by (simp add: less_mult_imp_div_less)
  then show "(b mod 16 * 4 + c div 64) mod 4 * 64 + c mod 64 = c" by simp
qed

lemma b64_decode_groups:
  "list_all (\<lambda>n. n < 256) ns \<Longrightarrow> b64_decode (b64_groups std_alphabet ''='' ns) = Some ns"
proof (induction "std_alphabet" "''=''" ns rule: b64_groups.induct)
  case (2 a)
  then show ?case using b64_parts(1) [of a] b64_parts(2) [of 0 a] b64_back(1) [of 0 a] by simp
next
  case (3 a b)
  then show ?case
    using b64_parts(1) [of a] b64_parts(2) [of b a] b64_parts(3) [of 0 b] b64_back(1) [of b a]
      b64_back(2) [of b 0 a] by simp
next
  case (4 a b c ns)
  then show ?case
    using b64_parts(1) [of a] b64_parts(2) [of b a] b64_parts(3) [of c b] b64_parts(4) [of c]
      b64_back(1) [of b a] b64_back(2) [of b c a] b64_back(3) [of c b]
      less_mult_imp_div_less [of b 16 16]
    by (simp add: b64_decode_last)
qed simp

lemma b64_groups_alphabet:
  "list_all (\<lambda>n. n < 256) ns \<Longrightarrow>
   set (b64_groups std_alphabet ''='' ns) \<subseteq> insert (CHR ''='') ((!) std_alphabet ` {..<64})"
proof (induction "std_alphabet" "''=''" ns rule: b64_groups.induct)
  case (2 a)
  then show ?case using b64_parts(1) [of a] b64_parts(2) [of 0 a] by simp
next
  case (3 a b)
  then show ?case
    using b64_parts(1) [of a] b64_parts(2) [of b a] b64_parts(3) [of 0 b] by simp
next
  case (4 a b c ns)
  then show ?case
    using b64_parts(1) [of a] b64_parts(2) [of b a] b64_parts(3) [of c b] b64_parts(4) [of c]
    by simp
qed simp

lemma bytes_small: "list_all (\<lambda>n. n < 256) (map (of_char :: char \<Rightarrow> nat) s)"
  by (simp add: list_all_iff)

theorem DecodeString_StdEncoding: "DecodeString (StdEncoding s) = Some s"
proof -
  have "\<forall>c \<in> set (StdEncoding s). c \<noteq> CHR 0x0A \<and> c \<noteq> CHR 0x0D"
  proof
    fix c assume "c \<in> set (StdEncoding s)"
    with b64_groups_alphabet [OF bytes_small, of s]
    consider "c = CHR ''=''" | n where "n < 64" "c = std_alphabet ! n"
      unfolding StdEncoding_def by blast
    then show "c \<noteq> CHR 0x0A \<and> c \<noteq> CHR 0x0D"
      by cases simp_all
  qed
  then have "filter (\<lambda>c. c \<noteq> CHR 0x0A \<and> c \<noteq> CHR 0x0D) (StdEncoding s) = StdEncoding s"
    unfolding filter_id_conv .
  then show ?thesis
    by (simp add: DecodeString_def StdEncoding_def b64_decode_groups [OF bytes_small] comp_def)
qed

section \<open>Header keys\<close>

lemma char_less_eq_nat: "c \<le> d \<longleftrightarrow> (of_char c :: nat) \<le> of_char d"
  by (simp add: less_eq_char_def)

lemma lower_upper_char [simp]: "lower_char (upper_char c) = lower_char c"
  by (auto simp: lower_char_def upper_char_def char_less_eq_nat)

lemma lower_lower_char [simp]: "lower_char (lower_char c) = lower_char c"
  by (auto simp: lower_char_def char_less_eq_nat)

lemma ToLower_canonical [simp]: "ToLower (CanonicalHeaderKey k) = ToLower k"
proof -
  have "ToLower (canonical_from up k) = ToLower k" for up
    by (induction up k rule: canonical_from.induct) (auto simp: ToLower_def)
  then show ?thesis by (simp add: CanonicalHeaderKey_def)
qed

lemma keys_header_Add [simp]:
  "fst ` set (header_Add k v h) = insert (CanonicalHeaderKey k) (fst ` set h)"
  unfolding header_Add_def dom_map_of_conv_image_fst [symmetric] by simp

lemma keys_add_values:
  "fst ` set (fold (header_Add k) vs h) \<subseteq> insert (CanonicalHeaderKey k) (fst ` set h)"
proof (induction vs arbitrary: h)
  case (Cons v vs)
  from Cons.IH [of "header_Add k v h"] show ?case by simp
qed auto

definition copy_step :: "(string \<Rightarrow> bool) \<Rightarrow> string \<times> string list \<Rightarrow> http_header \<Rightarrow> http_header" where
  "copy_step skip p h = (if skip (fst p) then h else fold (header_Add (fst p)) (snd p) h)"

lemma keys_copy_step:
  "x \<in> fst ` set (copy_step skip p h) \<Longrightarrow>
   x \<in> fst ` set h \<or> \<not> skip (fst p) \<and> x = CanonicalHeaderKey (fst p)"
  using keys_add_values [of "fst p" "snd p" h] by (auto simp: copy_step_def split: if_splits)

lemma keys_copy_steps:
  "x \<in> fst ` set (fold (copy_step skip) hs h) \<Longrightarrow>
   x \<in> fst ` set h \<or> (\<exists>p \<in> set hs. \<not> skip (fst p) \<and> x = CanonicalHeaderKey (fst p))"
proof (induction hs arbitrary: h)
  case (Cons p hs)
  have "fold (copy_step skip) (p # hs) h = fold (copy_step skip) hs (copy_step skip p h)" by simp
  with Cons.prems Cons.IH [of "copy_step skip p h"] keys_copy_step [of x skip p h]
  show ?case by (metis list.set_intros)
qed simp

lemma keys_copy_headers:
  "x \<in> fst ` set (copy_headers skip hs) \<Longrightarrow>
   \<exists>p \<in> set hs. \<not> skip (fst p) \<and> x = CanonicalHeaderKey (fst p)"
proof -
  have "copy_headers skip hs = fold (copy_step skip) hs []"
    by (simp add: copy_headers_def copy_step_def [abs_def] case_prod_unfold)
  then show "x \<in> fst ` set (copy_headers skip hs) \<Longrightarrow>
      \<exists>p \<in> set hs. \<not> skip (fst p) \<and> x = CanonicalHeaderKey (fst p)"
    using keys_copy_steps [of x skip hs "[]"] by simp
qed

section \<open>Query round trip\<close>

text \<open>What a receiver does: split at \<^verbatim>\<open>&\<close>, cut at the first \<^verbatim>\<open>=\<close>, and unescape.\<close>

definition hex_val :: "char \<Rightarrow> nat option" where
  "hex_val c = index_of c ''0123456789ABCDEF''"

fun QueryUnescape :: "string \<Rightarrow> string option" where
  "QueryUnescape [] = Some []"
| "QueryUnescape (c # cs) =
     (if c = CHR ''+'' then map_option ((#) (CHR '' '')) (QueryUnescape cs)
      else if c = CHR ''%'' then
        (case cs of
           a # b # rest \<Rightarrow>
             (case (hex_val a, hex_val b) of
                (Some x, Some y) \<Rightarrow> map_option ((#) (char_of (16 * x + y))) (QueryUnescape rest)
              | _ \<Rightarrow> None)
         | _ \<Rightarrow> None)
      else map_option ((#) c) (QueryUnescape cs))"

definition parse_pair :: "string \<Rightarrow> (string \<times> string) option" where
  "parse_pair s =
     (case (QueryUnescape (takeWhile (\<lambda>c. c \<noteq> CHR ''='') s),
            QueryUnescape (drop 1 (dropWhile (\<lambda>c. c \<noteq> CHR ''='') s))) of
        (Some k, Some v) \<Rightarrow> Some (k, v)
      | _ \<Rightarrow> None)"

definition ParseQuery :: "string \<Rightarrow> (string \<times> string) option list" where
  "ParseQuery s = (if s = [] then [] else map parse_pair (split_on (CHR ''&'') s))"

lemma hex_val_upper_hex [simp]: "n < 16 \<Longrightarrow> hex_val (upper_hex n) = Some n"
proof -
  have "list_all (\<lambda>n. hex_val (upper_hex n) = Some n) [0..<16]" by code_simp
  then show "n < 16 \<Longrightarrow> hex_val (upper_hex n) = Some n" by (simp add: list_all_iff)
qed

lemma upper_hex_plain [simp]:
  "n < 16 \<Longrightarrow> upper_hex n \<noteq> CHR ''=''" "n < 16 \<Longrightarrow> upper_hex n \<noteq> CHR ''&''"
  "n < 16 \<Longrightarrow> upper_hex n \<noteq> CHR ''#''"
proof -
  have "list_all (\<lambda>n. upper_hex n \<notin> {CHR ''='', CHR ''&'', CHR ''#''}) [0..<16]" by code_simp
  then show "n < 16 \<Longrightarrow> upper_hex n \<noteq> CHR ''=''" "n < 16 \<Longrightarrow> upper_hex n \<noteq> CHR ''&''"
    "n < 16 \<Longrightarrow> upper_hex n \<noteq> CHR ''#''" by (auto simp: list_all_iff)
qed

lemma not_unreserved [simp]:
  "\<not> unreserved (CHR ''+'')" "\<not> unreserved (CHR ''%'')" "\<not> unreserved (CHR ''='')"
  "\<not> unreserved (CHR ''&'')" "\<not> unreserved (CHR ''#'')" "\<not> unreserved (CHR '' '')"
  by (simp_all add: unreserved_def is_alpha_def is_digit_def less_eq_char_def)

lemma byte_halves: "(of_char c :: nat) div 16 < 16" "16 * ((of_char c :: nat) div 16) + of_char c mod 16 = of_char c"
  by (simp_all add: less_mult_imp_div_less)

lemma QueryUnescape_escape: "QueryUnescape (QueryEscape s) = Some s"
proof (induction s)
  case (Cons c s)
  have eq: "QueryEscape (c # s) = escape_char c @ QueryEscape s" by (simp add: QueryEscape_def)
  consider "unreserved c" | "c = CHR '' ''" | "\<not> unreserved c" "c \<noteq> CHR '' ''" by blast
  then show ?case
  proof cases
    case 1
    then have "c \<noteq> CHR ''+''" "c \<noteq> CHR ''%''" by auto
    with 1 Cons show ?thesis by (simp add: eq escape_char_def)
  next
    case 2
    with Cons show ?thesis unfolding eq by (simp add: escape_char_def)
  next
    case 3
    then show ?thesis using byte_halves [of c] Cons by (simp add: eq escape_char_def)
  qed
qed (simp add: QueryEscape_def)

lemma QueryEscape_plain: "x \<in> {CHR ''='', CHR ''&'', CHR ''#''} \<Longrightarrow> x \<notin> set (QueryEscape s)"
proof -
  assume x: "x \<in> {CHR ''='', CHR ''&'', CHR ''#''}"
  have "x \<notin> set (escape_char c)" for c
    using x byte_halves(1) [of c] by (auto simp: escape_char_def dest: sym)
  then show "x \<notin> set (QueryEscape s)" by (auto simp: QueryEscape_def)
qed

lemma parse_pair_escaped: "parse_pair (QueryEscape k @ ''='' @ QueryEscape v) = Some (k, v)"
proof -
  have "\<forall>c \<in> set (QueryEscape k). c \<noteq> CHR ''=''" using QueryEscape_plain [of "CHR ''=''" k] by auto
  then show ?thesis by (simp add: parse_pair_def QueryUnescape_escape)
qed

text \<open>The receiver of an encoded query reads exactly its keys and values; no value can add one.\<close>

theorem ParseQuery_Encode: "ParseQuery (Encode q) = map Some (query_pairs q)"
proof (cases "query_pairs q = []")
  case True
  then show ?thesis by (simp add: Encode_def ParseQuery_def)
next
  case False
  let ?enc = "\<lambda>(k, v). QueryEscape k @ ''='' @ QueryEscape v"
  have plain: "\<forall>s \<in> set (map ?enc (query_pairs q)). CHR ''&'' \<notin> set s"
    using QueryEscape_plain by auto
  have "\<forall>s \<in> set (map ?enc (query_pairs q)). s \<noteq> []" by auto
  with False have "Encode q \<noteq> []"
    using join_eq_Nil [of "''&''" "map ?enc (query_pairs q)"] unfolding Encode_def by blast
  moreover have "split_on (CHR ''&'') (Encode q) = map ?enc (query_pairs q)"
    unfolding Encode_def by (rule split_on_join) (use plain False in auto)
  ultimately show ?thesis
    by (simp add: ParseQuery_def comp_def case_prod_unfold parse_pair_escaped [simplified])
qed

lemma Encode_no_fragment: "CHR ''#'' \<notin> set (Encode q)"
proof -
  have "CHR ''#'' \<notin> set (join ''&'' xs)" if "\<forall>s \<in> set xs. CHR ''#'' \<notin> set s" for xs
    using that by (induction "''&''" xs rule: join.induct) auto
  then show ?thesis unfolding Encode_def using QueryEscape_plain by (auto simp: case_prod_unfold)
qed

end
