(* ===== verification/Proxy.thy ===== *)
theory Proxy
  imports Http
begin

text \<open>
  The client of \<^verbatim>\<open>internal/proxy/proxy.go\<close>, which relays a request to a Service through the
  API server, with the parts that \<^verbatim>\<open>invokeWorker\<close> shares. The client is its \<^verbatim>\<open>baseURL\<close>.
\<close>

section \<open>Requests and responses\<close>

definition MaxRequestBody :: nat where "MaxRequestBody = 1048576"
definition MaxResponseBody :: nat where "MaxResponseBody = 1048576"

lemmas body_limits = MaxRequestBody_def MaxResponseBody_def

record proxy_request =
  px_Namespace :: string
  px_ServiceName :: string
  px_Method :: string
  px_Path :: string
  px_Query :: "string list smap"
  px_Headers :: http_header
  px_Body :: string

record relayed =
  rl_Status :: int
  rl_Headers :: http_header
  rl_Body :: string
  rl_Truncated :: bool
  rl_DurationMs :: int

definition relay_method :: "string \<Rightarrow> string" where
  "relay_method m = (let up = ToUpper m in if up = [] then ''GET'' else up)"

definition relay_path :: "string \<Rightarrow> string" where
  "relay_path p0 =
     (let p = (if p0 = [] then ''/'' else p0) in if \<not> HasPrefix p ''/'' then ''/'' @ p else p)"

definition with_query :: "string \<Rightarrow> string list smap \<Rightarrow> string" where
  "with_query url q = (let e = Encode q in if e \<noteq> [] then url @ ''?'' @ e else url)"

definition skipped_header :: "string \<Rightarrow> bool" where
  "skipped_header k \<longleftrightarrow> ToLower k \<in> {''host'', ''connection'', ''authorization'', ''content-length''}"

text \<open>Read at most one byte more than the limit, to tell a full body from a truncated one.\<close>

definition read_response :: "int \<Rightarrow> http_response \<Rightarrow> string + relayed" where
  "read_response millis resp =
     (case copy_limited (MaxResponseBody + 1) (rs_Body resp) (rs_Err resp) of
        Inl err \<Rightarrow> Inl err
      | Inr buf \<Rightarrow>
          let truncated = length buf > MaxResponseBody
          in Inr \<lparr>rl_Status = rs_Status resp, rl_Headers = rs_Headers resp,
                  rl_Body = (if truncated then take MaxResponseBody buf else buf),
                  rl_Truncated = truncated, rl_DurationMs = millis\<rparr>)"

definition proxy_url :: "string \<Rightarrow> proxy_request \<Rightarrow> string" where
  "proxy_url base inp =
     with_query (base @ ''/api/v1/namespaces/'' @ px_Namespace inp @ ''/services/http:'' @
       px_ServiceName inp @ '':80/proxy'' @ relay_path (px_Path inp)) (px_Query inp)"

definition proxy_http_request :: "string \<Rightarrow> proxy_request \<Rightarrow> http_request" where
  "proxy_http_request base inp =
     \<lparr>hr_Method = relay_method (px_Method inp), hr_URL = proxy_url base inp,
      hr_Headers = copy_headers skipped_header (px_Headers inp), hr_Body = px_Body inp\<rparr>"

definition proxy_Invoke :: "net \<Rightarrow> string \<Rightarrow> proxy_request \<Rightarrow> string + relayed" where
  "proxy_Invoke net base inp =
     (if px_ServiceName inp = [] \<or> px_Namespace inp = []
      then Inl ''namespace and serviceName are required''
      else
        let req = proxy_http_request base inp
        in (case nt_NewRequest net (hr_Method req) (hr_URL req) of
              Some err \<Rightarrow> Inl (''build request: '' @ err)
            | None \<Rightarrow>
                (case nt_Do net req of
                   Inl err \<Rightarrow> Inl (''proxy call: '' @ err)
                 | Inr resp \<Rightarrow>
                     (case read_response (nt_Millis net) resp of
                        Inl err \<Rightarrow> Inl (''read response: '' @ err)
                      | Inr r \<Rightarrow> Inr r))))"

section \<open>What is relayed\<close>

lemma relay_path_rooted: "HasPrefix (relay_path p) ''/''"
  by (cases p) (auto simp: relay_path_def Let_def)

lemma with_query_prefix: "HasPrefix (with_query url q) url"
  by (simp add: with_query_def Let_def)

text \<open>
  The headers that the API server has to set itself never come from the caller, in whatever case
  they are spelled.
\<close>

lemma relayed_headers_clean:
  "x \<in> fst ` set (hr_Headers (proxy_http_request base inp)) \<Longrightarrow> \<not> skipped_header x"
  using keys_copy_headers [of x skipped_header "px_Headers inp"]
  by (auto simp: proxy_http_request_def skipped_header_def)

lemma proxy_url_prefix:
  "HasPrefix (proxy_url base inp) (base @ ''/api/v1/namespaces/'' @ px_Namespace inp @
     ''/services/http:'' @ px_ServiceName inp @ '':80/proxy/'')"
proof -
  obtain p where "relay_path (px_Path inp) = CHR ''/'' # p"
    using relay_path_rooted [of "px_Path inp"] by (auto simp: prefix_def)
  then show ?thesis
    using with_query_prefix by (fastforce simp: proxy_url_def prefix_def with_query_def Let_def)
qed

text \<open>A response body is the first mebibyte of what the service sent, and the flag tells whether it sent more.\<close>

lemma read_response_capped:
  assumes "read_response ms resp = Inr r"
  shows "rl_Body r = take MaxResponseBody (rs_Body resp)" "length (rl_Body r) \<le> MaxResponseBody"
    "rl_Truncated r \<longleftrightarrow> MaxResponseBody < length (rs_Body resp)"
    "rl_Status r = rs_Status resp" "rl_Headers r = rs_Headers resp"
proof -
  obtain buf where buf: "copy_limited (MaxResponseBody + 1) (rs_Body resp) (rs_Err resp) = Inr buf"
    using assms by (auto simp: read_response_def split: sum.splits)
  then have b: "buf = take (MaxResponseBody + 1) (rs_Body resp)"
    by (auto simp: copy_limited_def split: option.splits if_splits)
  have len: "length buf > MaxResponseBody \<longleftrightarrow> MaxResponseBody < length (rs_Body resp)"
    by (auto simp: b min_def)
  have r: "r = \<lparr>rl_Status = rs_Status resp, rl_Headers = rs_Headers resp,
      rl_Body = (if length buf > MaxResponseBody then take MaxResponseBody buf else buf),
      rl_Truncated = length buf > MaxResponseBody, rl_DurationMs = ms\<rparr>"
    using assms by (simp add: read_response_def buf [simplified] Let_def)
  show body: "rl_Body r = take MaxResponseBody (rs_Body resp)"
    using len by (auto simp: r b min_def)
  show "length (rl_Body r) \<le> MaxResponseBody" by (simp add: body)
  show "rl_Truncated r \<longleftrightarrow> MaxResponseBody < length (rs_Body resp)"
    "rl_Status r = rs_Status resp" "rl_Headers r = rs_Headers resp"
    using len by (simp_all add: r)
qed

text \<open>
  The path of the caller is appended as it is. Parent elements in it are not removed: a server
  that cleans the path of such a URL before it looks at it sees another resource.
\<close>

lemma proxy_path_can_leave:
  "path_Clean (proxy_url [] \<lparr>px_Namespace = ''fns'', px_ServiceName = ''hello'', px_Method = [],
     px_Path = ''/../../../secrets'', px_Query = [], px_Headers = [], px_Body = []\<rparr>) =
   ''/api/v1/namespaces/fns/secrets''"
  by (simp add: proxy_url_def with_query_def relay_path_def Encode_def query_pairs_def Let_def
      path_Clean_def clean_elems_def clean_step_def)

end
