(* ===== verification/Promql.thy ===== *)
theory Promql
  imports Http
begin

text \<open>
  The client of \<^verbatim>\<open>internal/promql/client.go\<close>, and \<^verbatim>\<open>time.ParseDuration\<close> that its caller uses.
  A \<^verbatim>\<open>float64\<close> is its bit pattern; \<^verbatim>\<open>strconv.ParseFloat\<close> and the JSON decoder are parameters.
  The client is its base URL.
\<close>

section \<open>Query\<close>

type_synonym float64 = int

record point =
  pt_T :: float64
  pt_V :: float64

text \<open>The elements of a \<^verbatim>\<open>[2]any\<close>, and the decoded body.\<close>

datatype prom_val = PNumber float64 | PString string | POther

record prom_body =
  pb_Status :: string
  pb_Result :: "(prom_val \<times> prom_val) list list"

record prom_lib =
  pl_Decode :: "string \<Rightarrow> string + prom_body"
  pl_ParseFloat :: "string \<Rightarrow> float64 option"

text \<open>
  Decimal text of a whole number and of a number of nanoseconds in seconds (\<^verbatim>\<open>FormatFloat\<close> with
  the shortest exact digits; a \<^verbatim>\<open>float64\<close> holds the values used here to the nanosecond).
\<close>

fun nat_digits :: "nat \<Rightarrow> string" where
  "nat_digits n =
     (if n < 10 then [char_of (48 + n)] else nat_digits (n div 10) @ [char_of (48 + n mod 10)])"

declare nat_digits.simps [simp del]

definition int_text :: "int \<Rightarrow> string" where
  "int_text n = (if n < 0 then ''-'' @ nat_digits (nat (- n)) else nat_digits (nat n))"

definition nano_digits :: "nat \<Rightarrow> string" where
  "nano_digits n = map (\<lambda>i. char_of (48 + n div 10 ^ (8 - i) mod 10)) [0..<9]"

definition seconds_text :: "duration \<Rightarrow> string" where
  "seconds_text d =
     (let frac = TrimRight (\<lambda>c. c = CHR ''0'') (nano_digits (nat (d mod second)))
      in int_text (d div second) @ (if frac = [] then [] else ''.'' @ frac))"

definition unix_text :: "time \<Rightarrow> string" where
  "unix_text t = int_text (t div second)"

definition query_url :: "string \<Rightarrow> string \<Rightarrow> time \<Rightarrow> time \<Rightarrow> duration \<Rightarrow> string" where
  "query_url base query start stop step =
     base @ ''/api/v1/query_range?'' @
     Encode [(''query'', [query]), (''start'', [unix_text start]), (''end'', [unix_text stop]),
             (''step'', [seconds_text step])]"

definition to_point :: "prom_lib \<Rightarrow> prom_val \<times> prom_val \<Rightarrow> point option" where
  "to_point L p =
     (let ts = (case fst p of PNumber f \<Rightarrow> f | _ \<Rightarrow> 0);
          vs = (case snd p of PString s \<Rightarrow> s | _ \<Rightarrow> [])
      in (case pl_ParseFloat L vs of None \<Rightarrow> None | Some v \<Rightarrow> Some \<lparr>pt_T = ts, pt_V = v\<rparr>))"

text \<open>\<^const>\<open>None\<close> in the result is the nil slice.\<close>

definition QueryRange ::
  "net \<Rightarrow> prom_lib \<Rightarrow> string \<Rightarrow> string \<Rightarrow> time \<Rightarrow> time \<Rightarrow> duration \<Rightarrow> string + point list option" where
  "QueryRange net L base query start stop step =
     (if base = [] then Inl ''prometheus URL not configured''
      else
        let url = query_url base query start stop step
        in (case nt_NewRequest net ''GET'' url of
              Some err \<Rightarrow> Inl err
            | None \<Rightarrow>
                (case nt_Do net \<lparr>hr_Method = ''GET'', hr_URL = url, hr_Headers = [], hr_Body = []\<rparr> of
                   Inl err \<Rightarrow> Inl err
                 | Inr res \<Rightarrow>
                     if rs_Status res \<noteq> 200
                     then Inl (''prom '' @ int_text (rs_Status res) @ '' for query '' @ Quote query)
                     else (case pl_Decode L (rs_Body res) of
                             Inl err \<Rightarrow> Inl (''decode prom response: '' @ err)
                           | Inr body \<Rightarrow>
                               if pb_Status body \<noteq> ''success''
                               then Inl (''prom status: '' @ pb_Status body)
                               else (case pb_Result body of
                                       [] \<Rightarrow> Inr None
                                     | raw # _ \<Rightarrow> Inr (Some (List.map_filter (to_point L) raw)))))))"

section \<open>Durations\<close>

text \<open>
  \<^verbatim>\<open>time.ParseDuration\<close>: a sign and then numbers with units. \<^verbatim>\<open>leadingInt\<close> fails exactly when
  the number exceeds 2^63. The fraction is multiplied out exactly where Go rounds in \<^verbatim>\<open>float64\<close>.
\<close>

definition duration_units :: "int smap" where
  "duration_units =
     [(''ns'', 1), (''us'', 1000), ([CHR 0xC2, CHR 0xB5, CHR ''s''], 1000),
      ([CHR 0xCE, CHR 0xBC, CHR ''s''], 1000), (''ms'', 1000000), (''s'', second), (''m'', minute),
      (''h'', hour)]"

fun leading_fraction :: "int \<Rightarrow> int \<Rightarrow> string \<Rightarrow> int \<times> int" where
  "leading_fraction x scale [] = (x, scale)"
| "leading_fraction x scale (c # cs) =
     (if x > (2 ^ 63 - 1) div 10 \<or> x * 10 + digit_val c > 2 ^ 63 then (x, scale)
      else leading_fraction (x * 10 + digit_val c) (scale * 10) cs)"

definition quote_time :: "string \<Rightarrow> string" where
  "quote_time s = [quote_mark] @ concat (map (\<lambda>c.
     if c = quote_mark \<or> c = backslash then [backslash, c]
     else let n = (of_char c :: nat)
          in if n < 0x20 \<or> 0x80 \<le> n
             then [backslash, CHR ''x'', hex_digit (n div 16), hex_digit (n mod 16)] else [c]) s) @ [quote_mark]"

definition invalid_duration :: "string \<Rightarrow> string + 'a" where
  "invalid_duration orig = Inl (''time: invalid duration '' @ quote_time orig)"

text \<open>One turn of the loop: the value of the next number with its unit, and what follows it.\<close>

definition duration_part :: "string \<Rightarrow> string \<Rightarrow> string + int \<times> string" where
  "duration_part orig s =
     (if \<not> (hd s = CHR ''.'' \<or> is_digit (hd s)) then invalid_duration orig
      else
        let ds = takeWhile is_digit s; v = digits_val ds; s1 = dropWhile is_digit s;
            dot = (s1 \<noteq> [] \<and> hd s1 = CHR ''.'');
            fs = (if dot then takeWhile is_digit (tl s1) else []);
            s2 = (if dot then dropWhile is_digit (tl s1) else s1);
            (f, scale) = leading_fraction 0 1 fs;
            u = takeWhile (\<lambda>c. \<not> (c = CHR ''.'' \<or> is_digit c)) s2;
            s3 = dropWhile (\<lambda>c. \<not> (c = CHR ''.'' \<or> is_digit c)) s2
        in if v > 2 ^ 63 \<or> ds = [] \<and> fs = [] then invalid_duration orig
           else if u = [] then Inl (''time: missing unit in duration '' @ quote_time orig)
           else case map_of duration_units u of
             None \<Rightarrow> Inl (''time: unknown unit '' @ quote_time u @ '' in duration '' @ quote_time orig)
           | Some unit \<Rightarrow>
               let n = v * unit + f * unit div scale
               in if v > 2 ^ 63 div unit \<or> f > 0 \<and> n > 2 ^ 63 then invalid_duration orig else Inr (n, s3))"

lemma duration_part_shorter:
  assumes "s \<noteq> []" "duration_part orig s = Inr (n, s3)"
  shows "length s3 < length s"
proof -
  define s1 where "s1 = dropWhile is_digit s"
  define s2 where "s2 = (if s1 \<noteq> [] \<and> hd s1 = CHR ''.'' then dropWhile is_digit (tl s1) else s1)"
  let ?P = "\<lambda>c. \<not> (c = CHR ''.'' \<or> is_digit c)"
  have u: "takeWhile ?P s2 \<noteq> []" and s3: "s3 = dropWhile ?P s2"
    using assms(2)
    by (auto simp: duration_part_def invalid_duration_def Let_def s1_def [symmetric] s2_def
        split: if_splits option.splits prod.splits)
  have "length s2 \<le> length s1"
    by (auto simp: s2_def intro: le_trans [OF length_dropWhile_le])
  also have "\<dots> \<le> length s" unfolding s1_def by (rule length_dropWhile_le)
  finally have "length s2 \<le> length s" .
  moreover have "length s3 < length s2"
    using u s3 by (metis length_append length_greater_0_conv less_add_same_cancel2 takeWhile_dropWhile_id)
  ultimately show ?thesis by simp
qed

function sum_parts :: "string \<Rightarrow> string \<Rightarrow> int \<Rightarrow> string + int" where
  "sum_parts orig s d =
     (if s = [] then Inr d
      else case duration_part orig s of
        Inl err \<Rightarrow> Inl err
      | Inr (n, s') \<Rightarrow>
          let d' = (d + n) mod 2 ^ 64
          in if d' > 2 ^ 63 then invalid_duration orig else sum_parts orig s' d')"
  by pat_completeness auto

termination
  by (relation "measure (\<lambda>(orig, s, d). length s)") (auto simp: duration_part_shorter)

declare sum_parts.simps [simp del]

definition ParseDuration :: "string \<Rightarrow> string + duration" where
  "ParseDuration orig =
     (let signed = (orig \<noteq> [] \<and> (hd orig = CHR ''-'' \<or> hd orig = CHR ''+''));
          neg = (signed \<and> hd orig = CHR ''-'');
          s = (if signed then tl orig else orig)
      in if s = ''0'' then Inr 0
         else if s = [] then invalid_duration orig
         else case sum_parts orig s 0 of
           Inl err \<Rightarrow> Inl err
         | Inr d \<Rightarrow> if neg then Inr (- d) else if d > 2 ^ 63 - 1 then invalid_duration orig else Inr d)"

end
