(* ===== verification/Api.thy ===== *)
theory Api
  imports Builder Proxy Promql
begin

text \<open>
  What the HTTP handlers of \<^verbatim>\<open>internal/httpapi\<close> share: the bodies they answer with, the server
  and the values that a request carries beside its path, the two loaders with their error
  replies, and the rendering of rows (\<^verbatim>\<open>applications.go\<close>, \<^verbatim>\<open>builds.go\<close>, \<^verbatim>\<open>worker_url.go\<close>).

  A request body is the value that decoding it gives, \<^const>\<open>None\<close> when decoding fails. The DTO
  structs \<^verbatim>\<open>variableDTO\<close> and \<^verbatim>\<open>resourcesDTO\<close> have the fields of the records of \<open>Store\<close>.
\<close>

section \<open>Bodies\<close>

record function_dto =
  fd_ID :: string
  fd_Name :: string
  fd_Route :: string

record deployment_vw =
  dv_Image :: string
  dv_ImageSizeBytes :: "int option"
  dv_Replicas :: int
  dv_ObservedReplicas :: int
  dv_UpdatedReplicas :: int
  dv_Ready :: bool
  dv_Progressing :: bool
  dv_Message :: string
  dv_Namespace :: string
  dv_ServiceName :: string
  dv_InternalURL :: string
  dv_PublicURL :: string

record application_dto =
  ad_ID :: string
  ad_Name :: string
  ad_Language :: string
  ad_Runtime :: string
  ad_Description :: string
  ad_Replicas :: int
  ad_Variables :: "variable list"
  ad_Resources :: resources
  ad_Functions :: "function_dto list"
  ad_Deployment :: "deployment_vw option"

record source_dto =
  sd_Files :: "string smap"
  sd_UpdatedAt :: time

record build_dto =
  bd_ID :: string
  bd_Status :: build_status
  bd_ImageRef :: string
  bd_ImageSizeBytes :: "int option"
  bd_Error :: string
  bd_CreatedAt :: time
  bd_FinishedAt :: "time option"

record worker_entry =
  we_ID :: string
  we_Name :: string
  we_Language :: string
  we_ImageRef :: string
  we_Description :: string
  we_Functions :: "(string \<times> string) list"

text \<open>The two durations are rendered by \<^verbatim>\<open>Duration.String\<close>; a series without points is null.\<close>

record metrics_response =
  mr_Range :: duration
  mr_Step :: duration
  mr_Series :: "(string \<times> point list option \<times> string) list"

record invoke_result =
  ir_Status :: int
  ir_Headers :: "string list smap"
  ir_Body :: string
  ir_BodyIsBase64 :: bool
  ir_Truncated :: bool
  ir_DurationMs :: int

text \<open>
  A reply: \<^verbatim>\<open>http.Error\<close>, or a status with a JSON body of some shape, or one of the other kinds
  of contents the handlers write.
\<close>

datatype api_reply =
    HttpError nat string
  | NoContent
  | AppList "application_dto list"
  | OneApp nat application_dto
  | FnList "function_dto list"
  | OneFn nat function_dto
  | DeploymentView deployment_vw
  | OneSource source_dto
  | SourceArchive string tar_entries
  | BuildList "build_dto list"
  | OneBuild nat build_dto
  | LogText string
  | WorkerConfig "worker_entry list"
  | InvokeReply invoke_result
  | MetricsReply metrics_response
  | StatusInfo nat "string smap"

fun reply_status :: "api_reply \<Rightarrow> nat" where
  "reply_status (HttpError n m) = n"
| "reply_status NoContent = 204"
| "reply_status (OneApp n a) = n"
| "reply_status (OneFn n f) = n"
| "reply_status (OneBuild n b) = n"
| "reply_status (StatusInfo n i) = n"
| "reply_status _ = 200"

section \<open>The server\<close>

record ('s, 'k, 'q) server =
  sv_version :: string
  sv_store :: "'s store_ops"
  sv_kube :: "'k kube"
  sv_quantity :: "'q quantity_ops"
  sv_spin_ns :: string
  sv_deployer :: deployer
  sv_builder :: builder_config
  sv_Namespace :: string
  sv_PublicBaseURL :: string
  sv_PublicDomain :: string
  sv_resourcePolicy :: resource_policy
  sv_worker_invokeURL :: string
  sv_worker_uiURL :: string
  sv_proxy :: "string option"
  sv_prom :: "string option"

text \<open>
  The clock reading and the two UUIDs that a request may use, what the network answers while it
  runs, and the decoders of the metrics client.
\<close>

record req_env =
  e_now :: time
  e_uuid :: string
  e_uuid2 :: string
  e_net :: net
  e_prom :: prom_lib

definition defaultTenant :: string where "defaultTenant = ''default''"

section \<open>Guards and loaders\<close>

definition guarded :: "bool \<Rightarrow> ('s, 'k) world \<Rightarrow> api_reply \<times> ('s, 'k) world \<Rightarrow> api_reply \<times> ('s, 'k) world" where
  "guarded authed w r = (if authed then r else (HttpError 401 ''unauthenticated'', w))"

definition loadApplication ::
  "('s, 'k, 'q) server \<Rightarrow> string \<Rightarrow> ('s, 'k) world \<Rightarrow> api_reply + application" where
  "loadApplication sv i w =
     (case GetApplication (sv_store sv) defaultTenant i (w_store w) of
        Inl ErrNotFound \<Rightarrow> Inl (HttpError 404 ''application not found'')
      | Inl (ErrStore m) \<Rightarrow> Inl (HttpError 500 ''internal error'')
      | Inr app \<Rightarrow> Inr app)"

definition loadFunction ::
  "('s, 'k, 'q) server \<Rightarrow> string \<Rightarrow> string \<Rightarrow> ('s, 'k) world \<Rightarrow> api_reply + application \<times> func" where
  "loadFunction sv appID fnID w =
     (case loadApplication sv appID w of
        Inl r \<Rightarrow> Inl r
      | Inr app \<Rightarrow>
          (case GetFunction (sv_store sv) appID fnID (w_store w) of
             Inl ErrNotFound \<Rightarrow> Inl (HttpError 404 ''function not found'')
           | Inl (ErrStore m) \<Rightarrow> Inl (HttpError 500 ''internal error'')
           | Inr fn \<Rightarrow> Inr (app, fn)))"

text \<open>Continue with what a loader or a decoder gives, or answer and leave the world alone.\<close>

definition or_reply ::
  "api_reply + 'a \<Rightarrow> ('s, 'k) world \<Rightarrow> ('a \<Rightarrow> api_reply \<times> ('s, 'k) world) \<Rightarrow> api_reply \<times> ('s, 'k) world" where
  "or_reply r w f = (case r of Inl e \<Rightarrow> (e, w) | Inr a \<Rightarrow> f a)"

definition decoded :: "'a option \<Rightarrow> api_reply + 'a" where
  "decoded b = (case b of None \<Rightarrow> Inl (HttpError 400 ''invalid json'') | Some a \<Rightarrow> Inr a)"

definition internal :: "store_error + 'a \<Rightarrow> api_reply + 'a" where
  "internal r = (case r of Inl e \<Rightarrow> Inl (HttpError 500 ''internal error'') | Inr a \<Rightarrow> Inr a)"

section \<open>Names\<close>

definition lower_alnum :: "char \<Rightarrow> bool" where
  "lower_alnum c \<longleftrightarrow> (CHR ''a'' \<le> c \<and> c \<le> CHR ''z'') \<or> is_digit c"

text \<open>\<^verbatim>\<open>^[a-z0-9]([-a-z0-9]{0,61}[a-z0-9])?$\<close>\<close>

definition dns1123 :: "string \<Rightarrow> bool" where
  "dns1123 s \<longleftrightarrow> s \<noteq> [] \<and> length s \<le> 63 \<and> lower_alnum (hd s) \<and> lower_alnum (last s) \<and>
     list_all (\<lambda>c. lower_alnum c \<or> c = CHR ''-'') s"

definition is_letter :: "char \<Rightarrow> bool" where
  "is_letter c \<longleftrightarrow> (CHR ''a'' \<le> c \<and> c \<le> CHR ''z'') \<or> (CHR ''A'' \<le> c \<and> c \<le> CHR ''Z'') \<or> c = CHR ''_''"

text \<open>\<^verbatim>\<open>^[A-Za-z_][A-Za-z0-9_]*$\<close>\<close>

definition isVariableName :: "string \<Rightarrow> bool" where
  "isVariableName s \<longleftrightarrow> s \<noteq> [] \<and> is_letter (hd s) \<and> list_all (\<lambda>c. is_letter c \<or> is_digit c) s"

lemma dns1123_no_slash: "dns1123 s \<Longrightarrow> CHR ''/'' \<notin> set s"
  by (auto simp: dns1123_def list_all_iff lower_alnum_def is_digit_def less_eq_char_def)

section \<open>Rendering\<close>

definition toFunctionDTO :: "func \<Rightarrow> function_dto" where
  "toFunctionDTO f = \<lparr>fd_ID = f_ID f, fd_Name = f_Name f, fd_Route = f_Route f\<rparr>"

definition toApplicationDTO ::
  "application \<Rightarrow> function_dto list \<Rightarrow> deployment_vw option \<Rightarrow> application_dto" where
  "toApplicationDTO a fns dep =
     \<lparr>ad_ID = a_ID a, ad_Name = a_Name a, ad_Language = a_Language a, ad_Runtime = a_Runtime a,
      ad_Description = a_Description a, ad_Replicas = a_Replicas a,
      ad_Variables = map (\<lambda>v. \<lparr>var_Name = var_Name v, var_Value = var_Value v\<rparr>) (a_Variables a),
      ad_Resources =
        \<lparr>CPURequest = CPURequest (a_Resources a), CPULimit = CPULimit (a_Resources a),
         MemoryRequest = MemoryRequest (a_Resources a), MemoryLimit = MemoryLimit (a_Resources a)\<rparr>,
      ad_Functions = fns, ad_Deployment = dep\<rparr>"

definition toBuildDTO :: "build \<Rightarrow> build_dto" where
  "toBuildDTO b =
     \<lparr>bd_ID = b_ID b, bd_Status = b_Status b, bd_ImageRef = b_ImageRef b,
      bd_ImageSizeBytes = b_ImageSizeBytes b, bd_Error = b_Error b, bd_CreatedAt = b_CreatedAt b,
      bd_FinishedAt = b_FinishedAt b\<rparr>"

definition lookupImageSize ::
  "('s, 'k, 'q) server \<Rightarrow> string \<Rightarrow> string \<Rightarrow> ('s, 'k) world \<Rightarrow> int option" where
  "lookupImageSize sv appID imageRef w =
     (case ListBuilds (sv_store sv) appID 20 (w_store w) of
        Inl _ \<Rightarrow> None
      | Inr builds \<Rightarrow>
          Option.bind (find (\<lambda>b. b_ImageRef b = imageRef \<and> b_ImageSizeBytes b \<noteq> None) builds)
            b_ImageSizeBytes)"

definition buildDeploymentVW ::
  "('s, 'k, 'q) server \<Rightarrow> application \<Rightarrow> spin_status \<Rightarrow> ('s, 'k) world \<Rightarrow> deployment_vw" where
  "buildDeploymentVW sv app st w =
     \<lparr>dv_Image = ss_Image st,
      dv_ImageSizeBytes =
        (if ss_Image st \<noteq> [] then lookupImageSize sv (a_ID app) (ss_Image st) w else None),
      dv_Replicas = ss_Replicas st, dv_ObservedReplicas = ss_ObservedReplicas st,
      dv_UpdatedReplicas = ss_UpdatedReplicas st, dv_Ready = ss_Ready st,
      dv_Progressing = ss_Progressing st, dv_Message = ss_Message st,
      dv_Namespace = sv_Namespace sv, dv_ServiceName = a_Name app,
      dv_InternalURL = ''http://'' @ a_Name app @ ''.'' @ sv_Namespace sv @ ''.svc.cluster.local'',
      dv_PublicURL =
        (if sv_PublicDomain sv \<noteq> [] then ''https://'' @ a_Name app @ ''.'' @ sv_PublicDomain sv
         else if sv_PublicBaseURL sv \<noteq> [] then sv_PublicBaseURL sv @ ''/fn/'' @ a_Name app
         else [])\<rparr>"

definition publicURLForUI :: "('s, 'k, 'q) server \<Rightarrow> string" where
  "publicURLForUI sv = (if sv_worker_uiURL sv \<noteq> [] then sv_worker_uiURL sv else sv_worker_invokeURL sv)"

definition workerInvokeURL :: "string \<Rightarrow> string \<Rightarrow> string" where
  "workerInvokeURL base appName = (if base = [] then [] else base @ ''/apps/'' @ appName)"

text \<open>The first build of a listing, newest first, that succeeded.\<close>

definition latest_success :: "build list \<Rightarrow> build option" where
  "latest_success builds = find (\<lambda>b. b_Status b = BuildSucceeded) builds"

end
