(* ===== verification/Applications.thy ===== *)
theory Applications
  imports Api
begin

text \<open>
  The handlers of \<^verbatim>\<open>internal/httpapi/applications.go\<close>. Each takes the server, whether the
  request carries claims (\<^term>\<open>au\<close>), its path values, its decoded body, and the world.
\<close>

section \<open>Inputs\<close>

record create_application_input =
  ca_Name :: string
  ca_Language :: string
  ca_Runtime :: string
  ca_Description :: string

text \<open>\<^const>\<open>None\<close> is a nil pointer or a nil slice.\<close>

record update_application_input =
  ua_Description :: "string option"
  ua_Replicas :: "int option"
  ua_Variables :: "variable list option"
  ua_Resources :: "resources option"

record deploy_input =
  di_Image :: string
  di_Replicas :: int

section \<open>List and create\<close>

definition listApplications ::
  "('s, 'k, 'q) server \<Rightarrow> bool \<Rightarrow> ('s, 'k) world \<Rightarrow> api_reply \<times> ('s, 'k) world" where
  "listApplications sv au w =
     guarded au w
       (or_reply (internal (ListApplications (sv_store sv) defaultTenant (w_store w))) w (\<lambda>apps.
          (AppList (map (\<lambda>a. toApplicationDTO a [] None) apps), w)))"

definition supported_languages :: "string list" where
  "supported_languages = [''go'', ''js'', ''ts'', ''rust'']"

definition single_quoted :: "string \<Rightarrow> string" where
  "single_quoted s = [CHR 0x27] @ s @ [CHR 0x27]"

definition check_create :: "create_application_input \<Rightarrow> api_reply + runtime" where
  "check_create inp =
     (if \<not> dns1123 (ca_Name inp)
      then Inl (HttpError 400 (''name must be DNS-1123 (lowercase alphanumeric + '' @ single_quoted ''-'' @ '', 1-63 chars)''))
      else if ca_Language inp \<notin> set supported_languages
      then Inl (HttpError 400 ''unsupported language'')
      else
        let runtime = (if ca_Runtime inp = [] then RuntimeSpinKube else ca_Runtime inp)
        in if runtime = RuntimeSpinKube \<or> runtime = RuntimeWorkerPool then Inr runtime
           else Inl (HttpError 400 (''runtime must be '' @ quoted ''spinkube'' @ '' or '' @ quoted ''workerpool'')))"

definition new_application :: "string \<Rightarrow> create_application_input \<Rightarrow> runtime \<Rightarrow> application" where
  "new_application uuid inp runtime =
     \<lparr>a_ID = uuid, a_TenantID = defaultTenant, a_Name = ca_Name inp, a_Language = ca_Language inp,
      a_Runtime = runtime, a_Description = ca_Description inp, a_Replicas = 1, a_Variables = [],
      a_Resources = no_resources, a_CreatedAt = zero_time, a_UpdatedAt = zero_time\<rparr>"

definition default_function :: "string \<Rightarrow> string \<Rightarrow> func" where
  "default_function uuid appID =
     \<lparr>f_ID = uuid, f_ApplicationID = appID, f_Name = ''default'', f_Route = ''/...'',
      f_CreatedAt = zero_time, f_UpdatedAt = zero_time\<rparr>"

text \<open>The reply names the fields it sets; the others keep their zero values.\<close>

definition created_dto :: "application \<Rightarrow> func \<Rightarrow> application_dto" where
  "created_dto app fn =
     \<lparr>ad_ID = a_ID app, ad_Name = a_Name app, ad_Language = a_Language app,
      ad_Runtime = a_Runtime app, ad_Description = a_Description app, ad_Replicas = 0,
      ad_Variables = [], ad_Resources = no_resources, ad_Functions = [toFunctionDTO fn],
      ad_Deployment = None\<rparr>"

definition createApplication ::
  "('s, 'k, 'q) server \<Rightarrow> req_env \<Rightarrow> bool \<Rightarrow> create_application_input option \<Rightarrow> ('s, 'k) world \<Rightarrow>
   api_reply \<times> ('s, 'k) world" where
  "createApplication sv e au body w =
     guarded au w
       (or_reply (decoded body) w (\<lambda>inp.
        or_reply (check_create inp) w (\<lambda>runtime.
          let S = sv_store sv; now = e_now e;
              app = new_application (e_uuid e) inp runtime;
              fn = default_function (e_uuid2 e) (a_ID app)
          in (case store_do (CreateApplication S now app) w of
                (Inl err, w1) \<Rightarrow>
                  (HttpError 500 (''internal error (possibly duplicate name): '' @ error_text err), w1)
              | (Inr _, w1) \<Rightarrow>
                  (case store_do (CreateFunction S now fn) w1 of
                     (Inl err, w2) \<Rightarrow>
                       (HttpError 500 ''internal error'',
                        snd (store_do (DeleteApplication S defaultTenant (a_ID app)) w2))
                   | (Inr _, w2) \<Rightarrow>
                       (OneApp 201 (created_dto app fn), count_event FunctionsCreated w2))))))"

section \<open>Read\<close>

definition workerpool_view :: "('s, 'k, 'q) server \<Rightarrow> application \<Rightarrow> build \<Rightarrow> deployment_vw" where
  "workerpool_view sv app b =
     \<lparr>dv_Image = b_ImageRef b, dv_ImageSizeBytes = None, dv_Replicas = 0, dv_ObservedReplicas = 0,
      dv_UpdatedReplicas = 0, dv_Ready = True, dv_Progressing = False,
      dv_Message = ''served by worker pool on demand'', dv_Namespace = [],
      dv_ServiceName = a_Name app,
      dv_InternalURL = workerInvokeURL (publicURLForUI sv) (a_Name app), dv_PublicURL = []\<rparr>"

definition deployment_of ::
  "('s, 'k, 'q) server \<Rightarrow> application \<Rightarrow> ('s, 'k) world \<Rightarrow> deployment_vw option" where
  "deployment_of sv app w =
     (if a_Runtime app = RuntimeWorkerPool then
        (case ListBuilds (sv_store sv) (a_ID app) 20 (w_store w) of
           Inl _ \<Rightarrow> None
         | Inr builds \<Rightarrow> map_option (workerpool_view sv app) (latest_success builds))
      else
        (case spin_Get (sv_kube sv) (sv_spin_ns sv) (a_Name app) (w_kube w) of
           Inl _ \<Rightarrow> None
         | Inr None \<Rightarrow> None
         | Inr (Some st) \<Rightarrow> Some (buildDeploymentVW sv app st w)))"

definition getApplication ::
  "('s, 'k, 'q) server \<Rightarrow> bool \<Rightarrow> string \<Rightarrow> ('s, 'k) world \<Rightarrow> api_reply \<times> ('s, 'k) world" where
  "getApplication sv au appId w =
     guarded au w
       (or_reply (loadApplication sv appId w) w (\<lambda>app.
        or_reply (internal (ListFunctions (sv_store sv) (a_ID app) (w_store w))) w (\<lambda>fns.
          (OneApp 200 (toApplicationDTO app (map toFunctionDTO fns) (deployment_of sv app w)), w))))"

section \<open>Update\<close>

text \<open>The configuration that a PATCH asks for, checked field by field in the code's order.\<close>

definition patched_config ::
  "('s, 'k, 'q) server \<Rightarrow> application \<Rightarrow> update_application_input \<Rightarrow>
   api_reply + string \<times> int \<times> variable list \<times> resources" where
  "patched_config sv app inp =
     (let desc = (case ua_Description inp of None \<Rightarrow> a_Description app | Some d \<Rightarrow> d);
          replicas = (case ua_Replicas inp of None \<Rightarrow> a_Replicas app | Some n \<Rightarrow> n);
          vars = (case ua_Variables inp of None \<Rightarrow> a_Variables app
                  | Some vs \<Rightarrow> map (\<lambda>v. \<lparr>var_Name = var_Name v, var_Value = var_Value v\<rparr>) vs);
          bad_var = (case ua_Variables inp of None \<Rightarrow> False
                     | Some vs \<Rightarrow> list_ex (\<lambda>v. \<not> isVariableName (var_Name v)) vs);
          res = (case ua_Resources inp of None \<Rightarrow> a_Resources app | Some r \<Rightarrow> r)
      in if replicas < 0 then Inl (HttpError 400 ''replicas must be >= 0'')
         else if bad_var
         then Inl (HttpError 400
                (''variable name must start with a letter or '' @ single_quoted ''_'' @ '' and contain only [A-Za-z0-9_]''))
         else (case Apply (sv_quantity sv) (sv_resourcePolicy sv) res of
                 Inl err \<Rightarrow>
                   if IsPolicyViolation err then Inl (HttpError 400 (policy_text err))
                   else Inl (HttpError 500 ''internal error'')
               | Inr cleaned \<Rightarrow> Inr (desc, replicas, vars, cleaned)))"

text \<open>The cluster follows when the PATCH has a field that it sees and the SpinApp has an image.\<close>

definition reconcile ::
  "('s, 'k, 'q) server \<Rightarrow> application \<Rightarrow> update_application_input \<Rightarrow> ('s, 'k) world \<Rightarrow> ('s, 'k) world" where
  "reconcile sv app inp w =
     (if a_Runtime app \<noteq> RuntimeWorkerPool \<and>
         (ua_Replicas inp \<noteq> None \<or> ua_Variables inp \<noteq> None \<or> ua_Resources inp \<noteq> None)
      then (case spin_Get (sv_kube sv) (sv_spin_ns sv) (a_Name app) (w_kube w) of
              Inr (Some st) \<Rightarrow>
                if ss_Image st \<noteq> []
                then snd (kube_do (deploy_Deploy (sv_quantity sv) (sv_kube sv) (sv_deployer sv)
                       \<lparr>dr_App = app, dr_Image = ss_Image st, dr_Replicas = 0\<rparr>) w)
                else w
            | _ \<Rightarrow> w)
      else w)"

definition updateApplication ::
  "('s, 'k, 'q) server \<Rightarrow> req_env \<Rightarrow> bool \<Rightarrow> string \<Rightarrow> update_application_input option \<Rightarrow> ('s, 'k) world \<Rightarrow>
   api_reply \<times> ('s, 'k) world" where
  "updateApplication sv e au appId body w =
     guarded au w
       (or_reply (loadApplication sv appId w) w (\<lambda>app.
        or_reply (decoded body) w (\<lambda>inp.
        or_reply (patched_config sv app inp) w (\<lambda>(desc, replicas, vars, res).
          (case store_do (UpdateApplicationConfig (sv_store sv) (e_now e) defaultTenant (a_ID app)
                            desc replicas vars res) w of
             (Inl err, w1) \<Rightarrow> (HttpError 500 ''internal error'', w1)
           | (Inr _, w1) \<Rightarrow>
               let app' = app\<lparr>a_Description := desc, a_Replicas := replicas, a_Variables := vars,
                              a_Resources := res\<rparr>;
                   w2 = reconcile sv app' inp w1;
                   fns = (case ListFunctions (sv_store sv) (a_ID app') (w_store w2) of
                            Inl _ \<Rightarrow> [] | Inr fs \<Rightarrow> fs)
               in (OneApp 200 (toApplicationDTO app' (map toFunctionDTO fns) None), w2))))))"

section \<open>Delete and deploy\<close>

definition deleteApplication ::
  "('s, 'k, 'q) server \<Rightarrow> bool \<Rightarrow> string \<Rightarrow> ('s, 'k) world \<Rightarrow> api_reply \<times> ('s, 'k) world" where
  "deleteApplication sv au appId w =
     guarded au w
       (or_reply (loadApplication sv appId w) w (\<lambda>app.
          (case (if a_Runtime app \<noteq> RuntimeWorkerPool
                 then kube_do (deploy_Undeploy (sv_kube sv) (sv_deployer sv) (a_Name app)) w
                 else (Inr (), w)) of
             (Inl err, w1) \<Rightarrow> (HttpError 502 (''undeploy: '' @ err), w1)
           | (Inr _, w1) \<Rightarrow>
               (case store_do (DeleteApplication (sv_store sv) defaultTenant (a_ID app)) w1 of
                  (Inl err, w2) \<Rightarrow> (HttpError 500 ''internal error'', w2)
                | (Inr _, w2) \<Rightarrow> (NoContent, count_event FunctionsDeleted w2)))))"

definition deployApplication ::
  "('s, 'k, 'q) server \<Rightarrow> bool \<Rightarrow> string \<Rightarrow> deploy_input option \<Rightarrow> ('s, 'k) world \<Rightarrow>
   api_reply \<times> ('s, 'k) world" where
  "deployApplication sv au appId body w =
     guarded au w
       (or_reply (loadApplication sv appId w) w (\<lambda>app.
        or_reply (decoded body) w (\<lambda>inp.
          if di_Image inp = [] then (HttpError 400 ''image is required'', w)
          else
            let replicas = (if di_Replicas inp < 1 then 1 else di_Replicas inp)
            in (case kube_do (deploy_Deploy (sv_quantity sv) (sv_kube sv) (sv_deployer sv)
                     \<lparr>dr_App = app, dr_Image = di_Image inp, dr_Replicas = replicas\<rparr>) w of
                  (Inl err, w1) \<Rightarrow> (HttpError 502 err, w1)
                | (Inr st, w1) \<Rightarrow>
                    let w2 = count_event DeploysApplied w1
                    in (DeploymentView (buildDeploymentVW sv app st w2), w2)))))"


section \<open>Over the contract of the store\<close>

lemma guarded_simps [simp]:
  "guarded True w r = r" "guarded False w r = (HttpError 401 ''unauthenticated'', w)"
  by (simp_all add: guarded_def)

lemma or_reply_simps [simp]: "or_reply (Inl r) w f = (r, w)" "or_reply (Inr a) w f = f a"
  by (simp_all add: or_reply_def)

lemma decoded_simps [simp]:
  "decoded None = Inl (HttpError 400 ''invalid json'')" "decoded (Some a) = Inr a"
  by (simp_all add: decoded_def)

lemma internal_simps [simp]:
  "internal (Inl err) = Inl (HttpError 500 ''internal error'')" "internal (Inr a) = Inr a"
  by (simp_all add: internal_def)

text \<open>Handlers answer in the HTTP status range, and a rejected creation is an error reply.\<close>

definition is_error :: "api_reply \<Rightarrow> bool" where
  "is_error r = (case r of HttpError n m \<Rightarrow> 400 \<le> n | _ \<Rightarrow> False)"

lemma is_error_simps [simp]:
  "is_error (HttpError n m) = (400 \<le> n)" "\<not> is_error (OneApp n a)" "\<not> is_error NoContent"
  by (simp_all add: is_error_def)

lemma check_create_Inl: "check_create inp = Inl r \<Longrightarrow> is_error r"
  by (auto simp: check_create_def Let_def split: if_splits)

lemma check_create_Inr:
  "check_create inp = Inr rt \<longleftrightarrow> dns1123 (ca_Name inp) \<and> ca_Language inp \<in> set supported_languages \<and>
     rt \<in> {RuntimeSpinKube, RuntimeWorkerPool} \<and>
     rt = (if ca_Runtime inp = [] then RuntimeSpinKube else ca_Runtime inp)"
  by (auto simp: check_create_def Let_def)

lemma patched_config_Inl: "patched_config sv app inp = Inl r \<Longrightarrow> is_error r"
  by (auto simp: patched_config_def Let_def split: if_splits sum.splits)

lemma remove_app_undo:
  assumes "astore_inv A" "A_apps A i = None"
  shows "remove_app i (A\<lparr>A_apps := (A_apps A)(i \<mapsto> x)\<rparr>) = A"
proof -
  have "\<not> (\<exists>f. A_fns A j = Some f \<and> f_ApplicationID f = i)" for j
    using astore_invD(4) [OF assms(1), of j] assms(2) by fastforce
  moreover have "\<not> (\<exists>b. A_blds A j = Some b \<and> b_ApplicationID b = i)" for j
    using astore_invD(8) [OF assms(1), of j] assms(2) by fastforce
  ultimately show ?thesis
    using assms(2) by (cases A) (auto simp: remove_app_def fun_eq_iff)
qed

lemma deploy_do_frame [simp]:
  "w_store (snd (kube_do g w)) = w_store w" "w_watchers (snd (kube_do g w)) = w_watchers w"
  by simp_all

lemma reconcile_frame [simp]:
  "w_store (reconcile sv app inp w) = w_store w" "w_watchers (reconcile sv app inp w) = w_watchers w"
  by (simp_all add: reconcile_def split: sum.split option.split)

context store_contract begin

lemma loadApplication_contract:
  assumes "inv (w_store w)" "sv_store sv = S"
  shows "loadApplication sv i w =
    (if has_app defaultTenant i (abs (w_store w)) then Inr (the (A_apps (abs (w_store w)) i))
     else Inl (HttpError 404 ''application not found''))"
  using assms by (auto simp: loadApplication_def get_app lookup_def has_app_def split: option.splits)

lemma createApplication_effect:
  assumes "inv (w_store w)" "sv_store sv = S" "createApplication sv e au body w = (r, w')"
  shows "inv (w_store w') \<and> w_kube w' = w_kube w \<and> w_watchers w' = w_watchers w \<and>
    (is_error r \<and> abs (w_store w') = abs (w_store w) \<or>
     (\<exists>inp rt. au \<and> body = Some inp \<and> check_create inp = Inr rt \<and>
        (let A = abs (w_store w); app = new_application (e_uuid e) inp rt;
             fn = default_function (e_uuid2 e) (e_uuid e)
         in r = OneApp 201 (created_dto app fn) \<and> can_create_app app A \<and>
            abs (w_store w') = A\<lparr>A_apps := (A_apps A)(e_uuid e \<mapsto> stored_app (e_now e) app),
                                 A_fns := (A_fns A)(e_uuid2 e \<mapsto> stored_fn (e_now e) fn)\<rparr>)))"
proof (cases "au \<and> (\<exists>inp rt. body = Some inp \<and> check_create inp = Inr rt)")
  case False
  with assms show ?thesis
    by (cases au; cases body; cases "check_create (the body)")
      (auto simp: createApplication_def dest: check_create_Inl)
next
  case True
  then obtain inp rt where au: "au" "body = Some inp" "check_create inp = Inr rt" by blast
  define app where "app = new_application (e_uuid e) inp rt"
  define fn where "fn = default_function (e_uuid2 e) (e_uuid e)"
  have ids: "a_ID app = e_uuid e" "a_TenantID app = defaultTenant" "f_ID fn = e_uuid2 e"
    by (simp_all add: app_def fn_def new_application_def default_function_def)
  let ?A = "abs (w_store w)"
  obtain r1 s1 where c1: "CreateApplication S (e_now e) app (w_store w) = (r1, s1)" by fastforce
  obtain r2 s2 where c2: "CreateFunction S (e_now e) fn s1 = (r2, s2)" by fastforce
  note run = createApplication_def au assms(2) Let_def ids app_def [symmetric]
    fn_def [symmetric] store_do_def c1 c2
  show ?thesis
  proof (cases "can_create_app app ?A")
    case False
    then obtain m where "r1 = Inl (ErrStore m)" "s1 = w_store w"
      using create_app_err [OF assms(1) False, of "e_now e"] c1 by auto
    with assms(1,3) show ?thesis by (auto simp: run)
  next
    case True
    then have A1: "r1 = Inr ()" "inv s1"
      "abs s1 = ?A\<lparr>A_apps := (A_apps ?A)(e_uuid e \<mapsto> stored_app (e_now e) app)\<rparr>"
      using create_app [OF assms(1) True, of "e_now e"] c1 by (simp_all add: ids)
    show ?thesis
    proof (cases "can_create_fn fn (abs s1)")
      case False
      then obtain m where m: "r2 = Inl (ErrStore m)" "s2 = s1"
        using create_fn_err [OF A1(2) False, of "e_now e"] c2 by auto
      have own: "has_app defaultTenant (e_uuid e) (abs s1)" by (simp add: A1(3) has_app_def ids)
      have "A_apps ?A (e_uuid e) = None" using True by (simp add: can_create_app_def ids)
      then have "abs (snd (DeleteApplication S defaultTenant (e_uuid e) s1)) = ?A"
        "inv (snd (DeleteApplication S defaultTenant (e_uuid e) s1))"
        using delete_app [OF A1(2) own] remove_app_undo [OF abs_inv [OF assms(1)]]
        by (simp_all add: A1(3))
      moreover have "r = HttpError 500 ''internal error''"
        "w' = w\<lparr>w_store := snd (DeleteApplication S defaultTenant (e_uuid e) s1)\<rparr>"
        using assms(3) by (auto simp: run A1(1) m split: prod.splits)
      ultimately show ?thesis by simp
    next
      case fn_ok: True
      then have "r2 = Inr ()" "inv s2"
        "abs s2 = (abs s1)\<lparr>A_fns := (A_fns (abs s1))(e_uuid2 e \<mapsto> stored_fn (e_now e) fn)\<rparr>"
        using create_fn [OF A1(2) fn_ok, of "e_now e"] c2 by (simp_all add: ids)
      moreover from this have "r = OneApp 201 (created_dto app fn)"
        "w' = count_event FunctionsCreated (w\<lparr>w_store := s2\<rparr>)"
        using assms(3) by (auto simp: run A1(1))
      ultimately show ?thesis
        using True au by (intro conjI disjI2 exI [of _ inp] exI [of _ rt])
          (simp_all add: app_def [symmetric] fn_def [symmetric] Let_def A1(3))
    qed
  qed
qed

end


lemma reconcile_kube_cong:
  "w_kube w1 = w_kube w2 \<Longrightarrow> w_kube (reconcile sv app inp w1) = w_kube (reconcile sv app inp w2)"
  by (auto simp: reconcile_def kube_do_def split: sum.split option.split prod.split)

definition patched_app ::
  "application \<Rightarrow> string \<times> int \<times> variable list \<times> resources \<Rightarrow> application" where
  "patched_app app c = (case c of (desc, n, vs, res) \<Rightarrow>
     app\<lparr>a_Description := desc, a_Replicas := n, a_Variables := vs, a_Resources := res\<rparr>)"

context store_contract begin

lemma has_app_load:
  assumes "inv (w_store w)" "sv_store sv = S" "loadApplication sv i w = Inr app"
  shows "A_apps (abs (w_store w)) i = Some app" "a_TenantID app = defaultTenant" "a_ID app = i"
    "has_app defaultTenant i (abs (w_store w))"
proof -
  show own: "has_app defaultTenant i (abs (w_store w))"
    using assms by (simp add: loadApplication_contract split: if_splits)
  with assms show a: "A_apps (abs (w_store w)) i = Some app"
    by (auto simp: loadApplication_contract has_app_def)
  show "a_TenantID app = defaultTenant" using own a by (simp add: has_app_def)
  show "a_ID app = i" using astore_invD(1) [OF abs_inv [OF assms(1)] a] .
qed

lemma load_error: "inv (w_store w) \<Longrightarrow> sv_store sv = S \<Longrightarrow> loadApplication sv i w = Inl r \<Longrightarrow> is_error r"
  by (auto simp: loadApplication_contract split: if_splits)

lemma updateApplication_effect:
  assumes "inv (w_store w)" "sv_store sv = S" "updateApplication sv e au appId body w = (r, w')"
  shows "inv (w_store w') \<and> w_watchers w' = w_watchers w \<and>
    (is_error r \<and> w' = w \<or>
     (\<exists>inp app c. au \<and> body = Some inp \<and> A_apps (abs (w_store w)) appId = Some app \<and>
        a_TenantID app = defaultTenant \<and> patched_config sv app inp = Inr c \<and>
        (\<exists>fns. r = OneApp 200 (toApplicationDTO (patched_app app c) fns None)) \<and>
        w_kube w' = w_kube (reconcile sv (patched_app app c) inp w) \<and>
        (case c of (desc, n, vs, res) \<Rightarrow> abs (w_store w') = (abs (w_store w))\<lparr>A_apps :=
           (A_apps (abs (w_store w)))(appId \<mapsto> configured (e_now e) desc n vs res app)\<rparr>)))"
proof (cases "au \<and> (\<exists>app inp c. loadApplication sv appId w = Inr app \<and> body = Some inp \<and>
    patched_config sv app inp = Inr c)")
  case False
  show ?thesis
  proof (cases "au \<and> is_ok (loadApplication sv appId w) \<and> body \<noteq> None")
    case True
    then obtain app inp where "au" "loadApplication sv appId w = Inr app" "body = Some inp"
      by (auto simp: is_ok_iff)
    moreover with False obtain e1 where "patched_config sv app inp = Inl e1"
      by (cases "patched_config sv app inp") auto
    ultimately show ?thesis
      using assms patched_config_Inl by (auto simp: updateApplication_def)
  next
    case False
    with assms load_error show ?thesis
      by (cases au; cases "loadApplication sv appId w"; cases body)
        (auto simp: updateApplication_def)
  qed
next
  case True
  then obtain app inp desc n vs res where in_: "au" "loadApplication sv appId w = Inr app" "body = Some inp"
    "patched_config sv app inp = Inr (desc, n, vs, res)" by fastforce
  note app = has_app_load [OF assms(1,2) in_(2)]
  obtain s1 where upd:
    "UpdateApplicationConfig S (e_now e) defaultTenant appId desc n vs res (w_store w) = (Inr (), s1)"
    "inv s1" "abs s1 = (abs (w_store w))\<lparr>A_apps :=
      (A_apps (abs (w_store w)))(appId \<mapsto> configured (e_now e) desc n vs res app)\<rparr>"
    using update_app [OF assms(1) app(1,2), of "e_now e" desc n vs res] by (metis prod.collapse)
  let ?w2 = "reconcile sv (patched_app app (desc, n, vs, res)) inp (w\<lparr>w_store := s1\<rparr>)"
  let ?fns = "case ListFunctions S appId (w_store ?w2) of Inl _ \<Rightarrow> [] | Inr fs \<Rightarrow> fs"
  have eq: "updateApplication sv e au appId body w =
      (OneApp 200 (toApplicationDTO (patched_app app (desc, n, vs, res)) (map toFunctionDTO ?fns) None), ?w2)"
    by (simp add: updateApplication_def in_ assms(2) app(3) store_do_def upd(1) Let_def patched_app_def)
  from trans [OF assms(3) [symmetric] eq] have w': "w' = ?w2"
    and r: "r = OneApp 200 (toApplicationDTO (patched_app app (desc, n, vs, res)) (map toFunctionDTO ?fns) None)"
    by (simp_all only: prod.inject)
  from r have rx: "\<exists>fns. r = OneApp 200 (toApplicationDTO (patched_app app (desc, n, vs, res)) fns None)"
    by (rule exI)
  have "w_kube ?w2 = w_kube (reconcile sv (patched_app app (desc, n, vs, res)) inp w)"
    by (rule reconcile_kube_cong) simp
  then show ?thesis
    using upd(2,3) in_ app rx w'
    by (intro conjI disjI2 exI [of _ inp] exI [of _ app] exI [of _ "(desc, n, vs, res)"]) simp_all
qed

lemma deleteApplication_effect:
  assumes "inv (w_store w)" "sv_store sv = S" "deleteApplication sv au appId w = (r, w')"
  shows "inv (w_store w') \<and> w_watchers w' = w_watchers w \<and>
    (is_error r \<and> w_store w' = w_store w \<or>
     r = NoContent \<and> au \<and> (\<exists>app. A_apps (abs (w_store w)) appId = Some app \<and>
        a_TenantID app = defaultTenant \<and>
        (if a_Runtime app = RuntimeWorkerPool then w_kube w' = w_kube w
         else deploy_Undeploy (sv_kube sv) (sv_deployer sv) (a_Name app) (w_kube w) = (Inr (), w_kube w')) \<and>
        abs (w_store w') = remove_app appId (abs (w_store w))))"
proof (cases "au \<and> is_ok (loadApplication sv appId w)")
  case False
  with assms load_error show ?thesis
    by (cases au; cases "loadApplication sv appId w") (auto simp: deleteApplication_def)
next
  case True
  then obtain app where in_: "au" "loadApplication sv appId w = Inr app" by (auto simp: is_ok_iff)
  note app = has_app_load [OF assms(1,2) in_(2)]
  obtain s1 where del: "DeleteApplication S defaultTenant appId (w_store w) = (Inr (), s1)"
    "inv s1" "abs s1 = remove_app appId (abs (w_store w))"
    using delete_app [OF assms(1) app(4)] by (metis prod.collapse)
  obtain u k1 where un: "(if a_Runtime app \<noteq> RuntimeWorkerPool
      then deploy_Undeploy (sv_kube sv) (sv_deployer sv) (a_Name app) (w_kube w)
      else (Inr (), w_kube w)) = (u, k1)" by fastforce
  have do: "(if a_Runtime app \<noteq> RuntimeWorkerPool
      then kube_do (deploy_Undeploy (sv_kube sv) (sv_deployer sv) (a_Name app)) w
      else (Inr (), w)) = (u, w\<lparr>w_kube := k1\<rparr>)"
    using un by (auto simp: kube_do_def split: if_splits)
  show ?thesis
  proof (cases u)
    case (Inl err)
    with do assms show ?thesis by (auto simp: deleteApplication_def in_)
  next
    case (Inr x)
    then have "r = NoContent" "w' = count_event FunctionsDeleted (w\<lparr>w_kube := k1, w_store := s1\<rparr>)"
      using assms(3) do by (auto simp: deleteApplication_def in_ assms(2) app(3) store_do_def del(1))
    moreover have "if a_Runtime app = RuntimeWorkerPool then k1 = w_kube w
        else deploy_Undeploy (sv_kube sv) (sv_deployer sv) (a_Name app) (w_kube w) = (Inr (), k1)"
      using un Inr by (simp split: if_splits)
    ultimately show ?thesis using del(2,3) in_ app by simp
  qed
qed

end

section \<open>An example\<close>

definition example_server :: "(db, cluster, int) server" where
  "example_server =
     \<lparr>sv_version = ''v1'', sv_store = sqlite_ops, sv_kube = mem_kube, sv_quantity = digit_quantity,
      sv_spin_ns = ''fns'', sv_deployer = example_deployer, sv_builder = example_config,
      sv_Namespace = ''fns'', sv_PublicBaseURL = [], sv_PublicDomain = ''ex.org'',
      sv_resourcePolicy = example_policy, sv_worker_invokeURL = [], sv_worker_uiURL = [],
      sv_proxy = Some ''https://api'', sv_prom = Some ''http://vm''\<rparr>"

lemma example_server_simps [simp]:
  "sv_store example_server = sqlite_ops" "sv_kube example_server = mem_kube"
  "sv_quantity example_server = digit_quantity" "sv_resourcePolicy example_server = example_policy"
  "sv_deployer example_server = example_deployer" "sv_builder example_server = example_config"
  "sv_spin_ns example_server = ''fns''"
  by (simp_all add: example_server_def)

definition example_net :: net where
  "example_net = \<lparr>nt_NewRequest = (\<lambda>m u. None), nt_Do = (\<lambda>r. Inr \<lparr>rs_Status = 200,
     rs_Headers = [(''Content-Type'', [''text/plain''])], rs_Body = ''hi'', rs_Err = None\<rparr>), nt_Millis = 3\<rparr>"

definition example_env :: req_env where
  "example_env = \<lparr>e_now = 7, e_uuid = ''u-1'', e_uuid2 = ''u-2'', e_net = example_net,
     e_prom = \<lparr>pl_Decode = (\<lambda>s. Inl ''bad''), pl_ParseFloat = (\<lambda>s. None)\<rparr>\<rparr>"

lemma example_env_simps [simp]:
  "e_now example_env = 7" "e_uuid example_env = ''u-1''" "e_uuid2 example_env = ''u-2''"
  "e_net example_env = example_net"
  by (simp_all add: example_env_def)

end
