(* ===== verification/Functions.thy ===== *)
theory Functions
  imports Applications
begin

text \<open>
  The handlers of \<^verbatim>\<open>internal/httpapi/functions.go\<close> and what they do to the abstract store.
  \<^verbatim>\<open>deleteFunction\<close> is split where the code reads the list of functions and where it deletes,
  so that two requests can be interleaved between the check and the deletion.
\<close>

section \<open>Handlers\<close>

record create_function_input =
  cf_Name :: string
  cf_Route :: string

definition default_route :: "create_function_input \<Rightarrow> string" where
  "default_route inp = (if cf_Route inp = [] then ''/'' @ cf_Name inp @ ''/...'' else cf_Route inp)"

definition new_function :: "string \<Rightarrow> string \<Rightarrow> create_function_input \<Rightarrow> func" where
  "new_function uuid appID inp =
     \<lparr>f_ID = uuid, f_ApplicationID = appID, f_Name = cf_Name inp, f_Route = default_route inp,
      f_CreatedAt = zero_time, f_UpdatedAt = zero_time\<rparr>"

definition createFunction ::
  "('s, 'k, 'q) server \<Rightarrow> req_env \<Rightarrow> bool \<Rightarrow> string \<Rightarrow> create_function_input option \<Rightarrow> ('s, 'k) world \<Rightarrow>
   api_reply \<times> ('s, 'k) world" where
  "createFunction sv e au appId body w =
     guarded au w
       (or_reply (loadApplication sv appId w) w (\<lambda>app.
        or_reply (decoded body) w (\<lambda>inp.
          if \<not> dns1123 (cf_Name inp) then (HttpError 400 ''name must be DNS-1123'', w)
          else
            let fn = new_function (e_uuid e) (a_ID app) inp
            in (case store_do (CreateFunction (sv_store sv) (e_now e) fn) w of
                  (Inl err, w1) \<Rightarrow>
                    (HttpError 500 (''internal error (possibly duplicate name/route): '' @ error_text err), w1)
                | (Inr _, w1) \<Rightarrow> (OneFn 201 (toFunctionDTO fn), count_event FunctionsCreated w1)))))"

definition listFunctions ::
  "('s, 'k, 'q) server \<Rightarrow> bool \<Rightarrow> string \<Rightarrow> ('s, 'k) world \<Rightarrow> api_reply \<times> ('s, 'k) world" where
  "listFunctions sv au appId w =
     guarded au w
       (or_reply (loadApplication sv appId w) w (\<lambda>app.
        or_reply (internal (ListFunctions (sv_store sv) (a_ID app) (w_store w))) w (\<lambda>fns.
          (FnList (map toFunctionDTO fns), w))))"

definition updateFunction ::
  "('s, 'k, 'q) server \<Rightarrow> req_env \<Rightarrow> bool \<Rightarrow> string \<Rightarrow> string \<Rightarrow> string option \<Rightarrow> ('s, 'k) world \<Rightarrow>
   api_reply \<times> ('s, 'k) world" where
  "updateFunction sv e au appId fnId body w =
     guarded au w
       (or_reply (loadFunction sv appId fnId w) w (\<lambda>(app, fn).
        or_reply (decoded body) w (\<lambda>route.
          if route = [] \<or> route ! 0 \<noteq> CHR ''/''
          then (HttpError 400 (''route must start with '' @ quoted ''/''), w)
          else
            (case store_do (UpdateFunctionRoute (sv_store sv) (e_now e) (a_ID app) (f_ID fn) route) w of
               (Inl err, w1) \<Rightarrow> (HttpError 500 ''internal error (possibly duplicate route)'', w1)
             | (Inr _, w1) \<Rightarrow> (OneFn 200 (toFunctionDTO (fn\<lparr>f_Route := route\<rparr>)), w1)))))"

definition getFunction ::
  "('s, 'k, 'q) server \<Rightarrow> bool \<Rightarrow> string \<Rightarrow> string \<Rightarrow> ('s, 'k) world \<Rightarrow> api_reply \<times> ('s, 'k) world" where
  "getFunction sv au appId fnId w =
     guarded au w
       (or_reply (loadFunction sv appId fnId w) w (\<lambda>(app, fn). (OneFn 200 (toFunctionDTO fn), w)))"

text \<open>Up to the check of the number of functions, then the deletion.\<close>

definition delete_check ::
  "('s, 'k, 'q) server \<Rightarrow> string \<Rightarrow> string \<Rightarrow> ('s, 'k) world \<Rightarrow> api_reply + string \<times> string" where
  "delete_check sv appId fnId w =
     (case loadFunction sv appId fnId w of
        Inl r \<Rightarrow> Inl r
      | Inr (app, fn) \<Rightarrow>
          (case internal (ListFunctions (sv_store sv) (a_ID app) (w_store w)) of
             Inl r \<Rightarrow> Inl r
           | Inr fns \<Rightarrow>
               if length fns \<le> 1
               then Inl (HttpError 409 ''cannot delete last function; delete the application instead'')
               else Inr (a_ID app, f_ID fn)))"

definition delete_commit ::
  "('s, 'k, 'q) server \<Rightarrow> string \<Rightarrow> string \<Rightarrow> ('s, 'k) world \<Rightarrow> api_reply \<times> ('s, 'k) world" where
  "delete_commit sv appID fnID w =
     (case store_do (DeleteFunction (sv_store sv) appID fnID) w of
        (Inl err, w1) \<Rightarrow> (HttpError 500 ''internal error'', w1)
      | (Inr _, w1) \<Rightarrow> (NoContent, count_event FunctionsDeleted w1))"

definition deleteFunction ::
  "('s, 'k, 'q) server \<Rightarrow> bool \<Rightarrow> string \<Rightarrow> string \<Rightarrow> ('s, 'k) world \<Rightarrow> api_reply \<times> ('s, 'k) world" where
  "deleteFunction sv au appId fnId w =
     guarded au w
       (or_reply (delete_check sv appId fnId w) w (\<lambda>(appID, fnID). delete_commit sv appID fnID w))"

section \<open>Over the contract of the store\<close>

context store_contract begin

lemma loadFunction_contract:
  assumes "inv (w_store w)" "sv_store sv = S"
  shows "loadFunction sv aid i w =
    (if \<not> has_app defaultTenant aid (abs (w_store w)) then Inl (HttpError 404 ''application not found'')
     else if \<not> has_fn aid i (abs (w_store w)) then Inl (HttpError 404 ''function not found'')
     else Inr (the (A_apps (abs (w_store w)) aid), the (A_fns (abs (w_store w)) i)))"
  using assms
  by (auto simp: loadFunction_def loadApplication_contract get_fn lookup_def has_fn_def split: option.splits)

lemma loadFunction_Inr:
  assumes "inv (w_store w)" "sv_store sv = S" "loadFunction sv aid i w = Inr (app, fn)"
  shows "loadApplication sv aid w = Inr app" "A_fns (abs (w_store w)) i = Some fn"
    "f_ApplicationID fn = aid" "f_ID fn = i" "has_fn aid i (abs (w_store w))"
proof -
  show load: "loadApplication sv aid w = Inr app" and own: "has_fn aid i (abs (w_store w))"
    using assms by (auto simp: loadFunction_contract loadApplication_contract split: if_splits)
  with assms show f: "A_fns (abs (w_store w)) i = Some fn"
    by (auto simp: loadFunction_contract has_fn_def split: if_splits)
  show "f_ApplicationID fn = aid" using own f by (simp add: has_fn_def)
  show "f_ID fn = i" using astore_invD(3) [OF abs_inv [OF assms(1)] f] .
qed

lemma loadFunction_error:
  "inv (w_store w) \<Longrightarrow> sv_store sv = S \<Longrightarrow> loadFunction sv a i w = Inl r \<Longrightarrow> is_error r"
  by (auto simp: loadFunction_contract split: if_splits)

lemma createFunction_effect:
  assumes "inv (w_store w)" "sv_store sv = S" "createFunction sv e au appId body w = (r, w')"
  shows "inv (w_store w') \<and> w_kube w' = w_kube w \<and> w_watchers w' = w_watchers w \<and>
    (is_error r \<and> w_store w' = w_store w \<or>
     (\<exists>inp. au \<and> body = Some inp \<and> has_app defaultTenant appId (abs (w_store w)) \<and> dns1123 (cf_Name inp) \<and>
        (let A = abs (w_store w); fn = new_function (e_uuid e) appId inp
         in r = OneFn 201 (toFunctionDTO fn) \<and> can_create_fn fn A \<and>
            abs (w_store w') = A\<lparr>A_fns := (A_fns A)(e_uuid e \<mapsto> stored_fn (e_now e) fn)\<rparr>)))"
proof (cases "au \<and> (\<exists>app inp. loadApplication sv appId w = Inr app \<and> body = Some inp \<and> dns1123 (cf_Name inp))")
  case False
  with assms load_error show ?thesis
    by (cases au; cases "loadApplication sv appId w"; cases body)
      (auto simp: createFunction_def split: if_splits)
next
  case True
  then obtain app inp where in_: "au" "loadApplication sv appId w = Inr app" "body = Some inp"
    "dns1123 (cf_Name inp)" by blast
  note app = has_app_load [OF assms(1,2) in_(2)]
  let ?fn = "new_function (e_uuid e) appId inp"
  obtain r1 s1 where c1: "CreateFunction S (e_now e) ?fn (w_store w) = (r1, s1)" by fastforce
  note run = createFunction_def in_ assms(2) Let_def app(3) store_do_def c1
  show ?thesis
  proof (cases "can_create_fn ?fn (abs (w_store w))")
    case False
    then obtain m where "r1 = Inl (ErrStore m)" "s1 = w_store w"
      using create_fn_err [OF assms(1) False, of "e_now e"] c1 by auto
    with assms(1,3) show ?thesis by (auto simp: run)
  next
    case ok: True
    then have fn: "r1 = Inr ()" "inv s1" "abs s1 = (abs (w_store w))\<lparr>A_fns :=
        (A_fns (abs (w_store w)))(e_uuid e \<mapsto> stored_fn (e_now e) ?fn)\<rparr>"
      using create_fn [OF assms(1) ok, of "e_now e"] c1 by (simp_all add: new_function_def)
    then have "r = OneFn 201 (toFunctionDTO ?fn)" "w' = count_event FunctionsCreated (w\<lparr>w_store := s1\<rparr>)"
      using assms(3) by (auto simp: run)
    then show ?thesis
      using ok in_ app fn by (intro conjI disjI2 exI [of _ inp]) (simp_all add: Let_def)
  qed
qed

lemma updateFunction_effect:
  assumes "inv (w_store w)" "sv_store sv = S" "updateFunction sv e au appId fnId body w = (r, w')"
  shows "inv (w_store w') \<and> w_kube w' = w_kube w \<and> w_watchers w' = w_watchers w \<and>
    (is_error r \<and> w_store w' = w_store w \<or>
     (\<exists>fn route. au \<and> body = Some (CHR ''/'' # route) \<and> has_app defaultTenant appId (abs (w_store w)) \<and>
        A_fns (abs (w_store w)) fnId = Some fn \<and> f_ApplicationID fn = appId \<and>
        (let A = abs (w_store w); fn' = fn\<lparr>f_Route := CHR ''/'' # route\<rparr>
         in r = OneFn 200 (toFunctionDTO fn') \<and>
            abs (w_store w') = A\<lparr>A_fns := (A_fns A)(fnId \<mapsto> fn'\<lparr>f_UpdatedAt := e_now e\<rparr>)\<rparr>)))"
proof (cases "au \<and> (\<exists>app fn route. loadFunction sv appId fnId w = Inr (app, fn) \<and>
    body = Some (CHR ''/'' # route))")
  case False
  show ?thesis
  proof (cases "loadFunction sv appId fnId w")
    case (Inl err)
    with assms loadFunction_error [OF assms(1,2) Inl] show ?thesis
      by (cases au) (auto simp: updateFunction_def)
  next
    case (Inr p)
    then obtain app fn where p: "loadFunction sv appId fnId w = Inr (app, fn)" by (cases p) auto
    with False have "\<not> au \<or> body = None \<or> (\<exists>rt. body = Some rt \<and> (rt = [] \<or> rt ! 0 \<noteq> CHR ''/''))"
      by (cases body; cases "the body") auto
    with assms p show ?thesis by (cases au) (auto simp: updateFunction_def)
  qed
next
  case True
  then obtain app fn route where in_: "au" "loadFunction sv appId fnId w = Inr (app, fn)"
    "body = Some (CHR ''/'' # route)" by blast
  note fn = loadFunction_Inr [OF assms(1,2) in_(2)]
  note app = has_app_load [OF assms(1,2) fn(1)]
  let ?fn = "fn\<lparr>f_Route := CHR ''/'' # route\<rparr>"
  obtain s1 where c1: "UpdateFunctionRoute S (e_now e) appId fnId (CHR ''/'' # route) (w_store w) = (Inr (), s1)"
    "inv s1" "abs s1 = (abs (w_store w))\<lparr>A_fns := (A_fns (abs (w_store w)))(fnId \<mapsto>
        ?fn\<lparr>f_UpdatedAt := e_now e\<rparr>)\<rparr>"
    using update_fn [OF assms(1) fn(2,3), of "e_now e" "CHR ''/'' # route"] by (metis prod.collapse)
  have "r = OneFn 200 (toFunctionDTO ?fn)" "w' = w\<lparr>w_store := s1\<rparr>"
    using assms(3) by (auto simp: updateFunction_def in_ assms(2) app(3) fn(4) store_do_def c1(1))
  then show ?thesis
    using fn app in_ c1(2,3)
    by (intro conjI disjI2 exI [of _ fn] exI [of _ route]) (simp_all add: Let_def)
qed
end

text \<open>
  A check that passes has seen another function of the application; the deletion that follows at
  once leaves it.
\<close>

context store_contract begin

lemma delete_check_Inr:
  assumes "inv (w_store w)" "sv_store sv = S" "delete_check sv aid i w = Inr p"
  shows "p = (aid, i)" "has_app defaultTenant aid (abs (w_store w))" "has_fn aid i (abs (w_store w))"
    "\<exists>j g. A_fns (abs (w_store w)) j = Some g \<and> f_ApplicationID g = aid \<and> j \<noteq> i"
proof -
  let ?A = "abs (w_store w)"
  obtain app fn where l: "loadFunction sv aid i w = Inr (app, fn)"
    using assms(3) by (auto simp: delete_check_def split: sum.splits)
  note fn = loadFunction_Inr [OF assms(1,2) l]
  note app = has_app_load [OF assms(1,2) fn(1)]
  obtain fs where fs: "ListFunctions S aid (w_store w) = Inr fs" "distinct fs"
    "set fs = {f \<in> ran (A_fns ?A). f_ApplicationID f = aid}"
    using list_fns [OF assms(1), of aid] by blast
  show p: "p = (aid, i)" and own: "has_app defaultTenant aid ?A" "has_fn aid i ?A"
    using assms fn app fs l by (auto simp: delete_check_def split: if_splits)
  have "1 < length fs" using assms l app(3) fs(1) by (auto simp: delete_check_def split: if_splits)
  then have "card (set fs) > 1" using fs(2) by (simp add: distinct_card)
  moreover have "fn \<in> set fs" using fn fs(3) by (auto intro: ranI)
  ultimately obtain g where "g \<in> set fs" "g \<noteq> fn" by (metis is_singletonI' is_singleton_altdef less_irrefl empty_iff)
  with fs(3) obtain j where g: "A_fns ?A j = Some g" "f_ApplicationID g = aid" by (auto simp: ran_def)
  moreover have "j \<noteq> i" using g(1) fn(2) \<open>g \<noteq> fn\<close> by auto
  ultimately show "\<exists>j g. A_fns ?A j = Some g \<and> f_ApplicationID g = aid \<and> j \<noteq> i" by blast
qed

lemma delete_check_Inl:
  assumes "inv (w_store w)" "sv_store sv = S" "delete_check sv aid i w = Inl r"
  shows "is_error r"
proof (cases "loadFunction sv aid i w")
  case (Inl e)
  with assms loadFunction_error [OF assms(1,2) Inl] show ?thesis by (simp add: delete_check_def)
next
  case (Inr p)
  then obtain app fn where l: "loadFunction sv aid i w = Inr (app, fn)" by (cases p) auto
  with assms(3) show ?thesis by (auto simp: delete_check_def internal_def split: sum.splits if_splits)
qed

lemma delete_commit_effect:
  assumes "inv (w_store w)" "sv_store sv = S" "delete_commit sv aid i w = (r, w')"
  shows "inv (w_store w') \<and> w_kube w' = w_kube w \<and> w_watchers w' = w_watchers w \<and>
    (if has_fn aid i (abs (w_store w))
     then r = NoContent \<and> abs (w_store w') = remove_fn i (abs (w_store w))
     else is_error r \<and> w_store w' = w_store w)"
proof (cases "has_fn aid i (abs (w_store w))")
  case True
  obtain s1 where "DeleteFunction S aid i (w_store w) = (Inr (), s1)" "inv s1"
    "abs s1 = remove_fn i (abs (w_store w))"
    using delete_fn [OF assms(1) True] by (metis prod.collapse)
  with True assms(2,3) show ?thesis by (auto simp: delete_commit_def store_do_def)
next
  case False
  with assms delete_fn_err [OF assms(1) False] show ?thesis
    by (auto simp: delete_commit_def store_do_def)
qed

lemma deleteFunction_effect:
  assumes "inv (w_store w)" "sv_store sv = S" "deleteFunction sv au appId fnId w = (r, w')"
  shows "inv (w_store w') \<and> w_kube w' = w_kube w \<and> w_watchers w' = w_watchers w \<and>
    (is_error r \<and> w_store w' = w_store w \<or>
     r = NoContent \<and> au \<and> has_app defaultTenant appId (abs (w_store w)) \<and>
     has_fn appId fnId (abs (w_store w)) \<and>
     (\<exists>j g. A_fns (abs (w_store w)) j = Some g \<and> f_ApplicationID g = appId \<and> j \<noteq> fnId) \<and>
     abs (w_store w') = remove_fn fnId (abs (w_store w)))"
proof (cases "au \<and> is_ok (delete_check sv appId fnId w)")
  case False
  with assms delete_check_Inl [OF assms(1,2)] show ?thesis
    by (cases au; cases "delete_check sv appId fnId w") (auto simp: deleteFunction_def)
next
  case True
  then obtain p where p: "au" "delete_check sv appId fnId w = Inr p" by (auto simp: is_ok_iff)
  note chk = delete_check_Inr [OF assms(1,2) p(2)]
  have "delete_commit sv appId fnId w = (r, w')"
    using assms(3) p chk(1) by (simp add: deleteFunction_def)
  from delete_commit_effect [OF assms(1,2) this] show ?thesis using chk p by simp
qed

text \<open>The reading handlers answer from the store and leave the world alone.\<close>

lemma read_functions_pure:
  "snd (listFunctions sv au i w) = w" "snd (getFunction sv au i j w) = w"
  by (auto simp: listFunctions_def getFunction_def guarded_def or_reply_def split: sum.split)

end

section \<open>Two deletions at once\<close>

text \<open>
  Nothing holds the check and the deletion together: when two requests check before either
  deletes, both succeed, and an application that had two functions is left with none.
\<close>

definition two_function_world :: "(db, cluster) world" where
  "two_function_world =
     \<lparr>w_store = snd (run_calls (exec_call sqlite_ops)
        [CallCreateApplication 1 example_app,
         CallCreateFunction 2 (default_function ''f1'' ''a1''),
         CallCreateFunction 3 (new_function ''f2'' ''a1'' \<lparr>cf_Name = ''two'', cf_Route = []\<rparr>)] empty_db),
      w_kube = empty_cluster, w_metrics = [], w_watchers = []\<rparr>"

lemma two_function_rows:
  "t_functions (w_store two_function_world) =
     [stored_fn 2 (default_function ''f1'' ''a1''),
      stored_fn 3 (new_function ''f2'' ''a1'' \<lparr>cf_Name = ''two'', cf_Route = []\<rparr>)]"
  "t_applications (w_store two_function_world) = [stored_app 1 example_app]"
  "foreign_keys (w_store two_function_world)" "t_sources (w_store two_function_world) = []"
  by (simp_all add: two_function_world_def sq_CreateApplication_def sq_CreateFunction_def empty_db_def
      Let_def stored_app_def stored_fn_def example_app_def default_function_def new_function_def
      runtime_defs app_exists_def)

lemma concurrent_deletes_empty_application:
  "delete_check example_server ''a1'' ''f1'' two_function_world = Inr (''a1'', ''f1'') \<and>
   delete_check example_server ''a1'' ''f2'' two_function_world = Inr (''a1'', ''f2'') \<and>
   (case delete_commit example_server ''a1'' ''f1'' two_function_world of (r1, w1) \<Rightarrow>
    case delete_commit example_server ''a1'' ''f2'' w1 of (r2, w2) \<Rightarrow>
      r1 = NoContent \<and> r2 = NoContent \<and> t_functions (w_store w2) = [] \<and>
      t_applications (w_store w2) = [stored_app 1 example_app])"
  by (simp add: delete_check_def delete_commit_def loadFunction_def loadApplication_def store_do_def
      sq_GetApplication_def sq_GetFunction_def sq_ListFunctions_def sq_DeleteFunction_def
      delete_functions_def two_function_rows stored_app_def stored_fn_def example_app_def
      default_function_def new_function_def defaultTenant_def affected_def Let_def)

end
