(* ===== verification/Sources.thy ===== *)
theory Sources
  imports Functions
begin

text \<open>
  The source of a function over the API: \<^verbatim>\<open>getSource\<close> and \<^verbatim>\<open>putSource\<close> of
  \<^verbatim>\<open>internal/httpapi/builds.go\<close>, \<^verbatim>\<open>exportSource\<close> and \<^verbatim>\<open>importSource\<close> of
  \<^verbatim>\<open>internal/httpapi/archive.go\<close>. An uploaded archive is what its reader returns.
\<close>

section \<open>Handlers\<close>

definition getSource ::
  "('s, 'k, 'q) server \<Rightarrow> bool \<Rightarrow> string \<Rightarrow> string \<Rightarrow> ('s, 'k) world \<Rightarrow> api_reply \<times> ('s, 'k) world" where
  "getSource sv au appId fnId w =
     guarded au w
       (or_reply (loadFunction sv appId fnId w) w (\<lambda>(app, fn).
          (case GetSource (sv_store sv) (f_ID fn) (w_store w) of
             Inl ErrNotFound \<Rightarrow> (OneSource \<lparr>sd_Files = [], sd_UpdatedAt = zero_time\<rparr>, w)
           | Inl (ErrStore m) \<Rightarrow> (HttpError 500 ''internal error'', w)
           | Inr src \<Rightarrow>
               (OneSource \<lparr>sd_Files = src_Files src, sd_UpdatedAt = src_UpdatedAt src\<rparr>, w))))"

definition bad_source_name :: "string \<Rightarrow> bool" where
  "bad_source_name name \<longleftrightarrow> name = [] \<or> HasPrefix name ''/'' \<or> Contains name ''..''"

definition new_source :: "string \<Rightarrow> string smap \<Rightarrow> source" where
  "new_source fnID files = \<lparr>src_FunctionID = fnID, src_Files = files, src_UpdatedAt = zero_time\<rparr>"

text \<open>The loop over the map meets some bad name first; the model takes the first in the list.\<close>

definition putSource ::
  "('s, 'k, 'q) server \<Rightarrow> req_env \<Rightarrow> bool \<Rightarrow> string \<Rightarrow> string \<Rightarrow> string smap option \<Rightarrow> ('s, 'k) world \<Rightarrow>
   api_reply \<times> ('s, 'k) world" where
  "putSource sv e au appId fnId body w =
     guarded au w
       (or_reply (loadFunction sv appId fnId w) w (\<lambda>(app, fn).
        or_reply (decoded body) w (\<lambda>files.
          if files = [] then (HttpError 400 ''at least one file is required'', w)
          else case find bad_source_name (map fst files) of
            Some name \<Rightarrow> (HttpError 400 (''invalid file path: '' @ name), w)
          | None \<Rightarrow>
              (case store_do (PutSource (sv_store sv) (e_now e) (new_source (f_ID fn) files)) w of
                 (Inl err, w1) \<Rightarrow> (HttpError 500 ''internal error'', w1)
               | (Inr _, w1) \<Rightarrow> (OneSource \<lparr>sd_Files = files, sd_UpdatedAt = zero_time\<rparr>, w1)))))"

text \<open>
  The archive is written to the response as it is made: when writing stops at an error, which is
  only logged, the entries written before have been sent.
\<close>

definition exportSource ::
  "('s, 'k, 'q) server \<Rightarrow> bool \<Rightarrow> string \<Rightarrow> string \<Rightarrow> ('s, 'k) world \<Rightarrow> api_reply \<times> ('s, 'k) world" where
  "exportSource sv au appId fnId w =
     guarded au w
       (or_reply (loadFunction sv appId fnId w) w (\<lambda>(app, fn).
          (case GetSource (sv_store sv) (f_ID fn) (w_store w) of
             Inl ErrNotFound \<Rightarrow> (HttpError 404 ''no source uploaded yet'', w)
           | Inl (ErrStore m) \<Rightarrow> (HttpError 500 ''internal error'', w)
           | Inr src \<Rightarrow>
               (SourceArchive (f_Name fn @ ''.tar.gz'')
                  (snd (writeTarGz buffer_writer (src_Files src) [])), w))))"

definition importSource ::
  "('s, 'k, 'q) server \<Rightarrow> req_env \<Rightarrow> bool \<Rightarrow> string \<Rightarrow> string \<Rightarrow> string + tar_next list \<Rightarrow> ('s, 'k) world \<Rightarrow>
   api_reply \<times> ('s, 'k) world" where
  "importSource sv e au appId fnId body w =
     guarded au w
       (or_reply (loadFunction sv appId fnId w) w (\<lambda>(app, fn).
          (case readTarGz body of
             Inl err \<Rightarrow> (HttpError 400 (''invalid archive: '' @ err), w)
           | Inr files \<Rightarrow>
               if files = [] then (HttpError 400 ''archive is empty'', w)
               else
                 (case store_do (PutSource (sv_store sv) (e_now e) (new_source (f_ID fn) files)) w of
                    (Inl err, w1) \<Rightarrow> (HttpError 500 ''internal error'', w1)
                  | (Inr _, w1) \<Rightarrow> (OneSource \<lparr>sd_Files = files, sd_UpdatedAt = e_now e\<rparr>, w1)))))"

section \<open>Over the contract of the store\<close>

lemma is_error_others [simp]:
  "\<not> is_error (OneSource x)" "\<not> is_error (InvokeReply ir)" "\<not> is_error (OneBuild n b)"
  by (simp_all add: is_error_def)

lemmas is_error_OneSource = is_error_others(1)

lemma loader_errors:
  "loadApplication sv i w = Inl r \<Longrightarrow> is_error r" "loadFunction sv i j w = Inl r \<Longrightarrow> is_error r"
  by (auto simp: loadApplication_def loadFunction_def split: sum.splits store_error.splits)

text \<open>The two handlers that store a source, from the point where they have the files.\<close>

definition store_source ::
  "('s, 'k, 'q) server \<Rightarrow> time \<Rightarrow> string \<Rightarrow> string smap \<Rightarrow> time \<Rightarrow> ('s, 'k) world \<Rightarrow> api_reply \<times> ('s, 'k) world" where
  "store_source sv now fnId files upd w =
     (case store_do (PutSource (sv_store sv) now (new_source fnId files)) w of
        (Inl err, w1) \<Rightarrow> (HttpError 500 ''internal error'', w1)
      | (Inr _, w1) \<Rightarrow> (OneSource \<lparr>sd_Files = files, sd_UpdatedAt = upd\<rparr>, w1))"

definition put_checked :: "string smap option \<Rightarrow> api_reply + string smap" where
  "put_checked body =
     (case body of
        None \<Rightarrow> Inl (HttpError 400 ''invalid json'')
      | Some files \<Rightarrow>
          if files = [] then Inl (HttpError 400 ''at least one file is required'')
          else case find bad_source_name (map fst files) of
            Some name \<Rightarrow> Inl (HttpError 400 (''invalid file path: '' @ name))
          | None \<Rightarrow> Inr files)"

definition import_checked :: "string + tar_next list \<Rightarrow> api_reply + string smap" where
  "import_checked body =
     (case readTarGz body of
        Inl err \<Rightarrow> Inl (HttpError 400 (''invalid archive: '' @ err))
      | Inr files \<Rightarrow> if files = [] then Inl (HttpError 400 ''archive is empty'') else Inr files)"

lemma putSource_alt:
  "putSource sv e au appId fnId body w =
     guarded au w (or_reply (loadFunction sv appId fnId w) w (\<lambda>(app, fn).
       or_reply (put_checked body) w (\<lambda>files. store_source sv (e_now e) (f_ID fn) files zero_time w)))"
  by (simp add: putSource_def put_checked_def store_source_def decoded_def split: option.split)

lemma importSource_alt:
  "importSource sv e au appId fnId body w =
     guarded au w (or_reply (loadFunction sv appId fnId w) w (\<lambda>(app, fn).
       or_reply (import_checked body) w (\<lambda>files. store_source sv (e_now e) (f_ID fn) files (e_now e) w)))"
  by (simp add: importSource_def import_checked_def store_source_def split: sum.split)

lemma checked_error:
  "put_checked body = Inl r \<Longrightarrow> is_error r" "import_checked tar = Inl r \<Longrightarrow> is_error r"
  by (auto simp: put_checked_def import_checked_def split: option.splits sum.splits if_splits)

text \<open>Names that stay below the directory of the function.\<close>

definition stays_below :: "string \<Rightarrow> bool" where
  "stays_below n \<longleftrightarrow> n \<noteq> [] \<and> \<not> HasPrefix n ''/'' \<and> ''..'' \<notin> set (split_on (CHR ''/'') n)"

lemma split_on_sublist: "x \<in> set (split_on c s) \<Longrightarrow> Contains s x"
proof (induction s arbitrary: x)
  case (Cons a s)
  show ?case
  proof (cases "split_on c s")
    case (Cons y ys)
    have "prefix y s"
      using Cons by (metis join_split_on join_Cons prefixI self_append_conv join.simps(2))
    with Cons.IH Cons.prems Cons show ?thesis
      by (auto simp: sublist_Cons_right split: if_splits)
  qed simp
qed simp

lemma stays_below_put: "\<not> bad_source_name n \<Longrightarrow> stays_below n"
  by (auto simp: bad_source_name_def stays_below_def dest: split_on_sublist)

lemma stays_below_confined: "confined n \<Longrightarrow> stays_below n"
proof -
  assume "confined n"
  then consider "n = ''.''" | "plain_path n" by (auto simp: confined_def)
  then show "stays_below n"
  proof cases
    case 2
    then show ?thesis
      using plain_path_nonempty [OF 2] plain_path_not_rooted [OF 2]
      by (auto simp: stays_below_def plain_path_def plain_elem_def)
  qed (simp add: stays_below_def)
qed

definition good_source :: "string smap \<Rightarrow> bool" where
  "good_source files \<longleftrightarrow> files \<noteq> [] \<and> distinct (map fst files) \<and> list_all (\<lambda>(n, c). stays_below n) files"

lemma stays_below_json: "stays_below n \<Longrightarrow> stays_below (json_text n)"
proof -
  assume n: "stays_below n"
  have sl: "of_char (CHR ''/'') < (0x80 :: nat)" by simp
  have "\<not> HasPrefix (json_text n) ''/''"
  proof
    assume "HasPrefix (json_text n) ''/''"
    then obtain r where "json_text n = CHR ''/'' # r" by (auto elim: prefixE)
    with json_text_split [OF sl, of n] have "map json_text (split_on (CHR ''/'') n) = [] # split_on (CHR ''/'') r"
      by simp
    then obtain y ys where "split_on (CHR ''/'') n = [] # y # ys"
      by (cases "split_on (CHR ''/'') r") auto
    then have "HasPrefix n ''/''" by (cases n) (auto split: if_splits list.splits)
    with n show False by (simp add: stays_below_def)
  qed
  moreover have "''..'' \<notin> set (split_on (CHR ''/'') (json_text n))"
  proof
    assume "''..'' \<in> set (split_on (CHR ''/'') (json_text n))"
    then have "''..'' \<in> json_text ` set (split_on (CHR ''/'') n)" by (simp add: json_text_split [OF sl])
    then show False
    proof (rule imageE)
      fix x assume x: "''..'' = json_text x" "x \<in> set (split_on (CHR ''/'') n)"
      have "x = ''..''" by (rule json_text_to_ascii [OF x(1) [symmetric]]) simp
      with x(2) n show False by (simp add: stays_below_def)
    qed
  qed
  ultimately show ?thesis using n by (simp add: stays_below_def)
qed

text \<open>What the store keeps of good files is good.\<close>

lemma good_source_json: "good_source files \<Longrightarrow> good_source (json_files files)"
  using json_files_distinct [of files] json_files_mem [of _ _ files] stays_below_json
  by (fastforce simp: good_source_def list_all_iff)

lemma read_entries_distinct:
  "read_entries nexts files = Inr files' \<Longrightarrow> distinct (map fst files) \<Longrightarrow> distinct (map fst files')"
  by (induction nexts files rule: read_entries.induct) (auto simp: Let_def split: if_splits sum.splits)

lemma checked_good:
  "put_checked (Some files) = Inr files' \<Longrightarrow> distinct (map fst files) \<Longrightarrow> good_source files'"
  "import_checked tar = Inr files' \<Longrightarrow> good_source files'"
proof -
  show "put_checked (Some files) = Inr files' \<Longrightarrow> distinct (map fst files) \<Longrightarrow> good_source files'"
    by (auto simp: put_checked_def good_source_def find_None_iff list_all_iff stays_below_put
        split: if_splits option.splits)
  assume "import_checked tar = Inr files'"
  then have r: "readTarGz tar = Inr files'" "files' \<noteq> []"
    by (auto simp: import_checked_def split: sum.splits if_splits)
  with read_entries_confined [of _ "[]" files'] have
    "list_all (\<lambda>(n, c). confined n \<and> length c \<le> maxSourceUpload) files'"
    by (auto simp: readTarGz_def split: sum.splits)
  then have "list_all (\<lambda>(n, c). stays_below n) files'"
    using stays_below_confined by (auto simp: list_all_iff)
  moreover have "distinct (map fst files')"
    using r(1) read_entries_distinct [of _ "[]"] by (auto simp: readTarGz_def split: sum.splits)
  ultimately show "good_source files'" using r(2) by (simp add: good_source_def)
qed

context store_contract begin

lemma store_source_effect:
  assumes "inv (w_store w)" "sv_store sv = S" "has_fn aid i (abs (w_store w))"
  obtains s1 where "store_source sv now i files upd w =
      (OneSource \<lparr>sd_Files = files, sd_UpdatedAt = upd\<rparr>, w\<lparr>w_store := s1\<rparr>)" "inv s1"
    "abs s1 = (abs (w_store w))\<lparr>A_srcs := (A_srcs (abs (w_store w)))
       (i \<mapsto> stored_source now (new_source i files))\<rparr>"
proof -
  have "A_fns (abs (w_store w)) (src_FunctionID (new_source i files)) \<noteq> None"
    using assms(3) by (auto simp: has_fn_def new_source_def)
  from put_source [OF assms(1) this, of now] obtain s1 where
    "PutSource S now (new_source i files) (w_store w) = (Inr (), s1)" "inv s1"
    "abs s1 = (abs (w_store w))\<lparr>A_srcs := (A_srcs (abs (w_store w)))
       (i \<mapsto> stored_source now (new_source i files))\<rparr>"
    by (metis prod.collapse new_source_def source.select_convs(1))
  then show thesis using that [of s1] assms(2) by (simp add: store_source_def store_do_def)
qed

text \<open>What is common to the two: an error without effect, or the checked files are stored.\<close>

lemma source_stored:
  assumes "inv (w_store w)" "sv_store sv = S"
    "guarded au w (or_reply (loadFunction sv appId fnId w) w (\<lambda>(app, fn).
       or_reply checked w (\<lambda>files. store_source sv now (f_ID fn) files upd w))) = (r, w')"
    "\<And>e1. checked = Inl e1 \<Longrightarrow> is_error e1"
  shows "inv (w_store w') \<and> w_kube w' = w_kube w \<and> w_watchers w' = w_watchers w \<and>
    (is_error r \<and> w_store w' = w_store w \<or>
     (\<exists>files. au \<and> checked = Inr files \<and> has_app defaultTenant appId (abs (w_store w)) \<and>
        has_fn appId fnId (abs (w_store w)) \<and> r = OneSource \<lparr>sd_Files = files, sd_UpdatedAt = upd\<rparr> \<and>
        abs (w_store w') = (abs (w_store w))\<lparr>A_srcs := (A_srcs (abs (w_store w)))
          (fnId \<mapsto> stored_source now (new_source fnId files))\<rparr>))"
proof (cases "au \<and> is_ok (loadFunction sv appId fnId w) \<and> is_ok checked")
  case False
  with assms(1-3) assms(4) loadFunction_error [OF assms(1,2), of appId fnId] show ?thesis
    by (cases au; cases "loadFunction sv appId fnId w"; cases checked) (auto split: prod.splits)
next
  case True
  then obtain app fn files where in_: "au" "loadFunction sv appId fnId w = Inr (app, fn)" "checked = Inr files"
    by (auto simp: is_ok_iff)
  note fn = loadFunction_Inr [OF assms(1,2) in_(2)]
  note app = has_app_load [OF assms(1,2) fn(1)]
  obtain s1 where s1: "store_source sv now fnId files upd w =
      (OneSource \<lparr>sd_Files = files, sd_UpdatedAt = upd\<rparr>, w\<lparr>w_store := s1\<rparr>)" "inv s1"
    "abs s1 = (abs (w_store w))\<lparr>A_srcs := (A_srcs (abs (w_store w)))
       (fnId \<mapsto> stored_source now (new_source fnId files))\<rparr>"
    by (rule store_source_effect [OF assms(1,2) fn(5)])
  then have "r = OneSource \<lparr>sd_Files = files, sd_UpdatedAt = upd\<rparr>" "w' = w\<lparr>w_store := s1\<rparr>"
    using assms(3) in_ fn(4) by simp_all
  then show ?thesis using s1 in_ fn(5) app(4) by (intro conjI disjI2 exI [of _ files]) simp_all
qed

lemma putSource_effect:
  assumes "inv (w_store w)" "sv_store sv = S" "putSource sv e au appId fnId body w = (r, w')"
  shows "inv (w_store w') \<and> w_kube w' = w_kube w \<and> w_watchers w' = w_watchers w \<and>
    (is_error r \<and> w_store w' = w_store w \<or>
     (\<exists>files. au \<and> put_checked body = Inr files \<and> has_app defaultTenant appId (abs (w_store w)) \<and>
        has_fn appId fnId (abs (w_store w)) \<and> r = OneSource \<lparr>sd_Files = files, sd_UpdatedAt = zero_time\<rparr> \<and>
        abs (w_store w') = (abs (w_store w))\<lparr>A_srcs := (A_srcs (abs (w_store w)))
          (fnId \<mapsto> stored_source (e_now e) (new_source fnId files))\<rparr>))"
  by (rule source_stored [OF assms(1,2) assms(3) [unfolded putSource_alt] checked_error(1)])

lemma importSource_effect:
  assumes "inv (w_store w)" "sv_store sv = S" "importSource sv e au appId fnId body w = (r, w')"
  shows "inv (w_store w') \<and> w_kube w' = w_kube w \<and> w_watchers w' = w_watchers w \<and>
    (is_error r \<and> w_store w' = w_store w \<or>
     (\<exists>files. au \<and> import_checked body = Inr files \<and> has_app defaultTenant appId (abs (w_store w)) \<and>
        has_fn appId fnId (abs (w_store w)) \<and> r = OneSource \<lparr>sd_Files = files, sd_UpdatedAt = e_now e\<rparr> \<and>
        abs (w_store w') = (abs (w_store w))\<lparr>A_srcs := (A_srcs (abs (w_store w)))
          (fnId \<mapsto> stored_source (e_now e) (new_source fnId files))\<rparr>))"
  by (rule source_stored [OF assms(1,2) assms(3) [unfolded importSource_alt] checked_error(2)])


lemma getSource_contract:
  assumes "inv (w_store w)" "sv_store sv = S" "has_app defaultTenant appId (abs (w_store w))"
    "has_fn appId fnId (abs (w_store w))"
  shows "getSource sv True appId fnId w =
    ((case A_srcs (abs (w_store w)) fnId of
        None \<Rightarrow> OneSource \<lparr>sd_Files = [], sd_UpdatedAt = zero_time\<rparr>
      | Some x \<Rightarrow> OneSource \<lparr>sd_Files = src_Files x, sd_UpdatedAt = src_UpdatedAt x\<rparr>), w)"
proof -
  obtain app fn where l: "loadFunction sv appId fnId w = Inr (app, fn)"
    using assms by (auto simp: loadFunction_contract)
  note fn = loadFunction_Inr [OF assms(1,2) l]
  show ?thesis
    using assms get_source [OF assms(1), of fnId]
    by (auto simp: getSource_def l fn(4) lookup_def split: option.splits)
qed

end

section \<open>Properties\<close>

lemma read_entries_safe:
  "read_entries nexts files = Inr files' \<Longrightarrow> list_all (\<lambda>(n, c). \<not> unsafe_path n) files \<Longrightarrow>
   list_all (\<lambda>(n, c). \<not> unsafe_path n) files'"
proof (induction nexts files rule: read_entries.induct)
  case (3 hdr bytes err rest files)
  have upd: "list_all (\<lambda>(n, c). \<not> unsafe_path n) (AList.update k v files)"
    if "\<not> unsafe_path k" for k v
    using 3(4) that by (induction files) (auto split: if_splits)
  show ?case
  proof (cases "h_Typeflag hdr \<noteq> TypeReg \<and> h_Typeflag hdr \<noteq> TypeRegA")
    case True
    then show ?thesis using 3 by simp
  next
    case False
    then show ?thesis
      using 3(2) [OF False refl] 3(3) upd by (auto simp: Let_def split: if_splits sum.splits)
  qed
qed auto

lemma imported_archivable:
  assumes "import_checked tar = Inr files"
    "list_all (\<lambda>(n, c). n \<noteq> ''.'' \<and> CHR 0x00 \<notin> set n) files"
  shows "archivable files" "map (\<lambda>(n, c). (archive_name n, c)) files = files"
proof -
  obtain nexts where n: "tar = Inr nexts" "read_entries nexts [] = Inr files"
    using assms(1) by (auto simp: import_checked_def readTarGz_def split: sum.splits if_splits)
  have "list_all (\<lambda>(n, c). confined n \<and> length c \<le> maxSourceUpload) files"
    using read_entries_confined [OF n(2)] by simp
  moreover have "list_all (\<lambda>(n, c). \<not> unsafe_path n) files"
    using read_entries_safe [OF n(2)] by simp
  ultimately have all: "plain_path n \<and> \<not> HasPrefix n ''..'' \<and> CHR 0x00 \<notin> set n \<and> length c \<le> maxSourceUpload \<and> archive_name n = n"
    if "(n, c) \<in> set files" for n c
    using that assms(2) by (fastforce simp: list_all_iff confined_def unsafe_path_def)
  then have "list_all (\<lambda>(n, c). \<not> refused n \<and> length c \<le> maxSourceUpload) files"
    using plain_path_nonempty by (fastforce simp: list_all_iff refused_def)
  moreover have eq: "map (\<lambda>(n, c). archive_name n) files = map fst files"
    using all by auto
  ultimately show "archivable files"
    using checked_good(2) [OF assms(1)] unfolding archivable_def good_source_def eq by blast
  show "map (\<lambda>(n, c). (archive_name n, c)) files = files"
    using all by (intro map_idI) auto
qed


text \<open>
  C33: An import keeps text only. When an import answers with its files, reading the source afterwards
  returns these files as JSON keeps them, with names that still stay below the function's directory;
  they are what was imported exactly when every name and every content is valid UTF-8, and otherwise
  each byte that is not has been replaced by U+FFFD: a binary file does not survive.
\<close>

theorem import_keeps_text_only:
  assumes "db_inv (w_store w)" "sv_store sv = sqlite_ops"
    "importSource sv e au appId fnId body w = (OneSource d, w')"
  shows "fst (getSource sv True appId fnId w') =
      OneSource \<lparr>sd_Files = json_files (sd_Files d), sd_UpdatedAt = e_now e\<rparr> \<and>
    good_source (json_files (sd_Files d)) \<and> text_files (json_files (sd_Files d)) \<and>
    (json_files (sd_Files d) = sd_Files d \<longleftrightarrow> list_all (\<lambda>(n, c). utf8_Valid n \<and> utf8_Valid c) (sd_Files d))"
proof -
  let ?A = "abs_db (w_store w)"
  from sq.importSource_effect [OF assms(1,2,3)] obtain files where f:
    "import_checked body = Inr files" "has_app defaultTenant appId ?A" "has_fn appId fnId ?A"
    "sd_Files d = files" "db_inv (w_store w')"
    "abs_db (w_store w') = ?A\<lparr>A_srcs := (A_srcs ?A)(fnId \<mapsto> stored_source (e_now e) (new_source fnId files))\<rparr>"
    by (auto simp del: abs_db_simps)
  have own: "has_app defaultTenant appId (abs_db (w_store w'))" "has_fn appId fnId (abs_db (w_store w'))"
    using f(2,3) by (simp_all add: f(6) has_app_def has_fn_def del: abs_db_simps)
  have good: "good_source files" by (rule checked_good(2) [OF f(1)])
  then have "json_files files = files \<longleftrightarrow> text_files files" by (simp add: good_source_def json_files_id)
  moreover have "fst (getSource sv True appId fnId w') =
      OneSource \<lparr>sd_Files = json_files files, sd_UpdatedAt = e_now e\<rparr>"
    using sq.getSource_contract [OF f(5) assms(2) own] by (simp add: f(6) new_source_def del: abs_db_simps)
  ultimately show ?thesis
    using good_source_json [OF good] by (simp add: f(4) json_files_text text_files_def [symmetric])
qed

text \<open>
  C34: Replacing a source: the request fails and changes nothing, or the files are not empty, all
  their names stay below the function's directory, and reading the source afterwards returns
  exactly these files with the time of the request, as far as they are text, which what a JSON body
  decodes to is: the store keeps them as JSON. No other function's source changes.
\<close>

theorem source_put_then_get:
  assumes "db_inv (w_store w)" "sv_store sv = sqlite_ops"
    "putSource sv e au appId fnId body w = (r, w')"
  shows "if is_error r then w_store w' = w_store w
    else (case body of None \<Rightarrow> False | Some files \<Rightarrow>
      files \<noteq> [] \<and> list_all stays_below (map fst files) \<and>
      fst (getSource sv True appId fnId w') = OneSource \<lparr>sd_Files = json_files files, sd_UpdatedAt = e_now e\<rparr> \<and>
      (distinct (map fst files) \<longrightarrow> text_files files \<longrightarrow> json_files files = files) \<and>
      A_srcs (abs_db (w_store w')) = (A_srcs (abs_db (w_store w)))
        (fnId \<mapsto> \<lparr>src_FunctionID = fnId, src_Files = json_files files, src_UpdatedAt = e_now e\<rparr>))"
proof (cases "is_error r")
  case True
  with sq.putSource_effect [OF assms] show ?thesis by auto
next
  case False
  let ?A = "abs_db (w_store w)"
  from sq.putSource_effect [OF assms] False obtain files where f:
    "put_checked body = Inr files" "has_app defaultTenant appId ?A" "has_fn appId fnId ?A"
    "db_inv (w_store w')"
    "abs_db (w_store w') = ?A\<lparr>A_srcs := (A_srcs ?A)(fnId \<mapsto> stored_source (e_now e) (new_source fnId files))\<rparr>"
    by (auto simp del: abs_db_simps)
  then have own: "has_app defaultTenant appId (abs_db (w_store w'))" "has_fn appId fnId (abs_db (w_store w'))"
    by (simp_all add: has_app_def has_fn_def del: abs_db_simps)
  have body: "body = Some files" "files \<noteq> []" "list_all stays_below (map fst files)"
    using f(1) stays_below_put
    by (auto simp: put_checked_def find_None_iff list_all_iff split: option.splits if_splits)
  have "fst (getSource sv True appId fnId w') = OneSource \<lparr>sd_Files = json_files files, sd_UpdatedAt = e_now e\<rparr>"
    using sq.getSource_contract [OF f(4) assms(2) own] by (simp add: f(5) new_source_def del: abs_db_simps)
  with body False show ?thesis by (simp add: f(5) new_source_def stored_source_def json_files_id del: abs_db_simps)
qed

section \<open>Examples\<close>

definition example_upload :: "string + tar_next list" where
  "example_upload = Inr [NextEntry \<lparr>h_Name = ''./main.go'', h_Mode = 420, h_Size = 1, h_ModTime = 0,
     h_Typeflag = TypeReg\<rparr> ''x'' None]"

lemma db_inv_two_function_world: "db_inv (w_store two_function_world)"
  unfolding two_function_world_def world.select_convs by (rule db_inv_run)

lemma example_upload_checked: "import_checked example_upload = Inr [(''main.go'', ''x'')]"
  by (simp add: import_checked_def example_upload_def readTarGz_def path_Clean_def clean_elems_def
      clean_step_def unsafe_path_def copy_limited_def maxSourceUpload_def Let_def sublist_code)

lemma example_load: "\<exists>app fn. loadFunction example_server ''a1'' ''f1'' two_function_world = Inr (app, fn) \<and> f_ID fn = ''f1''"
  by (simp add: loadFunction_def loadApplication_def sq_GetApplication_def sq_GetFunction_def
      two_function_rows stored_app_def stored_fn_def example_app_def default_function_def defaultTenant_def)

lemma example_store_source:
  "\<exists>w'. store_source example_server 7 ''f1'' files upd two_function_world =
     (OneSource \<lparr>sd_Files = files, sd_UpdatedAt = upd\<rparr>, w')"
  by (simp add: store_source_def store_do_def sq_PutSource_def two_function_rows new_source_def
      stored_fn_def default_function_def new_function_def)

lemma example_import:
  "\<exists>w'. importSource example_server example_env True ''a1'' ''f1'' example_upload two_function_world =
     (OneSource \<lparr>sd_Files = [(''main.go'', ''x'')], sd_UpdatedAt = 7\<rparr>, w')"
  using example_load example_store_source
  by (fastforce simp: importSource_alt example_upload_checked)

lemma example_put:
  "\<exists>w'. putSource example_server example_env True ''a1'' ''f1'' (Some [(''a.go'', ''y'')]) two_function_world =
     (OneSource \<lparr>sd_Files = [(''a.go'', ''y'')], sd_UpdatedAt = zero_time\<rparr>, w')"
  using example_load example_store_source
  by (fastforce simp: putSource_alt put_checked_def bad_source_name_def sublist_code)

lemma example_text: "text_files [(''main.go'', ''x'')]" "text_files [(''a.go'', ''y'')]"
  by (simp_all add: text_files_def utf8_Valid_ascii)


theorem source_put_then_get_witness:
  "\<exists>w'. fst (getSource example_server True ''a1'' ''f1'' w') =
     OneSource \<lparr>sd_Files = [(''a.go'', ''y'')], sd_UpdatedAt = 7\<rparr>"
proof -
  obtain w' where w': "putSource example_server example_env True ''a1'' ''f1'' (Some [(''a.go'', ''y'')])
     two_function_world = (OneSource \<lparr>sd_Files = [(''a.go'', ''y'')], sd_UpdatedAt = zero_time\<rparr>, w')"
    using example_put by blast
  note put = source_put_then_get [OF db_inv_two_function_world example_server_simps(1) w',
    unfolded if_not_P [OF is_error_OneSource] option.case example_env_simps]
  have "json_files [(''a.go'', ''y'')] = [(''a.go'', ''y'')]"
    using example_text(2) by (simp add: json_files_id)
  with put [THEN conjunct2, THEN conjunct2, THEN conjunct1] show ?thesis by (intro exI [of _ w']) simp
qed

text \<open>A file of one byte that is not text.\<close>

definition example_binary :: "string + tar_next list" where
  "example_binary = Inr [NextEntry \<lparr>h_Name = ''a.wasm'', h_Mode = 420, h_Size = 1, h_ModTime = 0,
     h_Typeflag = TypeReg\<rparr> [CHR 0xFF] None]"

theorem import_keeps_text_only_witness:
  "\<exists>d w'. importSource example_server example_env True ''a1'' ''f1'' example_binary two_function_world = (OneSource d, w') \<and>
     sd_Files d = [(''a.wasm'', [CHR 0xFF])] \<and>
     fst (getSource example_server True ''a1'' ''f1'' w') =
       OneSource \<lparr>sd_Files = [(''a.wasm'', [CHR 0xEF, CHR 0xBF, CHR 0xBD])], sd_UpdatedAt = 7\<rparr>"
proof -
  have "import_checked example_binary = Inr [(''a.wasm'', [CHR 0xFF])]"
    by (simp add: import_checked_def example_binary_def readTarGz_def path_Clean_def clean_elems_def
        clean_step_def unsafe_path_def copy_limited_def maxSourceUpload_def Let_def sublist_code)
  then obtain w' where w': "importSource example_server example_env True ''a1'' ''f1'' example_binary two_function_world =
     (OneSource \<lparr>sd_Files = [(''a.wasm'', [CHR 0xFF])], sd_UpdatedAt = 7\<rparr>, w')"
    using example_load example_store_source by (fastforce simp: importSource_alt)
  have "json_text ''a.wasm'' = ''a.wasm''" by (simp add: json_text_id utf8_Valid_ascii)
  moreover have "json_text [CHR 0xFF] = [CHR 0xEF, CHR 0xBF, CHR 0xBD]" by (simp add: json_text_def char_of_def bit_iff_odd)
  ultimately have "json_files [(''a.wasm'', [CHR 0xFF])] = [(''a.wasm'', [CHR 0xEF, CHR 0xBF, CHR 0xBD])]"
    by (simp add: json_files_def)
  with import_keeps_text_only [OF db_inv_two_function_world example_server_simps(1) w'] w' show ?thesis by auto
qed

end
