(* ===== verification/Builds.thy ===== *)
theory Builds
  imports Sources
begin

text \<open>
  Builds and logs over the API: the build handlers of \<^verbatim>\<open>internal/httpapi/builds.go\<close>,
  \<^verbatim>\<open>internal/httpapi/logs.go\<close>, and the listing for the worker of
  \<^verbatim>\<open>internal/httpapi/worker.go\<close>. A streamed reply is the text that is sent, all of it: what a
  client sees before the stream or the connection ends is a prefix.
\<close>

section \<open>Builds\<close>

text \<open>The limit of a listing: 5, or the number in the query, kept within 1 and 100.\<close>

definition list_limit :: "string \<Rightarrow> int" where
  "list_limit q =
     (let n = (if q \<noteq> [] then (case Atoi q of None \<Rightarrow> 5 | Some n \<Rightarrow> n) else 5)
      in if n < 1 then 1 else if n > 100 then 100 else n)"

definition listBuilds ::
  "('s, 'k, 'q) server \<Rightarrow> bool \<Rightarrow> string \<Rightarrow> string \<Rightarrow> ('s, 'k) world \<Rightarrow> api_reply \<times> ('s, 'k) world" where
  "listBuilds sv au appId limit w =
     guarded au w
       (or_reply (loadApplication sv appId w) w (\<lambda>app.
        or_reply (internal (ListBuilds (sv_store sv) (a_ID app) (list_limit limit) (w_store w))) w (\<lambda>builds.
          (BuildList (map toBuildDTO builds), w))))"

fun build_inputs :: "('s, 'k, 'q) server \<Rightarrow> func list \<Rightarrow> ('s, 'k) world \<Rightarrow> api_reply + build_input list" where
  "build_inputs sv [] w = Inr []"
| "build_inputs sv (fn # fns) w =
     (case GetSource (sv_store sv) (f_ID fn) (w_store w) of
        Inl ErrNotFound \<Rightarrow> Inl (HttpError 400 (''function '' @ f_Name fn @ '' has no source uploaded yet''))
      | Inl (ErrStore m) \<Rightarrow> Inl (HttpError 500 ''internal error'')
      | Inr src \<Rightarrow>
          (case build_inputs sv fns w of
             Inl r \<Rightarrow> Inl r
           | Inr ins \<Rightarrow> Inr (\<lparr>bi_Function = fn, bi_Source = src\<rparr> # ins)))"

definition startBuild ::
  "('s, 'k, 'q) server \<Rightarrow> req_env \<Rightarrow> bool \<Rightarrow> string \<Rightarrow> ('s, 'k) world \<Rightarrow> api_reply \<times> ('s, 'k) world" where
  "startBuild sv e au appId w =
     guarded au w
       (or_reply (loadApplication sv appId w) w (\<lambda>app.
        or_reply (internal (ListFunctions (sv_store sv) (a_ID app) (w_store w))) w (\<lambda>fns.
          if fns = [] then (HttpError 400 ''application has no functions'', w)
          else or_reply (build_inputs sv fns w) w (\<lambda>inputs.
            (case Start (sv_store sv) (sv_kube sv) (sv_builder sv) (e_now e) (e_uuid e) app inputs w of
               (Inl err, w1) \<Rightarrow> (HttpError 502 err, w1)
             | (Inr bld, w1) \<Rightarrow> (OneBuild 202 (toBuildDTO bld), w1))))))"

definition loadBuild ::
  "('s, 'k, 'q) server \<Rightarrow> application \<Rightarrow> string \<Rightarrow> ('s, 'k) world \<Rightarrow> api_reply + build" where
  "loadBuild sv app buildId w =
     (case GetBuild (sv_store sv) (a_ID app) buildId (w_store w) of
        Inl ErrNotFound \<Rightarrow> Inl (HttpError 404 ''not found'')
      | Inl (ErrStore m) \<Rightarrow> Inl (HttpError 500 ''internal error'')
      | Inr b \<Rightarrow> Inr b)"

definition getBuild ::
  "('s, 'k, 'q) server \<Rightarrow> bool \<Rightarrow> string \<Rightarrow> string \<Rightarrow> ('s, 'k) world \<Rightarrow> api_reply \<times> ('s, 'k) world" where
  "getBuild sv au appId buildId w =
     guarded au w
       (or_reply (loadApplication sv appId w) w (\<lambda>app.
        or_reply (loadBuild sv app buildId w) w (\<lambda>b. (OneBuild 200 (toBuildDTO b), w))))"

section \<open>Logs\<close>

definition stream_reply ::
  "string \<Rightarrow> string \<Rightarrow> kube_error + string option \<Rightarrow> api_reply" where
  "stream_reply absent first_bytes r =
     (case r of
        Inl err \<Rightarrow> HttpError 503 (''logs unavailable: '' @ kerror_text err)
      | Inr None \<Rightarrow> HttpError 202 absent
      | Inr (Some stream) \<Rightarrow> LogText (first_bytes @ stream))"

definition getBuildLogs ::
  "('s, 'k, 'q) server \<Rightarrow> bool \<Rightarrow> string \<Rightarrow> string \<Rightarrow> string \<Rightarrow> ('s, 'k) world \<Rightarrow> api_reply \<times> ('s, 'k) world" where
  "getBuildLogs sv au appId buildId follow w =
     guarded au w
       (or_reply (loadApplication sv appId w) w (\<lambda>app.
        or_reply (loadBuild sv app buildId w) w (\<lambda>b.
          (stream_reply ''no pod for build yet'' []
             (Logs (sv_kube sv) (sv_builder sv) buildId (follow = ''true'') (w_kube w)), w))))"

definition log_tail :: "string \<Rightarrow> int" where
  "log_tail q = (if q \<noteq> [] then (case ParseInt q of Some n \<Rightarrow> if n > 0 then n else 200 | None \<Rightarrow> 200) else 200)"

definition no_pool_logs :: string where
  "no_pool_logs = ''logs for workerpool apps not yet surfaced '' @ [CHR 0xE2, CHR 0x80, CHR 0x94] @
     '' check the spinup-worker pod'' @ [CHR 0x27] @ ''s stdout''"

definition getApplicationLogs ::
  "('s, 'k, 'q) server \<Rightarrow> bool \<Rightarrow> string \<Rightarrow> string \<Rightarrow> string \<Rightarrow> ('s, 'k) world \<Rightarrow> api_reply \<times> ('s, 'k) world" where
  "getApplicationLogs sv au appId follow tail w =
     guarded au w
       (or_reply (loadApplication sv appId w) w (\<lambda>app.
          if a_Runtime app = RuntimeWorkerPool then (HttpError 501 no_pool_logs, w)
          else
            (stream_reply ''no running pod for this application yet'' [CHR 0x0A]
               (PodLogsByLabel (sv_kube sv) (sv_builder sv) (''core.spinkube.dev/app-name='' @ a_Name app)
                  (follow = ''true'') (log_tail tail) (w_kube w)), w)))"

section \<open>The worker's listing\<close>

definition latestSuccessfulImage :: "('s, 'k, 'q) server \<Rightarrow> string \<Rightarrow> ('s, 'k) world \<Rightarrow> string" where
  "latestSuccessfulImage sv appID w =
     (case ListBuilds (sv_store sv) appID 30 (w_store w) of
        Inl _ \<Rightarrow> []
      | Inr builds \<Rightarrow> (case latest_success builds of None \<Rightarrow> [] | Some b \<Rightarrow> b_ImageRef b))"

definition worker_app_entry ::
  "('s, 'k, 'q) server \<Rightarrow> ('s, 'k) world \<Rightarrow> application \<Rightarrow> worker_entry option" where
  "worker_app_entry sv w a =
     (if a_Runtime a \<noteq> RuntimeWorkerPool then None
      else
        let img = latestSuccessfulImage sv (a_ID a) w
        in if img = [] then None
           else
             let fns = (case ListFunctions (sv_store sv) (a_ID a) (w_store w) of Inl _ \<Rightarrow> [] | Inr fs \<Rightarrow> fs)
             in Some \<lparr>we_ID = a_ID a, we_Name = a_Name a, we_Language = a_Language a, we_ImageRef = img,
                      we_Description = a_Description a,
                      we_Functions = map (\<lambda>f. (f_Name f, f_Route f)) fns\<rparr>)"

definition getWorkerConfig ::
  "('s, 'k, 'q) server \<Rightarrow> bool \<Rightarrow> ('s, 'k) world \<Rightarrow> api_reply \<times> ('s, 'k) world" where
  "getWorkerConfig sv au w =
     guarded au w
       (or_reply (internal (ListApplications (sv_store sv) defaultTenant (w_store w))) w (\<lambda>apps.
          (WorkerConfig (List.map_filter (worker_app_entry sv w) apps), w)))"

text \<open>These handlers, but for the start of a build, only read.\<close>

lemma read_builds_pure:
  "snd (listBuilds sv au i q w) = w" "snd (getBuild sv au i j w) = w"
  "snd (getBuildLogs sv au i j q w) = w" "snd (getApplicationLogs sv au i q n w) = w"
  "snd (getWorkerConfig sv au w) = w"
  by (auto simp: listBuilds_def getBuild_def getBuildLogs_def getApplicationLogs_def
      getWorkerConfig_def guarded_def or_reply_def split: sum.split)

section \<open>The newest success\<close>

lemma latest_success_newest:
  assumes "sorted_wrt (\<lambda>b c. b_CreatedAt c \<le> b_CreatedAt b) bs" "latest_success (take n bs) = Some b"
  shows "b \<in> set bs" "b_Status b = BuildSucceeded"
    "c \<in> set bs \<Longrightarrow> b_Status c = BuildSucceeded \<Longrightarrow> b_CreatedAt c \<le> b_CreatedAt b"
proof -
  obtain i where i: "i < length (take n bs)" "take n bs ! i = b" "b_Status b = BuildSucceeded"
    "\<forall>j < i. b_Status (take n bs ! j) \<noteq> BuildSucceeded"
    using assms(2) by (auto simp: latest_success_def find_Some_iff)
  then have b: "i < length bs" "bs ! i = b" by auto
  then show "b \<in> set bs" by auto
  show "b_Status b = BuildSucceeded" by (rule i)
  assume c: "c \<in> set bs" "b_Status c = BuildSucceeded"
  then obtain j where j: "j < length bs" "bs ! j = c" by (auto simp: in_set_conv_nth)
  have "\<not> j < i"
  proof
    assume "j < i"
    moreover from this i(1) have "take n bs ! j = c" using j by auto
    ultimately show False using i(4) c(2) by auto
  qed
  then consider "i < j" | "i = j" by linarith
  then show "b_CreatedAt c \<le> b_CreatedAt b"
  proof cases
    case 1
    then show ?thesis using sorted_wrt_nth_less [OF assms(1) 1 j(1)] j b by simp
  qed (use j b in simp)
qed

lemma latest_success_None:
  "latest_success bs = None \<longleftrightarrow> (\<forall>b \<in> set bs. b_Status b \<noteq> BuildSucceeded)"
  by (auto simp: latest_success_def find_None_iff)

section \<open>Over the contract of the store\<close>

context store_contract begin

lemma build_inputs_contract:
  assumes "inv (w_store w)" "sv_store sv = S" "build_inputs sv fns w = Inr ins"
  shows "map bi_Function ins = fns"
    "list_all (\<lambda>fb. A_srcs (abs (w_store w)) (f_ID (bi_Function fb)) = Some (bi_Source fb)) ins"
  using assms(3)
  by (induction fns arbitrary: ins)
    (auto simp: assms(2) get_source [OF assms(1)] lookup_def split: sum.splits option.splits
      store_error.splits)

lemma build_inputs_error: "build_inputs sv fns w = Inl r \<Longrightarrow> is_error r"
  by (induction fns arbitrary: r) (auto split: sum.splits store_error.splits)

lemma startBuild_cases:
  assumes "inv (w_store w)" "sv_store sv = S" "startBuild sv e au appId w = (r, w')"
  obtains (refused) "is_error r" "w' = w"
  | (started) app fns ins bld where "au" "loadApplication sv appId w = Inr app"
      "ListFunctions S appId (w_store w) = Inr fns" "build_inputs sv fns w = Inr ins"
      "Start S (sv_kube sv) (sv_builder sv) (e_now e) (e_uuid e) app ins w = (Inr bld, w')"
      "r = OneBuild 202 (toBuildDTO bld)"
  | (broken) app fns ins err where "au" "loadApplication sv appId w = Inr app"
      "ListFunctions S appId (w_store w) = Inr fns" "build_inputs sv fns w = Inr ins"
      "Start S (sv_kube sv) (sv_builder sv) (e_now e) (e_uuid e) app ins w = (Inl err, w')"
      "r = HttpError 502 err"
proof (cases "au \<and> is_ok (loadApplication sv appId w)")
  case False
  with assms load_error [OF assms(1,2), of appId] have "is_error r \<and> w' = w"
    by (cases au; cases "loadApplication sv appId w") (auto simp: startBuild_def)
  then show ?thesis using refused by blast
next
  case True
  then obtain app where app: "au" "loadApplication sv appId w = Inr app" by (auto simp: is_ok_iff)
  have id: "a_ID app = appId" by (rule has_app_load(3) [OF assms(1,2) app(2)])
  obtain fns where fns: "ListFunctions S appId (w_store w) = Inr fns"
    using list_fns [OF assms(1), of appId] by blast
  note run = assms(3) [unfolded startBuild_def, simplified app id fns assms(2) guarded_simps or_reply_simps internal_simps]
  show ?thesis
  proof (cases "fns = []")
    case True
    then show ?thesis using run by (intro refused) auto
  next
    case ne: False
    show ?thesis
    proof (cases "build_inputs sv fns w")
      case (Inl e1)
      then show ?thesis using run ne build_inputs_error [OF Inl] by (intro refused) auto
    next
      case (Inr ins)
      obtain res w1 where st: "Start S (sv_kube sv) (sv_builder sv) (e_now e) (e_uuid e) app ins w = (res, w1)"
        by fastforce
      show ?thesis
      proof (cases res)
        case (Inl err)
        then show ?thesis using run ne Inr st by (intro broken [OF app fns Inr, of err]) auto
      next
        case res: (Inr bld)
        then show ?thesis using run ne Inr st by (intro started [OF app fns Inr, of bld]) auto
      qed
    qed
  qed
qed

end

section \<open>Properties\<close>

lemma list_limit_bounds: "1 \<le> list_limit q" "list_limit q \<le> 100"
  by (simp_all add: list_limit_def Let_def)

lemma limit_or_20_list: "limit_or_20 (list_limit q) = nat (list_limit q)"
  using list_limit_bounds [of q] by (simp add: limit_or_20_def)

text \<open>
  A page of builds: whatever the \<^verbatim>\<open>limit\<close> of the query says, the listing has between one and
  a hundred entries when there are that many, five when the query has no number, and it is the
  front of the list of all builds of that application, newest first.
\<close>

lemma list_builds_page:
  assumes "db_inv (w_store w)" "sv_store sv = sqlite_ops"
    "(defaultTenant, appId) \<in> (\<lambda>a. (a_TenantID a, a_ID a)) ` set (t_applications (w_store w))"
  shows "\<exists>n bs. listBuilds sv True appId q w = (BuildList (map toBuildDTO (take n bs)), w) \<and>
    n \<in> {1..100} \<and> (if Atoi q = None then n = 5 else True) \<and>
    sorted_wrt (\<lambda>b c. b_CreatedAt c \<le> b_CreatedAt b) bs \<and> distinct bs \<and>
    set bs = {b \<in> set (t_builds (w_store w)). b_ApplicationID b = appId}"
proof -
  have "has_app defaultTenant appId (abs_db (w_store w))"
    using assms(1,3) by (simp only: has_app_iff)
  then obtain app where app: "loadApplication sv appId w = Inr app"
    using sq.loadApplication_contract [OF assms(1,2)] by auto
  obtain bs where bs: "ListBuilds sqlite_ops appId (list_limit q) (w_store w) =
      Inr (take (limit_or_20 (list_limit q)) bs)"
    "sorted_wrt (\<lambda>b c. b_CreatedAt c \<le> b_CreatedAt b) bs" "distinct bs"
    "set bs = {b \<in> ran (A_blds (abs_db (w_store w))). b_ApplicationID b = appId}"
    using sq.list_builds [OF assms(1), of appId "list_limit q"] by blast
  have "listBuilds sv True appId q w = (BuildList (map toBuildDTO (take (nat (list_limit q)) bs)), w)"
    using sq.has_app_load(3) [OF assms(1,2) app] bs(1)
    by (simp add: listBuilds_def app assms(2) limit_or_20_list del: sqlite_ops_simps)
  moreover have "nat (list_limit q) \<in> {1..100}" using list_limit_bounds [of q] by simp linarith
  moreover have "if Atoi q = None then nat (list_limit q) = 5 else True"
    by (simp add: list_limit_def)
  ultimately show ?thesis
    using bs(2-4) db_invD(5) [OF assms(1)] by (intro exI conjI) (simp_all add: ran_by_key)
qed

text \<open>Which applications the worker serves, and from which image.\<close>

definition serves :: "db \<Rightarrow> worker_entry \<Rightarrow> bool" where
  "serves d e \<longleftrightarrow>
     (\<exists>a \<in> set (t_applications d). \<exists>b \<in> set (t_builds d).
        we_ID e = a_ID a \<and> we_Name e = a_Name a \<and> a_TenantID a = defaultTenant \<and>
        a_Runtime a = RuntimeWorkerPool \<and>
        b_ApplicationID b = a_ID a \<and> b_Status b = BuildSucceeded \<and> we_ImageRef e = b_ImageRef b \<and>
        (\<forall>c \<in> set (t_builds d). b_ApplicationID c = a_ID a \<and> b_Status c = BuildSucceeded \<longrightarrow>
           b_CreatedAt c \<le> b_CreatedAt b) \<and>
        set (we_Functions e) =
          {(f_Name f, f_Route f) | f. f \<in> set (t_functions d) \<and> f_ApplicationID f = a_ID a})"

lemma worker_app_entry_serves:
  assumes "db_inv (w_store w)" "sv_store sv = sqlite_ops"
    "a \<in> set (t_applications (w_store w))" "a_TenantID a = defaultTenant" "worker_app_entry sv w a = Some e"
  shows "serves (w_store w) e \<and> we_ID e = a_ID a \<and> we_Name e = a_Name a"
proof -
  let ?d = "w_store w"
  obtain bs where bs: "ListBuilds sqlite_ops (a_ID a) 30 ?d = Inr (take (limit_or_20 30) bs)"
    "sorted_wrt (\<lambda>b c. b_CreatedAt c \<le> b_CreatedAt b) bs"
    "set bs = {b \<in> ran (A_blds (abs_db ?d)). b_ApplicationID b = a_ID a}"
    using sq.list_builds [OF assms(1), of "a_ID a" 30] by blast
  obtain fs where fs: "ListFunctions sqlite_ops (a_ID a) ?d = Inr fs"
    "set fs = {f \<in> ran (A_fns (abs_db ?d)). f_ApplicationID f = a_ID a}"
    using sq.list_fns [OF assms(1), of "a_ID a"] by blast
  have rt: "a_Runtime a = RuntimeWorkerPool" and img: "latestSuccessfulImage sv (a_ID a) w \<noteq> []"
    and e: "e = \<lparr>we_ID = a_ID a, we_Name = a_Name a, we_Language = a_Language a,
      we_ImageRef = latestSuccessfulImage sv (a_ID a) w, we_Description = a_Description a,
      we_Functions = map (\<lambda>f. (f_Name f, f_Route f)) fs\<rparr>"
    using assms(5) fs(1) by (auto simp: worker_app_entry_def assms(2) Let_def simp del: sqlite_ops_simps split: if_splits)
  obtain b where b: "latest_success (take (limit_or_20 30) bs) = Some b"
      "latestSuccessfulImage sv (a_ID a) w = b_ImageRef b"
    using img bs(1)
    by (auto simp: latestSuccessfulImage_def assms(2) simp del: sqlite_ops_simps split: option.splits)
  note new = latest_success_newest [OF bs(2) b(1)]
  have rows: "set bs = {b \<in> set (t_builds ?d). b_ApplicationID b = a_ID a}"
    "set fs = {f \<in> set (t_functions ?d). f_ApplicationID f = a_ID a}"
    using bs(3) fs(2) db_invD(3,5) [OF assms(1)] by (simp_all add: ran_by_key)
  have "serves ?d e"
    unfolding serves_def
  proof (intro bexI [of _ a] bexI [of _ b] conjI)
    show "\<forall>c \<in> set (t_builds ?d). b_ApplicationID c = a_ID a \<and> b_Status c = BuildSucceeded \<longrightarrow>
        b_CreatedAt c \<le> b_CreatedAt b"
      using new(3) rows(1) by blast
    show "set (we_Functions e) = {(f_Name f, f_Route f) | f. f \<in> set (t_functions ?d) \<and> f_ApplicationID f = a_ID a}"
      using rows(2) by (auto simp: e)
  qed (use assms(3,4) rt new(1,2) rows(1) b(2) in \<open>auto simp: e\<close>)
  then show ?thesis by (simp add: e)
qed

lemma set_map_filter_iff: "y \<in> set (List.map_filter g xs) \<longleftrightarrow> (\<exists>x \<in> set xs. g x = Some y)"
  by (induction xs) (auto simp: map_filter_simps split: option.split)

lemma map_map_filter:
  "(\<And>x y. x \<in> set xs \<Longrightarrow> g x = Some y \<Longrightarrow> h y = f x) \<Longrightarrow>
   map h (List.map_filter g xs) = map f (filter (\<lambda>x. g x \<noteq> None) xs)"
  by (induction xs) (auto simp: map_filter_simps)

lemma take_30_all:
  assumes "db_inv d" "length (filter (\<lambda>b. b_ApplicationID b = i) (t_builds d)) \<le> 30"
    "ListBuilds sqlite_ops i 30 d = Inr bs"
  shows "set bs = {b \<in> set (t_builds d). b_ApplicationID b = i}"
proof -
  obtain cs where cs: "ListBuilds sqlite_ops i 30 d = Inr (take (limit_or_20 30) cs)" "distinct cs"
    "set cs = {b \<in> ran (A_blds (abs_db d)). b_ApplicationID b = i}"
    using sq.list_builds [OF assms(1), of i 30] by blast
  have s: "set cs = set (filter (\<lambda>b. b_ApplicationID b = i) (t_builds d))"
    using cs(3) db_invD(5) [OF assms(1)] by (simp add: ran_by_key)
  have "length cs \<le> 30"
    using assms(2) cs(2) s card_length [of "filter (\<lambda>b. b_ApplicationID b = i) (t_builds d)"]
    by (simp add: distinct_card [symmetric])
  then have "take (limit_or_20 30) cs = cs" by (simp add: limit_or_20_def)
  with assms(3) cs(1) s show ?thesis by simp
qed

lemma pool_app_listed:
  assumes "db_inv (w_store w)" "sv_store sv = sqlite_ops" "a_Runtime a = RuntimeWorkerPool"
    "length (filter (\<lambda>b. b_ApplicationID b = a_ID a) (t_builds (w_store w))) \<le> 30"
    "list_all (\<lambda>b. b_ImageRef b \<noteq> []) (t_builds (w_store w))"
    "list_ex (\<lambda>b. b_ApplicationID b = a_ID a \<and> b_Status b = BuildSucceeded) (t_builds (w_store w))"
  shows "\<exists>e. worker_app_entry sv w a = Some e"
proof -
  obtain bs where bs: "ListBuilds sqlite_ops (a_ID a) 30 (w_store w) = Inr bs"
    using sq.list_builds [OF assms(1), of "a_ID a" 30] by blast
  note all = take_30_all [OF assms(1,4) bs]
  with assms(6) obtain b where b: "latest_success bs = Some b"
    using latest_success_None [of bs] by (auto simp: list_ex_iff)
  then have "b \<in> set bs" by (auto simp: latest_success_def dest: find_eq_Some_in)
  with assms(5) all have "b_ImageRef b \<noteq> []" by (auto simp: list_all_iff)
  with assms(3) b bs show ?thesis
    by (auto simp: worker_app_entry_def latestSuccessfulImage_def assms(2) Let_def simp del: sqlite_ops_simps)
qed


section \<open>Examples\<close>

definition pool_app :: application where
  "pool_app = example_app\<lparr>a_Runtime := RuntimeWorkerPool\<rparr>"

definition pool_world :: "(db, cluster) world" where
  "pool_world =
     \<lparr>w_store = snd (run_calls (exec_call sqlite_ops)
        [CallCreateApplication 1 pool_app,
         CallCreateFunction 2 (default_function ''f1'' ''a1''),
         CallCreateBuild 3 (new_build ''b1'' ''a1'' ''reg/hello:b1'' 3),
         CallUpdateBuildStatus ''b1'' BuildSucceeded [] (Some 4)] empty_db),
      w_kube = empty_cluster, w_metrics = [], w_watchers = []\<rparr>"

lemma db_inv_pool_world: "db_inv (w_store pool_world)"
  unfolding pool_world_def world.select_convs by (rule db_inv_run)

lemma pool_rows:
  "t_applications (w_store pool_world) = [stored_app 1 pool_app]"
  "t_builds (w_store pool_world) =
     [(stored_build 3 (new_build ''b1'' ''a1'' ''reg/hello:b1'' 3))
        \<lparr>b_Status := BuildSucceeded, b_Error := [], b_FinishedAt := Some 4\<rparr>]"
  by (simp_all add: pool_world_def sq_CreateApplication_def sq_CreateFunction_def sq_CreateBuild_def
      sq_UpdateBuildStatus_def update_where_def empty_db_def Let_def stored_app_def stored_fn_def
      stored_build_def example_app_def pool_app_def default_function_def new_build_def runtime_defs
      app_exists_def)


theorem list_builds_page_witness:
  "\<exists>n bs. listBuilds example_server True ''a1'' ''7'' pool_world = (BuildList (map toBuildDTO (take n bs)), pool_world) \<and>
    n \<in> {1..100} \<and> (if Atoi ''7'' = None then n = 5 else True) \<and>
    sorted_wrt (\<lambda>b c. b_CreatedAt c \<le> b_CreatedAt b) bs \<and> distinct bs \<and>
    set bs = {b \<in> set (t_builds (w_store pool_world)). b_ApplicationID b = ''a1''}"
  by (rule list_builds_page [OF db_inv_pool_world example_server_simps(1)])
    (simp add: pool_rows stored_app_def pool_app_def example_app_def defaultTenant_def)

end
