(* ===== verification/Invoke.thy ===== *)
theory Invoke
  imports Sources
begin

text \<open>
  \<^verbatim>\<open>internal/httpapi/invoke.go\<close>: a function is invoked through the proxy of the API server or,
  for the worker-pool runtime, at the worker. The decoded body, or the text of the decoding error
  (a body over the limit of the reader is one), is an argument.
\<close>

section \<open>Handlers\<close>

record invoke_input =
  iv_Method :: string
  iv_Path :: string
  iv_Query :: "string list smap"
  iv_Headers :: http_header
  iv_Body :: string
  iv_BodyIsBase64 :: bool

definition invoke_body :: "invoke_input \<Rightarrow> api_reply + string" where
  "invoke_body inp =
     (if iv_Body inp = [] then Inr []
      else case (if iv_BodyIsBase64 inp then DecodeString (iv_Body inp) else Some (iv_Body inp)) of
        None \<Rightarrow> Inl (HttpError 400 ''invalid base64 body'')
      | Some b \<Rightarrow>
          if length b > MaxRequestBody then Inl (HttpError 413 ''body exceeds 1 MiB limit'') else Inr b)"

text \<open>Content types that are shown as text.\<close>

definition isTextish :: "string \<Rightarrow> bool" where
  "isTextish ct =
     (if HasPrefix ct ''text/'' then True
      else if HasPrefix ct ''application/''
      then Contains ct ''json'' \<or> Contains ct ''xml'' \<or> Contains ct ''yaml'' \<or> Contains ct ''javascript'' \<or>
        Contains ct ''html''
      else False)"

definition writeInvokeResponse :: "relayed \<Rightarrow> api_reply" where
  "writeInvokeResponse res =
     (let ct = ToLower (header_Get (rl_Headers res) ''content-type'');
          b64 = (\<not> utf8_Valid (rl_Body res) \<or> ct \<noteq> [] \<and> \<not> isTextish ct)
      in InvokeReply
           \<lparr>ir_Status = rl_Status res, ir_Headers = rl_Headers res,
            ir_Body = (if b64 then StdEncoding (rl_Body res) else rl_Body res),
            ir_BodyIsBase64 = b64, ir_Truncated = rl_Truncated res, ir_DurationMs = rl_DurationMs res\<rparr>)"

definition worker_http_request :: "string \<Rightarrow> application \<Rightarrow> invoke_input \<Rightarrow> string \<Rightarrow> http_request" where
  "worker_http_request base app inp body =
     (let path = relay_path (iv_Path inp);
          target = base @ ''/apps/'' @ a_Name app;
          target1 = (if path \<noteq> ''/'' then target @ path else target)
      in \<lparr>hr_Method = relay_method (iv_Method inp), hr_URL = with_query target1 (iv_Query inp),
          hr_Headers = copy_headers (\<lambda>k. False) (iv_Headers inp), hr_Body = body\<rparr>)"

definition invokeWorker :: "net \<Rightarrow> string \<Rightarrow> application \<Rightarrow> invoke_input \<Rightarrow> string \<Rightarrow> string + relayed" where
  "invokeWorker net base app inp body =
     (let req = worker_http_request base app inp body
      in (case nt_NewRequest net (hr_Method req) (hr_URL req) of
            Some err \<Rightarrow> Inl err
          | None \<Rightarrow>
              (case nt_Do net req of
                 Inl err \<Rightarrow> Inl err
               | Inr resp \<Rightarrow> read_response (nt_Millis net) resp)))"

definition proxy_input :: "('s, 'k, 'q) server \<Rightarrow> application \<Rightarrow> invoke_input \<Rightarrow> string \<Rightarrow> proxy_request" where
  "proxy_input sv app inp body =
     \<lparr>px_Namespace = sv_Namespace sv, px_ServiceName = a_Name app, px_Method = iv_Method inp,
      px_Path = iv_Path inp, px_Query = iv_Query inp, px_Headers = iv_Headers inp, px_Body = body\<rparr>"

definition relay_reply :: "string + relayed \<Rightarrow> api_reply" where
  "relay_reply res =
     (case res of Inl err \<Rightarrow> HttpError 502 (''invoke failed: '' @ err) | Inr r \<Rightarrow> writeInvokeResponse r)"

definition invokeFunction ::
  "('s, 'k, 'q) server \<Rightarrow> req_env \<Rightarrow> bool \<Rightarrow> string \<Rightarrow> string \<Rightarrow> string + invoke_input \<Rightarrow> ('s, 'k) world \<Rightarrow>
   api_reply \<times> ('s, 'k) world" where
  "invokeFunction sv e au appId fnId body w =
     guarded au w
       (or_reply (loadFunction sv appId fnId w) w (\<lambda>(app, fn).
          (case body of
             Inl err \<Rightarrow> (HttpError 400 (''invalid json: '' @ err), w)
           | Inr inp \<Rightarrow>
               or_reply (invoke_body inp) w (\<lambda>b.
                 if a_Runtime app = RuntimeWorkerPool then
                   if sv_worker_invokeURL sv = []
                   then (HttpError 503 ''workerpool runtime not configured (SPINUP_WORKER_URL unset)'', w)
                   else (relay_reply (invokeWorker (e_net e) (sv_worker_invokeURL sv) app inp b), w)
                 else
                   (case sv_proxy sv of
                      None \<Rightarrow> (HttpError 503 ''invoke proxy not configured'', w)
                    | Some base \<Rightarrow>
                        (relay_reply (proxy_Invoke (e_net e) base (proxy_input sv app inp b)), w))))))"

section \<open>What is sent\<close>

lemma request_fields [simp]:
  "hr_Body (worker_http_request base app inp b) = b"
  "hr_Method (worker_http_request base app inp b) = relay_method (iv_Method inp)"
  "hr_Body (proxy_http_request base (proxy_input sv app inp b)) = b"
  "hr_Method (proxy_http_request base (proxy_input sv app inp b)) = relay_method (iv_Method inp)"
  by (simp_all add: worker_http_request_def proxy_http_request_def proxy_input_def Let_def)

lemma invoke_body_capped: "invoke_body inp = Inr b \<Longrightarrow> length b \<le> MaxRequestBody"
  by (auto simp: invoke_body_def split: if_splits option.splits)

lemma worker_url_shape:
  "\<exists>rest. hr_URL (worker_http_request base app inp body) = base @ ''/apps/'' @ a_Name app @ rest \<and>
     (rest = [] \<or> hd rest = CHR ''/'' \<or> hd rest = CHR ''?'')"
proof -
  obtain p where p: "relay_path (iv_Path inp) = CHR ''/'' # p"
    using relay_path_rooted [of "iv_Path inp"] by (auto simp: prefix_def)
  let ?q = "Encode (iv_Query inp)"
  let ?path = "if p = [] then [] else CHR ''/'' # p"
  have "hr_URL (worker_http_request base app inp body) =
      base @ ''/apps/'' @ a_Name app @ ?path @ (if ?q = [] then [] else CHR ''?'' # ?q)"
    by (simp add: worker_http_request_def with_query_def Let_def p)
  then show ?thesis
    by (intro exI conjI, assumption) (cases "p = []"; cases "?q = []"; simp)
qed

text \<open>
  The requests that an invocation of an application may send: to its Service below the proxy of
  the API server, without the headers that the server sets itself, or to its path at the worker;
  and never with more than a mebibyte.
\<close>

definition allowed_request :: "('s, 'k, 'q) server \<Rightarrow> application \<Rightarrow> http_request \<Rightarrow> bool" where
  "allowed_request sv app req \<longleftrightarrow>
     length (hr_Body req) \<le> MaxRequestBody \<and>
     (if a_Runtime app = RuntimeWorkerPool
      then \<exists>rest. hr_URL req = sv_worker_invokeURL sv @ ''/apps/'' @ a_Name app @ rest \<and>
        (rest = [] \<or> hd rest = CHR ''/'' \<or> hd rest = CHR ''?'')
      else (case sv_proxy sv of
              None \<Rightarrow> False
            | Some base \<Rightarrow>
                HasPrefix (hr_URL req) (base @ ''/api/v1/namespaces/'' @ sv_Namespace sv @
                  ''/services/http:'' @ a_Name app @ '':80/proxy/'') \<and>
                list_all (\<lambda>(k, vs). ToLower k \<notin> {''host'', ''connection'', ''authorization'', ''content-length''})
                  (hr_Headers req)))"

definition only_allowed :: "('s, 'k, 'q) server \<Rightarrow> string \<Rightarrow> ('s, 'k) world \<Rightarrow> http_request \<Rightarrow> bool" where
  "only_allowed sv appId w req =
     (case loadApplication sv appId w of Inl _ \<Rightarrow> False | Inr app \<Rightarrow> allowed_request sv app req)"

definition filtered_net :: "(http_request \<Rightarrow> bool) \<Rightarrow> (http_request \<Rightarrow> string + http_response) \<Rightarrow> net \<Rightarrow> net" where
  "filtered_net P other net = net\<lparr>nt_Do := (\<lambda>r. if P r then nt_Do net r else other r)\<rparr>"

lemma filtered_net_simps [simp]:
  "nt_NewRequest (filtered_net P other net) = nt_NewRequest net"
  "nt_Millis (filtered_net P other net) = nt_Millis net"
  "P r \<Longrightarrow> nt_Do (filtered_net P other net) r = nt_Do net r"
  by (simp_all add: filtered_net_def)

lemma proxy_request_allowed:
  assumes "a_Runtime app \<noteq> RuntimeWorkerPool" "sv_proxy sv = Some base" "invoke_body inp = Inr b"
  shows "allowed_request sv app (proxy_http_request base (proxy_input sv app inp b))"
proof -
  have "list_all (\<lambda>(k, vs). \<not> skipped_header k) (hr_Headers (proxy_http_request base (proxy_input sv app inp b)))"
    using relayed_headers_clean by (fastforce simp: list_all_iff)
  then show ?thesis
    using assms(1,2) invoke_body_capped [OF assms(3)] proxy_url_prefix [of base "proxy_input sv app inp b"]
    by (simp add: allowed_request_def skipped_header_def proxy_http_request_def proxy_input_def)
qed

lemma worker_request_allowed:
  "a_Runtime app = RuntimeWorkerPool \<Longrightarrow> invoke_body inp = Inr b \<Longrightarrow>
   allowed_request sv app (worker_http_request (sv_worker_invokeURL sv) app inp b)"
  using worker_url_shape [of "sv_worker_invokeURL sv" app inp b] invoke_body_capped [of inp b]
  by (simp add: allowed_request_def)


section \<open>What comes back\<close>

lemma writeInvokeResponse_exact:
  "writeInvokeResponse res = InvokeReply ir \<Longrightarrow>
   ir_Status ir = rl_Status res \<and> ir_Headers ir = rl_Headers res \<and> ir_Truncated ir = rl_Truncated res \<and>
   (if ir_BodyIsBase64 ir then DecodeString (ir_Body ir) else Some (ir_Body ir)) = Some (rl_Body res) \<and>
   (if ir_BodyIsBase64 ir then True else utf8_Valid (ir_Body ir))"
  by (auto simp: writeInvokeResponse_def Let_def DecodeString_StdEncoding)

lemma invokeWorker_Inr:
  assumes "invokeWorker net base app inp b = Inr res"
  obtains resp where "nt_Do net (worker_http_request base app inp b) = Inr resp"
    "read_response (nt_Millis net) resp = Inr res"
  using assms by (auto simp: invokeWorker_def Let_def split: option.splits sum.splits)

lemma proxy_Invoke_Inr:
  assumes "proxy_Invoke net base px = Inr res"
  obtains resp where "nt_Do net (proxy_http_request base px) = Inr resp"
    "read_response (nt_Millis net) resp = Inr res"
  using assms by (auto simp: proxy_Invoke_def Let_def split: option.splits sum.splits if_splits)

lemma relay_reply_InvokeReply:
  "relay_reply r = InvokeReply ir \<Longrightarrow> \<exists>res. r = Inr res \<and> writeInvokeResponse res = InvokeReply ir"
  by (cases r) (auto simp: relay_reply_def)

lemma invoke_accepted:
  assumes "invokeFunction sv e au appId fnId body w = (InvokeReply ir, w')"
  obtains app fn inp b req resp res where "loadFunction sv appId fnId w = Inr (app, fn)" "body = Inr inp"
    "invoke_body inp = Inr b" "hr_Body req = b" "hr_Method req = relay_method (iv_Method inp)"
    "allowed_request sv app req" "nt_Do (e_net e) req = Inr resp"
    "read_response (nt_Millis (e_net e)) resp = Inr res" "writeInvokeResponse res = InvokeReply ir"
proof -
  obtain app fn inp b where l: "au" "loadFunction sv appId fnId w = Inr (app, fn)" "body = Inr inp"
    "invoke_body inp = Inr b"
    using assms loader_errors(2) [of sv appId fnId w]
    by (cases au; cases "loadFunction sv appId fnId w"; cases body; cases "invoke_body (projr body)")
      (auto simp: invokeFunction_def invoke_body_def split: if_splits option.splits)
  show thesis
  proof (cases "a_Runtime app = RuntimeWorkerPool")
    case True
    then have "relay_reply (invokeWorker (e_net e) (sv_worker_invokeURL sv) app inp b) = InvokeReply ir"
      using assms l by (auto simp: invokeFunction_def split: if_splits)
    then obtain res where res: "invokeWorker (e_net e) (sv_worker_invokeURL sv) app inp b = Inr res"
      "writeInvokeResponse res = InvokeReply ir" by (blast dest: relay_reply_InvokeReply)
    let ?req = "worker_http_request (sv_worker_invokeURL sv) app inp b"
    obtain resp where "nt_Do (e_net e) ?req = Inr resp" "read_response (nt_Millis (e_net e)) resp = Inr res"
      by (rule invokeWorker_Inr [OF res(1)])
    then show thesis
      using that [OF l(2-4), of ?req resp res] worker_request_allowed [OF True l(4), of sv] res(2) by simp
  next
    case False
    then obtain base where base: "sv_proxy sv = Some base"
      "relay_reply (proxy_Invoke (e_net e) base (proxy_input sv app inp b)) = InvokeReply ir"
      using assms l by (auto simp: invokeFunction_def split: option.splits)
    then obtain res where res: "proxy_Invoke (e_net e) base (proxy_input sv app inp b) = Inr res"
      "writeInvokeResponse res = InvokeReply ir" by (blast dest: relay_reply_InvokeReply)
    let ?req = "proxy_http_request base (proxy_input sv app inp b)"
    obtain resp where "nt_Do (e_net e) ?req = Inr resp" "read_response (nt_Millis (e_net e)) resp = Inr res"
      by (rule proxy_Invoke_Inr [OF res(1)])
    then show thesis
      using that [OF l(2-4), of ?req resp res] proxy_request_allowed [OF False base(1) l(4)] res(2) by simp
  qed
qed

text \<open>
  C39: The answer of an invocation is exact: the caller's body, decoded, is what was sent, and from
  the reply the caller can recover the status, the headers and the first mebibyte of the body that
  the function answered, byte for byte, whether the body travels as text or in base64; the
  truncation flag is set exactly when there was more; and a body that travels as text is valid
  UTF-8.
\<close>

theorem invoke_reply_exact:
  assumes "invokeFunction sv e au appId fnId body w = (InvokeReply ir, w')"
  shows "\<exists>inp req resp. body = Inr inp \<and> nt_Do (e_net e) req = Inr resp \<and>
    (if iv_Body inp = [] then hr_Body req = []
     else if iv_BodyIsBase64 inp then DecodeString (iv_Body inp) = Some (hr_Body req)
     else hr_Body req = iv_Body inp) \<and>
    ir_Status ir = rs_Status resp \<and> ir_Headers ir = rs_Headers resp \<and>
    ir_Truncated ir = (MaxResponseBody < length (rs_Body resp)) \<and>
    (if ir_BodyIsBase64 ir then DecodeString (ir_Body ir) else Some (ir_Body ir)) =
      Some (take MaxResponseBody (rs_Body resp)) \<and>
    (if ir_BodyIsBase64 ir then True else utf8_Valid (ir_Body ir))"
proof (rule invoke_accepted [OF assms])
  fix app fn inp b req resp res
  assume b: "body = Inr inp" "invoke_body inp = Inr b" "hr_Body req = b"
    and resp: "nt_Do (e_net e) req = Inr resp" "read_response (nt_Millis (e_net e)) resp = Inr res"
      "writeInvokeResponse res = InvokeReply ir"
  have "if iv_Body inp = [] then hr_Body req = []
     else if iv_BodyIsBase64 inp then DecodeString (iv_Body inp) = Some (hr_Body req)
     else hr_Body req = iv_Body inp"
    using b(2,3) by (auto simp: invoke_body_def split: if_splits option.splits)
  then show ?thesis
    using b(1) resp(1) writeInvokeResponse_exact [OF resp(3)] read_response_capped [OF resp(2)]
    by (intro exI conjI) simp_all
qed

definition example_invoke :: invoke_input where
  "example_invoke = \<lparr>iv_Method = ''post'', iv_Path = ''greet'', iv_Query = [], iv_Headers = [],
     iv_Body = ''hey'', iv_BodyIsBase64 = False\<rparr>"

theorem invoke_reply_exact_witness:
  "\<exists>ir req resp. fst (invokeFunction example_server example_env True ''a1'' ''f1'' (Inr example_invoke)
       two_function_world) = InvokeReply ir \<and>
     nt_Do example_net req = Inr resp \<and> hr_Body req = ''hey'' \<and> ir_Status ir = rs_Status resp \<and>
     (if ir_BodyIsBase64 ir then DecodeString (ir_Body ir) else Some (ir_Body ir)) =
       Some (take MaxResponseBody (rs_Body resp))"
proof -
  obtain app fn where l: "loadFunction example_server ''a1'' ''f1'' two_function_world = Inr (app, fn)"
    "a_Runtime app = RuntimeSpinKube" "a_Name app = ''hello''"
    by (simp add: loadFunction_def loadApplication_def sq_GetApplication_def sq_GetFunction_def
      two_function_rows stored_app_def stored_fn_def example_app_def default_function_def defaultTenant_def)
  have b: "invoke_body example_invoke = Inr ''hey''"
    by (simp add: invoke_body_def example_invoke_def MaxRequestBody_def)
  let ?res = "\<lparr>rl_Status = 200, rl_Headers = [(''Content-Type'', [''text/plain''])], rl_Body = ''hi'',
      rl_Truncated = False, rl_DurationMs = 3\<rparr>"
  have proxy: "sv_proxy example_server = Some ''https://api''" by (simp add: example_server_def)
  have "proxy_Invoke example_net ''https://api'' (proxy_input example_server app example_invoke ''hey'') = Inr ?res"
    by (simp add: proxy_Invoke_def proxy_input_def l(3) example_net_def read_response_def
        copy_limited_def MaxResponseBody_def example_server_def)
  then have eq: "invokeFunction example_server example_env True ''a1'' ''f1'' (Inr example_invoke)
      two_function_world = (writeInvokeResponse ?res, two_function_world)"
    using proxy by (simp add: invokeFunction_def l b relay_reply_def runtime_defs)
  obtain ir where ir: "writeInvokeResponse ?res = InvokeReply ir" by (simp add: writeInvokeResponse_def Let_def)
  note exact = invoke_reply_exact [OF eq [unfolded ir]]
  from exact obtain inp req resp where "Inr example_invoke = Inr inp" "nt_Do (e_net example_env) req = Inr resp"
    "if iv_Body inp = [] then hr_Body req = []
     else if iv_BodyIsBase64 inp then DecodeString (iv_Body inp) = Some (hr_Body req)
     else hr_Body req = iv_Body inp" "ir_Status ir = rs_Status resp"
    "(if ir_BodyIsBase64 ir then DecodeString (ir_Body ir) else Some (ir_Body ir)) =
      Some (take MaxResponseBody (rs_Body resp))" by blast
  then show ?thesis using eq ir by (intro exI conjI) (auto simp: example_invoke_def)
qed

end
