(* ===== verification/Metrics.thy ===== *)
theory Metrics
  imports Sources
begin

text \<open>
  The metrics handlers of \<^verbatim>\<open>internal/httpapi/metrics.go\<close>. The clock is read once per request.
\<close>

section \<open>Handlers\<close>

definition parseRange :: "string \<Rightarrow> string \<Rightarrow> string + duration \<times> duration" where
  "parseRange rng0 step0 =
     (let rng = (if rng0 = [] then ''15m'' else rng0);
          step = (if step0 = [] then ''15s'' else step0)
      in (case ParseDuration rng of
            Inl err \<Rightarrow> Inl (''bad range '' @ Quote rng @ '': '' @ err)
          | Inr r \<Rightarrow>
              if r < minute \<or> r > 24 * hour then Inl ''range must be between 1m and 24h''
              else (case ParseDuration step of
                      Inl err \<Rightarrow> Inl (''bad step '' @ Quote step @ '': '' @ err)
                    | Inr s \<Rightarrow>
                        if s < second then Inl ''step must be >= 1s'' else Inr (r, s))))"

definition regex_special :: string where
  "regex_special = [backslash] @ ''.+*?()|[]{}^$''"

definition QuoteMeta :: "string \<Rightarrow> string" where
  "QuoteMeta s = concat (map (\<lambda>c. if c \<in> set regex_special then [backslash, c] else [c]) s)"

text \<open>\<^verbatim>\<open>time.Add\<close> and one query of a series; an error is logged and leaves the series nil.\<close>

definition series ::
  "req_env \<Rightarrow> string \<Rightarrow> duration \<Rightarrow> duration \<Rightarrow> string \<Rightarrow> point list option" where
  "series e base rng step query =
     (case QueryRange (e_net e) (e_prom e) base query (e_now e - rng) (e_now e) step of
        Inl _ \<Rightarrow> None | Inr pts \<Rightarrow> pts)"

definition metrics_reply ::
  "req_env \<Rightarrow> string \<Rightarrow> duration \<times> duration \<Rightarrow> (string \<times> string \<times> string) list \<Rightarrow> api_reply" where
  "metrics_reply e base rs queries =
     (case rs of (rng, step) \<Rightarrow>
        MetricsReply \<lparr>mr_Range = rng, mr_Step = step,
          mr_Series = map (\<lambda>(name, query, unit). (name, series e base rng step query, unit)) queries\<rparr>)"

definition bad_request :: "string + 'a \<Rightarrow> api_reply + 'a" where
  "bad_request r = (case r of Inl err \<Rightarrow> Inl (HttpError 400 err) | Inr a \<Rightarrow> Inr a)"

definition prom_client :: "('s, 'k, 'q) server \<Rightarrow> api_reply + string" where
  "prom_client sv =
     (case sv_prom sv of
        None \<Rightarrow> Inl (HttpError 503 ''metrics disabled (SPINUP_PROMETHEUS_URL not set)'')
      | Some base \<Rightarrow> Inr base)"

definition pod_matcher :: "string \<Rightarrow> string \<Rightarrow> string" where
  "pod_matcher ns name =
     ''namespace='' @ Quote ns @ '', pod=~'' @ Quote (''^'' @ QuoteMeta name @ ''-.*'') @ '', container='' @ Quote name"

definition application_queries :: "string \<Rightarrow> string \<Rightarrow> (string \<times> string \<times> string) list" where
  "application_queries ns name =
     [(''cpu'', ''sum(rate(container_cpu_usage_seconds_total{'' @ pod_matcher ns name @ ''}[5m]))'', ''cores''),
      (''memory'', ''sum(container_memory_working_set_bytes{'' @ pod_matcher ns name @ ''})'', ''bytes'')]"

definition function_queries :: "string \<Rightarrow> (string \<times> string \<times> string) list" where
  "function_queries fnID =
     [(''requestRate'', ''sum(rate(spin_request_count{spin_component_id='' @ Quote fnID @ ''}[2m]))'', ''req/s''),
      (''latencyP95'', ''spin_request_duration_ms_bucket{spin_component_id='' @ Quote fnID @ '',le='' @
         quoted ''+Inf'' @ ''} * 0'', ''ms''),
      (''errorRate'', ''sum(rate(spin_request_count{spin_component_id='' @ Quote fnID @
         '',http_response_status_code=~'' @ quoted ''5..'' @ ''}[2m]))'', ''req/s'')]"

definition overview_queries :: "(string \<times> string \<times> string) list" where
  "overview_queries =
     [(''httpRequestRate'', ''sum(rate(spinup_http_requests_total[1m]))'', ''req/s''),
      (''buildRate'', ''sum(rate(spinup_builds_finished_total[5m]))'', ''builds/s'')]"

definition getApplicationMetrics ::
  "('s, 'k, 'q) server \<Rightarrow> req_env \<Rightarrow> bool \<Rightarrow> string \<Rightarrow> string \<Rightarrow> string \<Rightarrow> ('s, 'k) world \<Rightarrow> api_reply \<times> ('s, 'k) world"
  where
  "getApplicationMetrics sv e au appId rng step w =
     guarded au w
       (or_reply (prom_client sv) w (\<lambda>base.
        or_reply (loadApplication sv appId w) w (\<lambda>app.
        or_reply (bad_request (parseRange rng step)) w (\<lambda>rs.
          (metrics_reply e base rs (application_queries (sv_Namespace sv) (a_Name app)), w)))))"

definition getFunctionMetrics ::
  "('s, 'k, 'q) server \<Rightarrow> req_env \<Rightarrow> bool \<Rightarrow> string \<Rightarrow> string \<Rightarrow> string \<Rightarrow> string \<Rightarrow> ('s, 'k) world \<Rightarrow>
   api_reply \<times> ('s, 'k) world" where
  "getFunctionMetrics sv e au appId fnId rng step w =
     guarded au w
       (or_reply (prom_client sv) w (\<lambda>base.
        or_reply (loadFunction sv appId fnId w) w (\<lambda>(app, fn).
        or_reply (bad_request (parseRange rng step)) w (\<lambda>rs.
          (metrics_reply e base rs (function_queries (f_Name fn)), w)))))"

definition getOverviewMetrics ::
  "('s, 'k, 'q) server \<Rightarrow> req_env \<Rightarrow> bool \<Rightarrow> string \<Rightarrow> string \<Rightarrow> ('s, 'k) world \<Rightarrow> api_reply \<times> ('s, 'k) world"
  where
  "getOverviewMetrics sv e au rng step w =
     guarded au w
       (or_reply (prom_client sv) w (\<lambda>base.
        or_reply (bad_request (parseRange rng step)) w (\<lambda>rs.
          (metrics_reply e base rs overview_queries, w))))"

lemma read_metrics_pure:
  "snd (getApplicationMetrics sv e au i r s w) = w" "snd (getFunctionMetrics sv e au i j r s w) = w"
  "snd (getOverviewMetrics sv e au r s w) = w"
  by (auto simp: getApplicationMetrics_def getFunctionMetrics_def getOverviewMetrics_def guarded_def
      or_reply_def split: sum.split)

section \<open>Properties\<close>

lemma parseRange_bounds:
  "parseRange rng step = Inr (r, s) \<Longrightarrow> minute \<le> r \<and> r \<le> 24 * hour \<and> second \<le> s"
  by (auto simp: parseRange_def Let_def split: sum.splits if_splits)

text \<open>
  C40: Bounds of a metrics query: the range that is accepted is between one minute and a day and
  the step at least a second, so a series has at most 86401 points; and a missing range and step
  are fifteen minutes and fifteen seconds.
\<close>

theorem parseRange_spec:
  "parseRange [] [] = Inr (15 * minute, 15 * second) \<and>
   (case parseRange rng step of
      Inl err \<Rightarrow> True
    | Inr (r, s) \<Rightarrow> r \<in> {minute..24 * hour} \<and> s \<in> {second..} \<and> r div s + 1 \<le> 86401)"
proof (intro conjI)
  have "ParseDuration ''15m'' = Inr (15 * minute)" "ParseDuration ''15s'' = Inr (15 * second)"
    by (simp_all add: ParseDuration_def sum_parts.simps duration_part_def is_digit_def less_eq_char_def
        digits_val_def digit_val_def duration_units_def time_simps Let_def)
  then show "parseRange [] [] = Inr (15 * minute, 15 * second)"
    by (simp add: parseRange_def time_simps)
  have "r div s \<le> 86400" if "second \<le> s" "minute \<le> r" "r \<le> 24 * hour" for r s :: int
  proof -
    have "r div s \<le> r div second" using that by (intro zdiv_mono2) (simp_all add: time_simps)
    also have "\<dots> \<le> 24 * hour div second" using that by (intro zdiv_mono1) (simp_all add: time_simps)
    finally show ?thesis by (simp add: time_simps)
  qed
  then show "case parseRange rng step of Inl err \<Rightarrow> True
    | Inr (r, s) \<Rightarrow> r \<in> {minute..24 * hour} \<and> s \<in> {second..} \<and> r div s + 1 \<le> 86401"
    using parseRange_bounds [of rng step] by (auto split: sum.split)
qed

text \<open>
  The series of a function are selected by its name alone. Functions of different applications
  that share a name, as the first functions of all applications do, get the same series.
\<close>

lemma function_metrics_shared:
  assumes "loadFunction sv a1 f1 w = Inr (app1, fn1)" "loadFunction sv a2 f2 w = Inr (app2, fn2)"
    "f_Name fn1 = f_Name fn2"
  shows "getFunctionMetrics sv e au a1 f1 rng step w = getFunctionMetrics sv e au a2 f2 rng step w"
  using assms by (simp add: getFunctionMetrics_def)

end
