(* ===== verification/Server.thy ===== *)
theory Server
  imports Auth Builds Invoke Metrics
begin

text \<open>
  The API as one function: the routes of \<^verbatim>\<open>New\<close> in \<^verbatim>\<open>internal/httpapi/server.go\<close>, the handlers
  that need no authentication, and the middleware in front of the rest. A path is its list of
  unescaped elements. A request's body is what decoding it as each of the handlers' types gives.
\<close>

section \<open>Open handlers\<close>

definition versionInfo :: "('s, 'k, 'q) server \<Rightarrow> api_reply" where
  "versionInfo sv =
     StatusInfo 200 [(''version'', sv_version sv), (''repoUrl'', ''https://github.com/emdzej/spinup'')]"

definition policyInfo :: "('s, 'k, 'q) server \<Rightarrow> api_reply" where
  "policyInfo sv =
     (let p = sv_resourcePolicy sv; mode = (if Mode p = [] then ModeOpen else Mode p)
      in StatusInfo 200
           [(''resources.mode'', mode), (''resources.cpuRequest'', Request (CPU p)),
            (''resources.cpuLimit'', Limit (CPU p)), (''resources.memoryRequest'', Request (Mem p)),
            (''resources.memoryLimit'', Limit (Mem p))])"

definition health :: "('s, 'k, 'q) server \<Rightarrow> ('s, 'k) world \<Rightarrow> api_reply" where
  "health sv w =
     (case Ping (sv_store sv) (w_store w) of
        Some err \<Rightarrow> StatusInfo 503 [(''status'', ''degraded''), (''err'', err)]
      | None \<Rightarrow> StatusInfo 200 [(''status'', ''ok'')])"

section \<open>Endpoints\<close>

datatype endpoint =
    EListApplications | ECreateApplication | EGetApplication string | EUpdateApplication string
  | EDeleteApplication string | EDeployApplication string
  | EListFunctions string | ECreateFunction string | EGetFunction string string
  | EUpdateFunction string string | EDeleteFunction string string
  | EGetSource string string | EPutSource string string | EExportSource string string
  | EImportSource string string | EInvokeFunction string string
  | EListBuilds string | EStartBuild string | EGetBuild string string | EGetBuildLogs string string
  | EApplicationMetrics string | EFunctionMetrics string string | EApplicationLogs string
  | EOverviewMetrics | EWorkerConfig

text \<open>The methods of a path, with what they lead to; an element of a path is never empty.\<close>

definition path_methods :: "string list \<Rightarrow> (string \<times> endpoint) list" where
  "path_methods path =
     (case path of
        [api, v1, a] \<Rightarrow>
          if (api, v1) \<noteq> (''api'', ''v1'') then []
          else if a = ''applications'' then [(''GET'', EListApplications), (''POST'', ECreateApplication)]
          else if a = ''worker-config'' then [(''GET'', EWorkerConfig)] else []
      | [api, v1, a, i] \<Rightarrow>
          if (api, v1) \<noteq> (''api'', ''v1'') then []
          else if a = ''applications'' \<and> i \<noteq> [] then
            [(''GET'', EGetApplication i), (''PATCH'', EUpdateApplication i), (''DELETE'', EDeleteApplication i)]
          else if a = ''overview'' \<and> i = ''metrics'' then [(''GET'', EOverviewMetrics)] else []
      | [api, v1, a, i, b] \<Rightarrow>
          if (api, v1, a) \<noteq> (''api'', ''v1'', ''applications'') \<or> i = [] then []
          else if b = ''deploy'' then [(''POST'', EDeployApplication i)]
          else if b = ''functions'' then [(''GET'', EListFunctions i), (''POST'', ECreateFunction i)]
          else if b = ''builds'' then [(''GET'', EListBuilds i), (''POST'', EStartBuild i)]
          else if b = ''metrics'' then [(''GET'', EApplicationMetrics i)]
          else if b = ''logs'' then [(''GET'', EApplicationLogs i)] else []
      | [api, v1, a, i, b, j] \<Rightarrow>
          if (api, v1, a) \<noteq> (''api'', ''v1'', ''applications'') \<or> i = [] \<or> j = [] then []
          else if b = ''functions'' then
            [(''GET'', EGetFunction i j), (''PUT'', EUpdateFunction i j), (''DELETE'', EDeleteFunction i j)]
          else if b = ''builds'' then [(''GET'', EGetBuild i j)] else []
      | [api, v1, a, i, b, j, c] \<Rightarrow>
          if (api, v1, a) \<noteq> (''api'', ''v1'', ''applications'') \<or> i = [] \<or> j = [] then []
          else if b = ''functions'' \<and> c = ''source'' then [(''GET'', EGetSource i j), (''PUT'', EPutSource i j)]
          else if b = ''functions'' \<and> c = ''source.tar.gz'' then
            [(''GET'', EExportSource i j), (''POST'', EImportSource i j)]
          else if b = ''functions'' \<and> c = ''invoke'' then [(''POST'', EInvokeFunction i j)]
          else if b = ''functions'' \<and> c = ''metrics'' then [(''GET'', EFunctionMetrics i j)]
          else if b = ''builds'' \<and> c = ''logs'' then [(''GET'', EGetBuildLogs i j)] else []
      | _ \<Rightarrow> [])"

record payload =
  in_app :: "create_application_input option"
  in_patch :: "update_application_input option"
  in_deploy :: "deploy_input option"
  in_fn :: "create_function_input option"
  in_route :: "string option"
  in_files :: "string smap option"
  in_invoke :: "string + invoke_input"
  in_archive :: "string + tar_next list"

type_synonym query = "string \<Rightarrow> string"

fun serve ::
  "('s, 'k, 'q) server \<Rightarrow> req_env \<Rightarrow> bool \<Rightarrow> query \<Rightarrow> payload \<Rightarrow> endpoint \<Rightarrow> ('s, 'k) world \<Rightarrow>
   api_reply \<times> ('s, 'k) world" where
  "serve sv e au q pl EListApplications w = listApplications sv au w"
| "serve sv e au q pl ECreateApplication w = createApplication sv e au (in_app pl) w"
| "serve sv e au q pl (EGetApplication i) w = getApplication sv au i w"
| "serve sv e au q pl (EUpdateApplication i) w = updateApplication sv e au i (in_patch pl) w"
| "serve sv e au q pl (EDeleteApplication i) w = deleteApplication sv au i w"
| "serve sv e au q pl (EDeployApplication i) w = deployApplication sv au i (in_deploy pl) w"
| "serve sv e au q pl (EListFunctions i) w = listFunctions sv au i w"
| "serve sv e au q pl (ECreateFunction i) w = createFunction sv e au i (in_fn pl) w"
| "serve sv e au q pl (EGetFunction i j) w = getFunction sv au i j w"
| "serve sv e au q pl (EUpdateFunction i j) w = updateFunction sv e au i j (in_route pl) w"
| "serve sv e au q pl (EDeleteFunction i j) w = deleteFunction sv au i j w"
| "serve sv e au q pl (EGetSource i j) w = getSource sv au i j w"
| "serve sv e au q pl (EPutSource i j) w = putSource sv e au i j (in_files pl) w"
| "serve sv e au q pl (EExportSource i j) w = exportSource sv au i j w"
| "serve sv e au q pl (EImportSource i j) w = importSource sv e au i j (in_archive pl) w"
| "serve sv e au q pl (EInvokeFunction i j) w = invokeFunction sv e au i j (in_invoke pl) w"
| "serve sv e au q pl (EListBuilds i) w = listBuilds sv au i (q ''limit'') w"
| "serve sv e au q pl (EStartBuild i) w = startBuild sv e au i w"
| "serve sv e au q pl (EGetBuild i j) w = getBuild sv au i j w"
| "serve sv e au q pl (EGetBuildLogs i j) w = getBuildLogs sv au i j (q ''follow'') w"
| "serve sv e au q pl (EApplicationMetrics i) w = getApplicationMetrics sv e au i (q ''range'') (q ''step'') w"
| "serve sv e au q pl (EFunctionMetrics i j) w = getFunctionMetrics sv e au i j (q ''range'') (q ''step'') w"
| "serve sv e au q pl (EApplicationLogs i) w = getApplicationLogs sv au i (q ''follow'') (q ''tail'') w"
| "serve sv e au q pl EOverviewMetrics w = getOverviewMetrics sv e au (q ''range'') (q ''step'') w"
| "serve sv e au q pl EWorkerConfig w = getWorkerConfig sv au w"

text \<open>A pattern for \<^verbatim>\<open>GET\<close> serves \<^verbatim>\<open>HEAD\<close> too.\<close>

definition api_mux ::
  "('s, 'k, 'q) server \<Rightarrow> req_env \<Rightarrow> bool \<Rightarrow> string \<Rightarrow> string list \<Rightarrow> query \<Rightarrow> payload \<Rightarrow> ('s, 'k) world \<Rightarrow>
   api_reply \<times> ('s, 'k) world" where
  "api_mux sv e au meth path q pl w =
     (case path_methods path of
        [] \<Rightarrow> (HttpError 404 ''404 page not found'', w)
      | ms \<Rightarrow>
          (case map_of ms (if meth = ''HEAD'' then ''GET'' else meth) of
             None \<Rightarrow> (HttpError 405 ''Method Not Allowed'', w)
           | Some ep \<Rightarrow> serve sv e au q pl ep w))"

text \<open>\<^verbatim>\<open>v.Middleware(api)\<close>: the claims it puts into the context are what \<^verbatim>\<open>authed\<close> looks for.\<close>

definition api_handler ::
  "'m verifier \<Rightarrow> ('s, 'k, 'q) server \<Rightarrow> req_env \<Rightarrow> time \<Rightarrow> Auth.request \<Rightarrow> string \<Rightarrow> string list \<Rightarrow> query \<Rightarrow> payload \<Rightarrow>
   'm \<times> ('s, 'k) world \<Rightarrow> api_reply \<times> 'm \<times> ('s, 'k) world" where
  "api_handler v sv e t2 r meth path q pl st =
     (case st of (m, w) \<Rightarrow>
        (case Middleware v (e_now e) t2 r m of
           (Inl (ErrorText n msg), m') \<Rightarrow> (HttpError n msg, m', w)
         | (Inl _, m') \<Rightarrow> (HttpError 401 ''unauthorized'', m', w)
         | (Inr c, m') \<Rightarrow>
             (case api_mux sv e True meth path q pl w of (rep, w') \<Rightarrow> (rep, m', w'))))"

section \<open>Every route\<close>

fun writes_state :: "endpoint \<Rightarrow> bool" where
  "writes_state ECreateApplication = True"
| "writes_state (EUpdateApplication i) = True"
| "writes_state (EDeleteApplication i) = True"
| "writes_state (EDeployApplication i) = True"
| "writes_state (ECreateFunction i) = True"
| "writes_state (EUpdateFunction i j) = True"
| "writes_state (EDeleteFunction i j) = True"
| "writes_state (EPutSource i j) = True"
| "writes_state (EImportSource i j) = True"
| "writes_state (EStartBuild i) = True"
| "writes_state _ = False"

lemma read_applications_pure:
  "snd (listApplications sv au w) = w" "snd (getApplication sv au i w) = w"
  by (auto simp: listApplications_def getApplication_def guarded_def or_reply_def split: sum.split)

lemma read_sources_pure:
  "snd (getSource sv au i j w) = w" "snd (exportSource sv au i j w) = w"
  by (auto simp: getSource_def exportSource_def guarded_def or_reply_def split: sum.split store_error.split)

lemma invoke_pure: "snd (invokeFunction sv e au i j b w) = w"
  by (auto simp: invokeFunction_def guarded_def or_reply_def split: sum.split option.split)

lemma serve_pure: "\<not> writes_state ep \<Longrightarrow> snd (serve sv e au q pl ep w) = w"
  by (cases ep) (simp_all add: read_applications_pure sq.read_functions_pure read_sources_pure invoke_pure
      read_builds_pure read_metrics_pure)

lemma GET_pure:
  "list_all (\<lambda>(m, ep). if m = ''GET'' then \<not> writes_state ep else True) (path_methods path)"
  by (auto simp: path_methods_def split: list.split)

text \<open>
  C36: Reading is safe: whatever the path, the query and the body, a \<^verbatim>\<open>GET\<close> or \<^verbatim>\<open>HEAD\<close> request to
  the API leaves the whole state of the process and the cluster as it is.
\<close>

theorem get_is_safe:
  "snd (api_mux sv e au ''GET'' path q pl w) = w \<and> snd (api_mux sv e au ''HEAD'' path q pl w) = w"
proof -
  have "snd (case map_of (path_methods path) ''GET'' of
      None \<Rightarrow> (HttpError 405 ''Method Not Allowed'', w) | Some ep \<Rightarrow> serve sv e au q pl ep w) = w"
  proof (cases "map_of (path_methods path) ''GET''")
    case (Some ep)
    then have "(''GET'', ep) \<in> set (path_methods path)" by (rule map_of_SomeD)
    with GET_pure [of path] have "\<not> writes_state ep" by (auto simp: list_all_iff)
    with Some show ?thesis by (simp add: serve_pure)
  qed simp
  then show ?thesis by (cases "path_methods path") (simp_all add: api_mux_def)
qed

lemmas all_handlers = listApplications_def createApplication_def getApplication_def
  updateApplication_def deleteApplication_def deployApplication_def listFunctions_def
  createFunction_def getFunction_def updateFunction_def deleteFunction_def getSource_def
  putSource_def exportSource_def importSource_def invokeFunction_def listBuilds_def startBuild_def
  getBuild_def getBuildLogs_def getApplicationMetrics_def getFunctionMetrics_def
  getApplicationLogs_def getOverviewMetrics_def getWorkerConfig_def

lemma serve_unauthenticated:
  "serve sv e False q pl ep w = (HttpError 401 ''unauthenticated'', w)"
  by (cases ep) (simp_all add: all_handlers)

text \<open>
  Nothing happens without authentication. A request that resolves to no claims, or to claims
  that the role policy refuses, gets 401 or 403 from the middleware on every path of the API and
  changes neither the store nor the cluster nor anything else of the process; and every handler
  refuses by itself a request that reaches it without claims.
\<close>

lemma unauthenticated_has_no_effect:
  "serve sv e False q pl ep w = (HttpError 401 ''unauthenticated'', w) \<and>
   (case Middleware v (e_now e) t2 r m of
      (Inl ans, m') \<Rightarrow> \<exists>n msg. n \<in> {401, 403} \<and>
        api_handler v sv e t2 r meth path q pl (m, w) = (HttpError n msg, m', w)
    | (Inr c, m') \<Rightarrow> c = dev_claims \<and> v_skipAuth v \<or>
        fst (resolve v (e_now e) t2 r m) = Some c \<and> Authorize (v_policy v) c)"
  by (auto simp: serve_unauthenticated api_handler_def Middleware_def split: prod.split option.split)

section \<open>The shape of replies\<close>

fun reply_shape :: "endpoint \<Rightarrow> api_reply \<Rightarrow> bool" where
  "reply_shape EListApplications r = (\<exists>as. r = AppList as)"
| "reply_shape ECreateApplication r = (\<exists>a. r = OneApp 201 a)"
| "reply_shape (EGetApplication i) r = (\<exists>a. r = OneApp 200 a)"
| "reply_shape (EUpdateApplication i) r = (\<exists>a. r = OneApp 200 a)"
| "reply_shape (EDeleteApplication i) r = (r = Api.NoContent)"
| "reply_shape (EDeployApplication i) r = (\<exists>d. r = DeploymentView d)"
| "reply_shape (EListFunctions i) r = (\<exists>fs. r = FnList fs)"
| "reply_shape (ECreateFunction i) r = (\<exists>f. r = OneFn 201 f)"
| "reply_shape (EGetFunction i j) r = (\<exists>f. r = OneFn 200 f)"
| "reply_shape (EUpdateFunction i j) r = (\<exists>f. r = OneFn 200 f)"
| "reply_shape (EDeleteFunction i j) r = (r = Api.NoContent)"
| "reply_shape (EGetSource i j) r = (\<exists>s. r = OneSource s)"
| "reply_shape (EPutSource i j) r = (\<exists>s. r = OneSource s)"
| "reply_shape (EExportSource i j) r = (\<exists>n t. r = SourceArchive n t)"
| "reply_shape (EImportSource i j) r = (\<exists>s. r = OneSource s)"
| "reply_shape (EInvokeFunction i j) r = (\<exists>x. r = InvokeReply x)"
| "reply_shape (EListBuilds i) r = (\<exists>bs. r = BuildList bs)"
| "reply_shape (EStartBuild i) r = (\<exists>b. r = OneBuild 202 b)"
| "reply_shape (EGetBuild i j) r = (\<exists>b. r = OneBuild 200 b)"
| "reply_shape (EGetBuildLogs i j) r = (\<exists>t. r = LogText t)"
| "reply_shape (EApplicationMetrics i) r = (\<exists>x. r = MetricsReply x)"
| "reply_shape (EFunctionMetrics i j) r = (\<exists>x. r = MetricsReply x)"
| "reply_shape (EApplicationLogs i) r = (\<exists>t. r = LogText t)"
| "reply_shape EOverviewMetrics r = (\<exists>x. r = MetricsReply x)"
| "reply_shape EWorkerConfig r = (\<exists>es. r = WorkerConfig es)"

definition error_codes :: "nat set" where
  "error_codes = {202, 400, 401, 404, 409, 413, 500, 501, 502, 503}"

definition error_reply_ok :: "api_reply \<Rightarrow> bool" where
  "error_reply_ok r = (case r of HttpError n m \<Rightarrow> n \<in> error_codes | _ \<Rightarrow> False)"

lemma error_reply_ok_simps [simp]: "error_reply_ok (HttpError n m) = (n \<in> error_codes)"
  by (simp add: error_reply_ok_def)

text \<open>A handler is well typed when its reply is an error of the table or passes the predicate.\<close>

definition typed :: "(api_reply \<Rightarrow> bool) \<Rightarrow> api_reply \<times> 'w \<Rightarrow> bool" where
  "typed P r = (error_reply_ok (fst r) \<or> P (fst r))"

lemma typed_simps [simp]:
  "typed P (HttpError n m, w) = (n \<in> error_codes \<or> P (HttpError n m))"
  "P r \<Longrightarrow> typed P (r, w)"
  by (simp_all add: typed_def)

lemma typed_guarded: "typed P r \<Longrightarrow> typed P (guarded au w r)"
  by (simp add: guarded_def error_codes_def)

lemma typed_or_reply:
  "(\<And>r. x = Inl r \<Longrightarrow> error_reply_ok r) \<Longrightarrow> (\<And>a. x = Inr a \<Longrightarrow> typed P (f a)) \<Longrightarrow> typed P (or_reply x w f)"
  by (cases x) (simp_all add: typed_def)

lemma typed_sources:
  "loadApplication sv i w = Inl r \<Longrightarrow> error_reply_ok r" "loadFunction sv i j w = Inl r \<Longrightarrow> error_reply_ok r"
  "decoded b = Inl r \<Longrightarrow> error_reply_ok r" "internal x = Inl r \<Longrightarrow> error_reply_ok r"
  "check_create inp = Inl r \<Longrightarrow> error_reply_ok r" "patched_config sv app ina = Inl r \<Longrightarrow> error_reply_ok r"
  "delete_check sv i j w = Inl r \<Longrightarrow> error_reply_ok r" "build_inputs sv fns w = Inl r \<Longrightarrow> error_reply_ok r"
  "loadBuild sv app i w = Inl r \<Longrightarrow> error_reply_ok r" "invoke_body inb = Inl r \<Longrightarrow> error_reply_ok r"
  "prom_client sv = Inl r \<Longrightarrow> error_reply_ok r" "bad_request y = Inl r \<Longrightarrow> error_reply_ok r"
proof -
  show load: "loadApplication sv i w = Inl r \<Longrightarrow> error_reply_ok r" for i r
    by (auto simp: loadApplication_def error_codes_def split: sum.splits store_error.splits)
  show fn: "loadFunction sv i j w = Inl r \<Longrightarrow> error_reply_ok r"
    using load by (auto simp: loadFunction_def error_codes_def split: sum.splits store_error.splits)
  show "decoded b = Inl r \<Longrightarrow> error_reply_ok r" by (auto simp: decoded_def error_codes_def split: option.splits)
  show int: "internal x = Inl r \<Longrightarrow> error_reply_ok r"
    by (auto simp: internal_def error_codes_def split: sum.splits)
  show "check_create inp = Inl r \<Longrightarrow> error_reply_ok r"
    by (auto simp: check_create_def error_codes_def Let_def split: if_splits)
  show "patched_config sv app ina = Inl r \<Longrightarrow> error_reply_ok r"
    by (auto simp: patched_config_def error_codes_def Let_def split: if_splits sum.splits)
  show "delete_check sv i j w = Inl r \<Longrightarrow> error_reply_ok r"
    using fn by (auto simp: delete_check_def internal_def error_codes_def split: sum.splits if_splits)
  show "build_inputs sv fns w = Inl r \<Longrightarrow> error_reply_ok r"
    by (induction fns arbitrary: r) (auto simp: error_codes_def split: sum.splits store_error.splits)
  show "loadBuild sv app i w = Inl r \<Longrightarrow> error_reply_ok r"
    by (auto simp: loadBuild_def error_codes_def split: sum.splits store_error.splits)
  show "invoke_body inb = Inl r \<Longrightarrow> error_reply_ok r"
    by (auto simp: invoke_body_def error_codes_def split: if_splits option.splits)
  show "prom_client sv = Inl r \<Longrightarrow> error_reply_ok r"
    by (auto simp: prom_client_def error_codes_def split: option.splits)
  show "bad_request y = Inl r \<Longrightarrow> error_reply_ok r"
    by (auto simp: bad_request_def error_codes_def split: sum.splits)
qed

lemma typed_cases:
  "(\<And>e1. x = Inl e1 \<Longrightarrow> typed P (f e1)) \<Longrightarrow> (\<And>a. x = Inr a \<Longrightarrow> typed P (g a)) \<Longrightarrow>
   typed P (case x of Inl e1 \<Rightarrow> f e1 | Inr a \<Rightarrow> g a)"
  "(\<And>a b. p = (a, b) \<Longrightarrow> typed P (h a b)) \<Longrightarrow> typed P (case p of (a, b) \<Rightarrow> h a b)"
  "(y = None \<Longrightarrow> typed P k) \<Longrightarrow> (\<And>a. y = Some a \<Longrightarrow> typed P (l a)) \<Longrightarrow>
   typed P (case y of None \<Rightarrow> k | Some a \<Rightarrow> l a)"
  "(z = ErrNotFound \<Longrightarrow> typed P n1) \<Longrightarrow> (\<And>m. z = ErrStore m \<Longrightarrow> typed P (n2 m)) \<Longrightarrow>
   typed P (case z of ErrNotFound \<Rightarrow> n1 | ErrStore m \<Rightarrow> n2 m)"
  "(c \<Longrightarrow> typed P t1) \<Longrightarrow> (\<not> c \<Longrightarrow> typed P t2) \<Longrightarrow> typed P (if c then t1 else t2)"
  by (simp_all split: sum.split prod.split option.split store_error.split)

lemma typed_streams:
  "typed (\<lambda>r. \<exists>t. r = LogText t) (stream_reply a b s, w)"
  "typed (\<lambda>r. \<exists>x. r = InvokeReply x) (relay_reply z, w)"
  "typed (\<lambda>r. \<exists>x. r = MetricsReply x) (metrics_reply e base rs qs, w)"
  by (auto simp: typed_def error_codes_def stream_reply_def relay_reply_def writeInvokeResponse_def
      metrics_reply_def Let_def split: sum.split option.split prod.split)

lemmas typed_intros = typed_guarded typed_or_reply typed_cases typed_streams

lemma typed_applications:
  "typed (reply_shape EListApplications) (listApplications sv au w)"
  "typed (reply_shape ECreateApplication) (createApplication sv e au ina w)"
  "typed (reply_shape (EGetApplication i)) (getApplication sv au i w)"
  "typed (reply_shape (EUpdateApplication i)) (updateApplication sv e au i inu w)"
  "typed (reply_shape (EDeleteApplication i)) (deleteApplication sv au i w)"
  "typed (reply_shape (EDeployApplication i)) (deployApplication sv au i ind w)"
  unfolding listApplications_def createApplication_def getApplication_def updateApplication_def
    deleteApplication_def deployApplication_def Let_def reply_shape.simps
  by (intro typed_intros; (erule typed_sources | simp add: error_codes_def))+

lemma typed_functions:
  "typed (reply_shape (EListFunctions i)) (listFunctions sv au i w)"
  "typed (reply_shape (ECreateFunction i)) (createFunction sv e au i inp w)"
  "typed (reply_shape (EGetFunction i j)) (getFunction sv au i j w)"
  "typed (reply_shape (EUpdateFunction i j)) (updateFunction sv e au i j inq w)"
  "typed (reply_shape (EDeleteFunction i j)) (deleteFunction sv au i j w)"
  unfolding listFunctions_def createFunction_def getFunction_def updateFunction_def deleteFunction_def
    delete_commit_def Let_def reply_shape.simps
  by (intro typed_intros; (erule typed_sources | simp add: error_codes_def))+

lemma typed_source_handlers:
  "typed (reply_shape (EGetSource i j)) (getSource sv au i j w)"
  "typed (reply_shape (EPutSource i j)) (putSource sv e au i j inp w)"
  "typed (reply_shape (EExportSource i j)) (exportSource sv au i j w)"
  "typed (reply_shape (EImportSource i j)) (importSource sv e au i j ini w)"
  "typed (reply_shape (EInvokeFunction i j)) (invokeFunction sv e au i j inq w)"
  unfolding getSource_def putSource_def exportSource_def importSource_def invokeFunction_def
    Let_def reply_shape.simps
  by (intro typed_intros; (erule typed_sources | simp add: error_codes_def))+

lemma typed_builds:
  "typed (reply_shape (EListBuilds i)) (listBuilds sv au i lim w)"
  "typed (reply_shape (EStartBuild i)) (startBuild sv e au i w)"
  "typed (reply_shape (EGetBuild i j)) (getBuild sv au i j w)"
  "typed (reply_shape (EGetBuildLogs i j)) (getBuildLogs sv au i j fo w)"
  "typed (reply_shape (EApplicationLogs i)) (getApplicationLogs sv au i fo ta w)"
  "typed (reply_shape EWorkerConfig) (getWorkerConfig sv au w)"
  "typed (reply_shape (EApplicationMetrics i)) (getApplicationMetrics sv e au i ra st w)"
  "typed (reply_shape (EFunctionMetrics i j)) (getFunctionMetrics sv e au i j ra st w)"
  "typed (reply_shape EOverviewMetrics) (getOverviewMetrics sv e au ra st w)"
  unfolding listBuilds_def startBuild_def getBuild_def getBuildLogs_def getApplicationLogs_def
    getWorkerConfig_def getApplicationMetrics_def getFunctionMetrics_def getOverviewMetrics_def
    Let_def reply_shape.simps
  by (intro typed_intros; (erule typed_sources | simp add: error_codes_def))+

text \<open>
  C37: The type of the API: on every endpoint, for every store, request and body, the reply is
  either an error with one of the ten status codes below or a success of exactly the form (the
  status and the kind of value) that belongs to this endpoint; there is no third outcome.
\<close>

theorem api_reply_type:
  "case fst (serve sv e au q pl ep w) of
     HttpError n m \<Rightarrow> n \<in> {202, 400, 401, 404, 409, 413, 500, 501, 502, 503}
   | rep \<Rightarrow> reply_shape ep rep"
proof -
  have "typed (reply_shape ep) (serve sv e au q pl ep w)"
    by (cases ep) (simp_all only: serve.simps typed_applications typed_functions typed_source_handlers typed_builds)
  then show ?thesis
    by (cases ep) (auto simp: typed_def error_reply_ok_def error_codes_def split: api_reply.splits)
qed

end
