(* ===== verification/Process.thy ===== *)
theory Process
  imports Server
begin

text \<open>
  The control plane as a running process. Its steps are the single store calls that the handlers
  make, with the arguments that they let through, the start of a build, the steps of the watchers
  and whatever the cluster does: requests that run at the same time interleave at these points. A
  request that runs alone is a sequence of such steps.
\<close>

section \<open>What the stored rows look like\<close>

definition res_ok :: "('s, 'k, 'q) server \<Rightarrow> resources \<Rightarrow> bool" where
  "res_ok sv r \<longleftrightarrow> r = no_resources \<or> Apply (sv_quantity sv) (sv_resourcePolicy sv) r = Inr r"

definition vars_ok :: "variable list \<Rightarrow> bool" where
  "vars_ok vs \<longleftrightarrow> list_all (\<lambda>v. isVariableName (var_Name v)) vs"

definition app_ok :: "('s, 'k, 'q) server \<Rightarrow> application \<Rightarrow> bool" where
  "app_ok sv a \<longleftrightarrow>
     a_TenantID a = defaultTenant \<and> dns1123 (a_Name a) \<and> a_Language a \<in> set supported_languages \<and>
     a_Runtime a \<in> {RuntimeSpinKube, RuntimeWorkerPool} \<and> 1 \<le> a_Replicas a \<and>
     vars_ok (a_Variables a) \<and> res_ok sv (a_Resources a)"

definition fn_ok :: "func \<Rightarrow> bool" where
  "fn_ok f \<longleftrightarrow> dns1123 (f_Name f) \<and> f_Route f \<noteq> []"

definition api_ok :: "('s, 'k, 'q) server \<Rightarrow> astore \<Rightarrow> bool" where
  "api_ok sv A \<longleftrightarrow>
     (\<forall>i a. A_apps A i = Some a \<longrightarrow> app_ok sv a) \<and>
     (\<forall>i f. A_fns A i = Some f \<longrightarrow> fn_ok f) \<and>
     (\<forall>i x. A_srcs A i = Some x \<longrightarrow> good_source (src_Files x))"

text \<open>The writing calls that the handlers make.\<close>

fun call_ok :: "('s, 'k, 'q) server \<Rightarrow> store_call \<Rightarrow> bool" where
  "call_ok sv (CallCreateApplication now a) = app_ok sv a"
| "call_ok sv (CallUpdateApplicationConfig now tid i d n vs r) =
     (tid = defaultTenant \<and> 0 \<le> n \<and> vars_ok vs \<and> res_ok sv r)"
| "call_ok sv (CallDeleteApplication tid i) = (tid = defaultTenant)"
| "call_ok sv (CallCreateFunction now f) = fn_ok f"
| "call_ok sv (CallUpdateFunctionRoute now aid i rt) = (rt \<noteq> [])"
| "call_ok sv (CallDeleteFunction aid i) = True"
| "call_ok sv (CallPutSource now x) = good_source (src_Files x)"
| "call_ok sv _ = False"

section \<open>Steps\<close>

inductive process_step :: "('s, 'k, 'q) server \<Rightarrow> ('s, 'k) world \<Rightarrow> ('s, 'k) world \<Rightarrow> bool" for sv where
  proc_call: "call_ok sv c \<Longrightarrow> process_step sv w (snd (store_do (exec_call (sv_store sv) c) w))"
| proc_start: "newID uuid \<notin> wt_BuildID ` set (w_watchers w) \<Longrightarrow>
    process_step sv w (snd (Start (sv_store sv) (sv_kube sv) (sv_builder sv) now uuid app fns w))"
| proc_begin: "n < length (w_watchers w) \<Longrightarrow> \<not> wt_Polling (w_watchers w ! n) \<Longrightarrow>
    process_step sv w (begin_at (sv_store sv) n w)"
| proc_end: "n < length (w_watchers w) \<Longrightarrow> wt_Polling (w_watchers w ! n) \<Longrightarrow>
    process_step sv w (end_at (sv_store sv) (sv_quantity sv) (sv_kube sv) (sv_builder sv) now n polled w)"
| proc_cluster: "process_step sv w (w\<lparr>w_kube := k\<rparr>)"
| proc_count: "process_step sv w (count_event ev w)"

inductive_cases process_stepE: "process_step sv w w'"

lemma touches_call_ok: "call_ok sv c \<Longrightarrow> \<not> touches_builds c"
  by (cases c) simp_all

text \<open>But for the counters of the metrics, these are steps of the builds' process.\<close>

lemma process_builder_step:
  assumes "process_step sv w w'"
  shows "builder_step (sv_store sv) (sv_quantity sv) (sv_kube sv) (sv_builder sv) w w' \<or>
    (w_store w' = w_store w \<and> w_watchers w' = w_watchers w)"
  using assms
proof cases
  case (proc_call c)
  then show ?thesis using step_call touches_call_ok by blast
qed (auto intro: builder_step.intros)

section \<open>The rows stay well-formed\<close>

definition same_rows :: "astore \<Rightarrow> astore \<Rightarrow> bool" where
  "same_rows A B \<longleftrightarrow> A_apps A = A_apps B \<and> A_fns A = A_fns B \<and> A_srcs A = A_srcs B"

lemma same_rows_trans: "same_rows A B \<Longrightarrow> same_rows B C \<Longrightarrow> same_rows A C"
  and same_rows_refl [simp]: "same_rows A A"
  and api_ok_same: "same_rows A B \<Longrightarrow> api_ok sv A \<Longrightarrow> api_ok sv B"
  by (simp_all add: same_rows_def api_ok_def)

lemma stored_ok:
  "app_ok sv a \<Longrightarrow> app_ok sv (stored_app now a)" "fn_ok f \<Longrightarrow> fn_ok (stored_fn now f)"
  "app_ok sv a \<Longrightarrow> vars_ok vs \<Longrightarrow> res_ok sv r \<Longrightarrow> app_ok sv (configured now d n vs r a)"
  by (auto simp: app_ok_def fn_ok_def stored_app_def stored_fn_def configured_def)

lemma effect_api_ok: "call_ok sv c \<Longrightarrow> api_ok sv A \<Longrightarrow> api_ok sv (effect c A)"
  by (cases c) (auto simp: api_ok_def stored_ok good_source_json remove_app_def remove_fn_def fn_ok_def split: if_splits)

lemma spec_call_api_ok: "call_ok sv c \<Longrightarrow> api_ok sv A \<Longrightarrow> api_ok sv (snd (spec_call c A))"
  by (simp add: spec_call_def effect_api_ok)

definition process_inv ::
  "('s \<Rightarrow> bool) \<Rightarrow> ('s \<Rightarrow> astore) \<Rightarrow> ('s, 'k, 'q) server \<Rightarrow> ('s, 'k) world \<Rightarrow> bool" where
  "process_inv I f sv w \<longleftrightarrow>
     I (w_store w) \<and> builds_inv (A_blds (f (w_store w))) (w_watchers w) \<and> api_ok sv (f (w_store w))"

context store_contract begin

lemma build_calls_same:
  assumes "inv s"
  shows "same_rows (abs s) (abs (snd (CreateBuild S now b s)))"
    "same_rows (abs s) (abs (snd (UpdateBuildStatus S i st e fin s)))"
    "same_rows (abs s) (abs (snd (UpdateBuildImageSize S i n s)))"
  using call_refines(2) [OF assms, of "CallCreateBuild now b"] update_status [OF assms, of i st e fin]
    update_size [OF assms, of i n]
  by (simp_all add: same_rows_def spec_call_def)

lemma Start_same_rows:
  assumes "inv (w_store w)"
  shows "same_rows (abs (w_store w)) (abs (w_store (snd (Start S K cfg now uuid app fns w))))"
proof (rule Start_cases [of S K cfg now uuid app fns w])
  fix ref e s1
  assume st: "CreateBuild S now (new_build (newID uuid) (a_ID app) ref now) (w_store w) = (Inl e, s1)"
    "w_store (snd (Start S K cfg now uuid app fns w)) = s1"
  then have "s1 = w_store w" by (auto elim: create_build_result [OF assms])
  with st(2) show ?thesis by simp
next
  fix ref s1 msg
  assume st: "CreateBuild S now (new_build (newID uuid) (a_ID app) ref now) (w_store w) = (Inr (), s1)"
    "w_store (snd (Start S K cfg now uuid app fns w)) =
      snd (UpdateBuildStatus S (newID uuid) BuildFailed msg (Some now) s1)"
  from st(1) have "inv s1" by (auto elim: create_build_result [OF assms])
  then show ?thesis
    using build_calls_same(1) [OF assms, of now "new_build (newID uuid) (a_ID app) ref now"] st
      build_calls_same(2) [of s1 "newID uuid" BuildFailed msg "Some now"]
    by (simp add: same_rows_def)
next
  fix ref s1
  assume st: "CreateBuild S now (new_build (newID uuid) (a_ID app) ref now) (w_store w) = (Inr (), s1)"
    "w_store (snd (Start S K cfg now uuid app fns w)) = s1"
  then show ?thesis
    using build_calls_same(1) [OF assms, of now "new_build (newID uuid) (a_ID app) ref now"] by simp
qed simp

lemma watch_outcome_same_rows:
  assumes "inv (w_store w)"
  shows "same_rows (abs (w_store w)) (abs (w_store (watch_outcome S Q K cfg now wt polled w)))"
proof (rule watch_outcome_cases [of w S wt Q K cfg now polled])
  fix s1 st msg
  assume s1: "s1 = w_store w \<or> (\<exists>n. s1 = snd (UpdateBuildImageSize S (wt_BuildID wt) n (w_store w)))"
    and o: "w_store (watch_outcome S Q K cfg now wt polled w) =
       snd (UpdateBuildStatus S (wt_BuildID wt) st msg (Some now) s1)"
  have "inv s1 \<and> same_rows (abs (w_store w)) (abs s1)"
    using s1 assms update_size [OF assms] build_calls_same(3) [OF assms] by auto
  then show ?thesis
    using o build_calls_same(2) [of s1] same_rows_trans by metis
qed

lemma process_step_keeps:
  assumes "process_step sv w w'" "process_inv inv abs sv w" "sv_store sv = S"
  shows "process_inv inv abs sv w'"
proof -
  have i: "inv (w_store w)" "builds_inv (A_blds (abs (w_store w))) (w_watchers w)" "api_ok sv (abs (w_store w))"
    using assms(2) by (simp_all add: process_inv_def)
  have b: "inv (w_store w') \<and> builds_inv (A_blds (abs (w_store w'))) (w_watchers w')"
    using process_builder_step [OF assms(1)] builder_step_keeps [OF _ i(1,2)] i(1,2)
    by (auto simp: assms(3))
  have "api_ok sv (abs (w_store w'))"
    using assms(1)
  proof cases
    case (proc_call c)
    then show ?thesis
      using call_refines(2) [OF i(1), of c] spec_call_api_ok [OF proc_call(2) i(3)] by (simp add: assms(3))
  next
    case (proc_start uuid now app fns)
    then show ?thesis using api_ok_same [OF Start_same_rows [OF i(1)] i(3)] by (simp add: assms(3))
  next
    case (proc_begin n)
    then show ?thesis
      using api_ok_same [OF build_calls_same(2) [OF i(1)] i(3)]
      by (simp add: assms(3) begin_at_def Let_def watch_begin_def)
  next
    case (proc_end n now polled)
    then show ?thesis
      using api_ok_same [OF watch_outcome_same_rows [OF i(1)] i(3)]
      by (simp add: assms(3) end_at_def Let_def)
  qed (use i in simp_all)
  with b show ?thesis by (simp add: process_inv_def)
qed

end

section \<open>A request is a run\<close>

text \<open>The files of a body are a map: no name occurs twice.\<close>

definition payload_ok :: "payload \<Rightarrow> bool" where
  "payload_ok pl \<longleftrightarrow> (case in_files pl of None \<Rightarrow> True | Some files \<Rightarrow> distinct (map fst files))"

definition runs :: "('s, 'k, 'q) server \<Rightarrow> ('s, 'k) world \<Rightarrow> 'a \<times> ('s, 'k) world \<Rightarrow> bool" where
  "runs sv w r \<longleftrightarrow> rtranclp (process_step sv) w (snd r)"

lemma runs_refl: "runs sv w (r, w)"
  by (simp add: runs_def)

lemma runs_step: "process_step sv w w1 \<Longrightarrow> runs sv w1 r \<Longrightarrow> runs sv w r"
  by (auto simp: runs_def intro: converse_rtranclp_into_rtranclp)

lemma runs_guarded: "runs sv w r \<Longrightarrow> runs sv w (guarded au w r)"
  by (simp add: guarded_def runs_refl)

lemma runs_or_reply: "(\<And>a. x = Inr a \<Longrightarrow> runs sv w (f a)) \<Longrightarrow> runs sv w (or_reply x w f)"
  by (cases x) (simp_all add: runs_refl)

lemma runs_split: "(\<And>a b. p = (a, b) \<Longrightarrow> runs sv w (h a b)) \<Longrightarrow> runs sv w (case p of (a, b) \<Rightarrow> h a b)"
  by (cases p) simp

lemma runs_if: "(c \<Longrightarrow> runs sv w a) \<Longrightarrow> (\<not> c \<Longrightarrow> runs sv w b) \<Longrightarrow> runs sv w (if c then a else b)"
  by simp

lemma runs_count: "runs sv w (r, count_event ev w)"
  by (rule runs_step [OF proc_count runs_refl])

lemma runs_call:
  assumes "call_ok sv c" "g = exec_call (sv_store sv) c"
    "\<And>err w1. runs sv w1 (f err w1)" "\<And>u w1. runs sv w1 (h u w1)"
  shows "runs sv w (case store_do g w of (Inl err, w1) \<Rightarrow> f err w1 | (Inr u, w1) \<Rightarrow> h u w1)"
proof -
  obtain r w1 where d: "store_do g w = (r, w1)" by fastforce
  with assms(1,2) have "process_step sv w w1" by (metis proc_call snd_conv)
  then show ?thesis using assms(3,4) by (cases r) (auto simp: d intro: runs_step)
qed

lemma runs_last_call:
  "call_ok sv c \<Longrightarrow> g = exec_call (sv_store sv) c \<Longrightarrow> runs sv w (r, snd (store_do g w))"
  using runs_step [OF proc_call [of sv c w] runs_refl] by simp

lemma runs_kube:
  assumes "\<And>err w1. runs sv w1 (f err w1)" "\<And>u w1. runs sv w1 (h u w1)"
  shows "runs sv w (case kube_do g w of (Inl err, w1) \<Rightarrow> f err w1 | (Inr u, w1) \<Rightarrow> h u w1)"
proof -
  obtain r k where d: "g (w_kube w) = (r, k)" by fastforce
  then show ?thesis
    using assms by (cases r) (auto simp: kube_do_def intro: runs_step [OF proc_cluster [of sv w k]])
qed

lemma runs_reconcile: "runs sv w (r, reconcile sv app inp w)"
proof -
  have "\<exists>k. reconcile sv app inp w = w\<lparr>w_kube := k\<rparr>"
    by (auto simp: reconcile_def kube_do_def split: sum.split option.split prod.split
        intro: exI [of _ "w_kube w"])
  then show ?thesis using proc_cluster runs_step runs_refl by metis
qed

lemmas runs_intros = runs_guarded runs_or_reply runs_split runs_if runs_count runs_refl

lemma default_function_ok: "fn_ok (default_function i aid)"
  by (simp add: fn_ok_def default_function_def dns1123_def lower_alnum_def less_eq_char_def is_digit_def)

lemma new_function_ok: "dns1123 (cf_Name inp) \<Longrightarrow> fn_ok (new_function i aid inp)"
  by (simp add: fn_ok_def new_function_def default_route_def)

lemma new_application_ok: "check_create inp = Inr rt \<Longrightarrow> app_ok sv (new_application i inp rt)"
  by (auto simp: check_create_Inr app_ok_def new_application_def vars_ok_def res_ok_def)

lemma Apply_idem: "Apply Q p u = Inr r \<Longrightarrow> Apply Q p r = Inr r"
  by (auto simp: Apply_def res_bind_eq_Inr split: if_splits)

lemma patched_config_ok:
  assumes "patched_config sv app inp = Inr (desc, n, vs, res)" "app_ok sv app"
  shows "0 \<le> n" "vars_ok vs" "res_ok sv res"
  using assms
  by (auto simp: patched_config_def Let_def app_ok_def vars_ok_def res_ok_def list_ex_iff list_all_iff
      split: if_splits sum.splits option.splits dest: Apply_idem)

lemma createApplication_runs: "runs sv w (createApplication sv e au body w)"
  unfolding createApplication_def Let_def
  by (intro runs_guarded runs_or_reply runs_call [of sv "CallCreateApplication a b" for a b]
      runs_call [of sv "CallCreateFunction a b" for a b] runs_refl runs_count
      runs_last_call [of sv "CallDeleteApplication a b" for a b])
    (simp_all add: new_application_ok default_function_ok)

lemma deleteApplication_runs: "runs sv w (deleteApplication sv au i w)"
  unfolding deleteApplication_def
  apply (intro runs_guarded runs_or_reply)
  subgoal for app
    by (cases "a_Runtime app \<noteq> RuntimeWorkerPool")
      (simp_all, (intro runs_kube runs_call [of sv "CallDeleteApplication a b" for a b] runs_refl runs_count; simp)+)
  done

lemma deployApplication_runs: "runs sv w (deployApplication sv au i body w)"
  unfolding deployApplication_def Let_def
  by (intro runs_intros runs_kube)

lemma createFunction_runs: "runs sv w (createFunction sv e au i body w)"
  unfolding createFunction_def Let_def
  by (intro runs_intros runs_call [of sv "CallCreateFunction a b" for a b])
    (simp_all add: new_function_ok)

lemma updateFunction_runs: "runs sv w (updateFunction sv e au i j body w)"
  unfolding updateFunction_def
  by (intro runs_intros runs_call [of sv "CallUpdateFunctionRoute a b c d" for a b c d]) simp_all

lemma deleteFunction_runs: "runs sv w (deleteFunction sv au i j w)"
  unfolding deleteFunction_def delete_commit_def
  by (intro runs_intros runs_call [of sv "CallDeleteFunction a b" for a b]) simp_all

lemma store_source_runs: "good_source files \<Longrightarrow> runs sv w (store_source sv now i files upd w)"
  unfolding store_source_def
  by (intro runs_intros runs_call [of sv "CallPutSource a b" for a b]) (simp_all add: new_source_def)

lemma putSource_runs: "payload_ok pl \<Longrightarrow> runs sv w (putSource sv e au i j (in_files pl) w)"
  unfolding putSource_alt
  by (intro runs_intros store_source_runs; cases "in_files pl")
    (auto simp: payload_ok_def put_checked_def [of None] dest: checked_good(1))

lemma importSource_runs: "runs sv w (importSource sv e au i j body w)"
  unfolding importSource_alt by (intro runs_intros store_source_runs) (rule checked_good(2))

lemma startBuild_runs:
  assumes "newID (e_uuid e) \<notin> wt_BuildID ` set (w_watchers w)"
  shows "runs sv w (startBuild sv e au i w)"
proof -
  have "runs sv w (case Start (sv_store sv) (sv_kube sv) (sv_builder sv) (e_now e) (e_uuid e) app ins w of
      (Inl err, w1) \<Rightarrow> (HttpError 502 err, w1) | (Inr bld, w1) \<Rightarrow> (OneBuild 202 (toBuildDTO bld), w1))" for app ins
    using runs_step [OF proc_start [OF assms, of sv "e_now e" app ins] runs_refl]
    by (auto split: prod.split sum.split)
  then show ?thesis
    unfolding startBuild_def by (intro runs_guarded runs_or_reply runs_if runs_refl)
qed

context store_contract begin

lemma updateApplication_runs:
  assumes "process_inv inv abs sv w" "sv_store sv = S"
  shows "runs sv w (updateApplication sv e au i body w)"
proof -
  have ok: "call_ok sv (CallUpdateApplicationConfig now defaultTenant (a_ID app) desc n vs res)"
    if "loadApplication sv i w = Inr app" "patched_config sv app inp = Inr (desc, n, vs, res)"
    for now app inp desc n vs res
  proof -
    have "app_ok sv app"
      using assms has_app_load(1) [OF _ assms(2) that(1)] by (auto simp: process_inv_def api_ok_def)
    from patched_config_ok [OF that(2) this] show ?thesis by simp
  qed
  show ?thesis
    unfolding updateApplication_def Let_def
    apply (intro runs_guarded runs_or_reply)
    subgoal for app inp c
      by (cases c rule: prod_cases4, simp only: prod.case)
        (rule runs_call [OF ok], assumption+, simp, rule runs_refl, rule runs_reconcile)
    done
qed

lemma serve_runs:
  assumes "process_inv inv abs sv w" "sv_store sv = S" "payload_ok pl"
    "newID (e_uuid e) \<notin> wt_BuildID ` set (w_watchers w)"
  shows "runs sv w (serve sv e au q pl ep w)"
proof (cases "writes_state ep")
  case False
  then show ?thesis by (simp add: runs_def serve_pure)
next
  case True
  then show ?thesis
    by (cases ep) (simp_all add: createApplication_runs updateApplication_runs [OF assms(1,2)]
        deleteApplication_runs deployApplication_runs createFunction_runs updateFunction_runs
        deleteFunction_runs putSource_runs [OF assms(3)] importSource_runs startBuild_runs [OF assms(4)])
qed

end

section \<open>Reachable states\<close>

lemma process_reachable:
  assumes "rtranclp (process_step sv) (fresh_process k) w" "sv_store sv = sqlite_ops"
  shows "process_inv db_inv abs_db sv w"
  using assms(1)
proof (induction rule: rtranclp_induct)
  case base
  show ?case
    by (simp add: process_inv_def fresh_process_def builds_inv_def api_ok_def empty_astore_def del: abs_db_simps)
next
  case (step w w')
  show ?case by (rule sq.process_step_keeps [OF step.hyps(2) step.IH assms(2)])
qed

lemma process_inv_rows:
  assumes "process_inv db_inv abs_db sv w"
  shows "db_inv (w_store w)" "list_all (app_ok sv) (t_applications (w_store w))"
    "list_all fn_ok (t_functions (w_store w))"
    "list_all (\<lambda>x. good_source (src_Files x)) (t_sources (w_store w))"
    "list_all (watched (w_watchers w)) (t_builds (w_store w))"
proof -
  show db: "db_inv (w_store w)" using assms by (simp add: process_inv_def)
  have ok: "api_ok sv (abs_db (w_store w))" and b: "builds_inv (A_blds (abs_db (w_store w))) (w_watchers w)"
    using assms by (simp_all add: process_inv_def del: abs_db_simps)
  show "list_all (app_ok sv) (t_applications (w_store w))"
    using ok unfolding api_ok_def list_all_iff abs_db_simps
    by (metis by_key_in [OF db_invD(2) [OF db]])
  show "list_all fn_ok (t_functions (w_store w))"
    using ok unfolding api_ok_def list_all_iff abs_db_simps
    by (metis by_key_in [OF db_invD(3) [OF db]])
  show "list_all (\<lambda>x. good_source (src_Files x)) (t_sources (w_store w))"
    using ok unfolding api_ok_def list_all_iff abs_db_simps
    by (metis by_key_in [OF db_invD(4) [OF db]])
  show "list_all (watched (w_watchers w)) (t_builds (w_store w))"
    using builds_invD(2) [OF b] by_key_in [OF db_invD(5) [OF db]] by (auto simp: list_all_iff)
qed

text \<open>
  C3: What the handlers let through. In every state that a process which started with an empty
  database can reach, however its requests interleave at their store calls and whatever the
  watchers and the cluster do meanwhile: every stored application belongs to the tenant, has a
  DNS-1123 name, a supported language, one of the two runtimes, at least one replica, legal
  variable names and resources that the platform policy passes unchanged; every function has a
  DNS-1123 name and a route; every stored source has a file, no name twice and no name that leads
  out of its directory.
\<close>

theorem process_invariant:
  assumes "rtranclp (process_step sv) (fresh_process k) w" "sv_store sv = sqlite_ops"
  shows "list_all (app_ok sv) (t_applications (w_store w)) \<and> list_all fn_ok (t_functions (w_store w)) \<and>
    list_all (\<lambda>x. good_source (src_Files x)) (t_sources (w_store w))"
  using process_inv_rows [OF process_reachable [OF assms]] by blast

text \<open>
  C4: Every request is a run of the process. From a reachable state any request to any endpoint,
  authenticated or not, whatever its body (whose file map names no file twice), ends in a state
  that is reached by the steps of the process: single store calls with checked arguments, changes
  of the cluster, counters and, for a build, its start under a fresh identifier.
\<close>

theorem requests_are_runs:
  assumes "rtranclp (process_step sv) (fresh_process k) w" "sv_store sv = sqlite_ops" "payload_ok pl"
    "newID (e_uuid e) \<notin> wt_BuildID ` set (w_watchers w)"
  shows "rtranclp (process_step sv) w (snd (serve sv e au q pl ep w)) \<and>
    rtranclp (process_step sv) (fresh_process k) (snd (serve sv e au q pl ep w))"
proof -
  have "rtranclp (process_step sv) w (snd (serve sv e au q pl ep w))"
    using sq.serve_runs [OF process_reachable [OF assms(1,2)] assms(2-4)] by (simp add: runs_def)
  with assms(1) show ?thesis by (meson rtranclp_trans)
qed

text \<open>Any run of checked store calls is a run of the process.\<close>

lemma calls_run:
  assumes "sv_store sv = S" "list_all (call_ok sv) cs"
  shows "rtranclp (process_step sv) w (w\<lparr>w_store := snd (run_calls (exec_call S) cs (w_store w))\<rparr>)"
  using assms(2)
proof (induction cs arbitrary: w)
  case (Cons c cs)
  let ?w1 = "snd (store_do (exec_call S c) w)"
  have "process_step sv w ?w1" using proc_call [of sv c w] Cons.prems by (simp add: assms(1))
  moreover have "rtranclp (process_step sv) ?w1 (?w1\<lparr>w_store := snd (run_calls (exec_call S) cs (w_store ?w1))\<rparr>)"
    by (rule Cons.IH) (use Cons.prems in simp)
  ultimately show ?case
    by (simp add: store_do_def case_prod_unfold converse_rtranclp_into_rtranclp)
qed simp

section \<open>The watchers come to an end\<close>

inductive watcher_step :: "('s, 'k, 'q) server \<Rightarrow> ('s, 'k) world \<Rightarrow> ('s, 'k) world \<Rightarrow> bool" for sv where
  watcher_begins: "n < length (w_watchers w) \<Longrightarrow> \<not> wt_Polling (w_watchers w ! n) \<Longrightarrow>
    watcher_step sv w (begin_at (sv_store sv) n w)"
| watcher_ends: "n < length (w_watchers w) \<Longrightarrow> wt_Polling (w_watchers w ! n) \<Longrightarrow>
    watcher_step sv w (end_at (sv_store sv) (sv_quantity sv) (sv_kube sv) (sv_builder sv) now n polled w)"

lemma watcher_process_step: "watcher_step sv w w' \<Longrightarrow> process_step sv w w'"
  by (auto elim!: watcher_step.cases intro: process_step.intros)

text \<open>The steps that the watchers still have before them.\<close>

definition pending_steps :: "('s, 'k) world \<Rightarrow> nat" where
  "pending_steps w = sum_list (map (\<lambda>wt. if wt_Polling wt then 1 else 2) (w_watchers w))"

lemma pending_steps_bound: "pending_steps w \<le> 2 * length (w_watchers w)"
proof -
  have "sum_list (map (\<lambda>wt. if wt_Polling wt then 1 else 2 :: nat) ws) \<le> 2 * length ws" for ws
    by (induction ws) auto
  then show ?thesis by (simp add: pending_steps_def)
qed

lemma sum_list_at:
  fixes g :: "'a \<Rightarrow> nat"
  assumes "n < length xs"
  shows "sum_list (map g (xs[n := y])) + g (xs ! n) = sum_list (map g xs) + g y"
    "sum_list (map g (take n xs @ drop (Suc n) xs)) + g (xs ! n) = sum_list (map g xs)"
  using assms
  by (simp_all add: id_take_nth_drop [OF assms, THEN arg_cong, of "\<lambda>xs. sum_list (map g xs)"] upd_conv_take_nth_drop)

lemma watcher_step_pending:
  assumes "watcher_step sv w w'"
  shows "Suc (pending_steps w') = pending_steps w"
  using assms
proof cases
  case (watcher_begins n)
  then show ?thesis
    using sum_list_at(1) [OF watcher_begins(2), of "\<lambda>wt. if wt_Polling wt then 1 else 2"
        "(w_watchers w ! n)\<lparr>wt_Polling := True\<rparr>"]
    by (simp add: begin_at_def Let_def pending_steps_def)
next
  case (watcher_ends n now polled)
  then show ?thesis
    using sum_list_at(2) [OF watcher_ends(2), of "\<lambda>wt. if wt_Polling wt then 1 else 2"]
    by (simp add: end_at_def Let_def pending_steps_def)
qed

lemma watcher_steps_pending: "(watcher_step sv ^^ n) w w' \<Longrightarrow> n + pending_steps w' = pending_steps w"
proof (induction n arbitrary: w')
  case (Suc n)
  then obtain w1 where "(watcher_step sv ^^ n) w w1" "watcher_step sv w1 w'" by auto
  with Suc.IH watcher_step_pending show ?case by fastforce
qed simp

lemma watcher_step_enabled: "w_watchers w \<noteq> [] \<longleftrightarrow> (\<exists>w'. watcher_step sv w w')"
proof
  assume "w_watchers w \<noteq> []"
  then have "0 < length (w_watchers w)" by simp
  then show "\<exists>w'. watcher_step sv w w'"
    by (cases "wt_Polling (w_watchers w ! 0)") (blast intro: watcher_step.intros)+
qed (auto elim: watcher_step.cases)


lemma watchers_can_finish:
  "\<exists>w'. rtranclp (watcher_step sv) w w' \<and> w_watchers w' = []"
proof (induction "pending_steps w" arbitrary: w rule: less_induct)
  case less
  show ?case
  proof (cases "w_watchers w = []")
    case False
    then obtain w1 where s: "watcher_step sv w w1" using watcher_step_enabled by blast
    with less.hyps [of w1] watcher_step_pending [OF s] obtain w' where
      "rtranclp (watcher_step sv) w1 w'" "w_watchers w' = []" by auto
    with s show ?thesis by (meson converse_rtranclp_into_rtranclp)
  qed blast
qed

lemma watcher_step_builds:
  assumes "watcher_step sv w w'" "sv_store sv = sqlite_ops"
  shows "map b_ID (t_builds (w_store w')) = map b_ID (t_builds (w_store w))"
  using assms(1)
proof cases
  case (watcher_begins n)
  then show ?thesis
    by (simp add: begin_at_def watch_begin_def Let_def assms(2) sq_UpdateBuildStatus_def)
next
  case (watcher_ends n now polled)
  show ?thesis
    by (rule watch_outcome_cases [of w sqlite_ops "w_watchers w ! n" "sv_quantity sv" "sv_kube sv" "sv_builder sv" now polled])
      (auto simp: watcher_ends(1) end_at_def Let_def assms(2) sq_UpdateBuildStatus_def sq_UpdateBuildImageSize_def)
qed


section \<open>Examples\<close>

definition open_server :: "(db, cluster, int) server" where
  "open_server = example_server\<lparr>sv_resourcePolicy := example_policy\<lparr>Mode := []\<rparr>\<rparr>"

lemma open_server_simps [simp]:
  "sv_store open_server = sqlite_ops" "sv_kube open_server = mem_kube"
  "sv_quantity open_server = digit_quantity" "sv_builder open_server = example_config"
  "Mode (sv_resourcePolicy open_server) = []"
  by (simp_all add: open_server_def)

lemma example_app_ok: "app_ok open_server example_app"
  by (simp add: app_ok_def example_app_def defaultTenant_def dns1123_def lower_alnum_def less_eq_char_def
      is_digit_def supported_languages_def vars_ok_def res_ok_def)

lemma example_process:
  "rtranclp (process_step open_server) (fresh_process empty_cluster) example_w2"
proof -
  have "process_step open_server (fresh_process empty_cluster) example_w1"
    using proc_call [of open_server "CallCreateApplication 1 example_app" "fresh_process empty_cluster"]
      example_app_ok by (simp add: example_w1_def)
  moreover have "process_step open_server example_w1 example_w2"
    using proc_start [of "''b-1''" example_w1 open_server 5 example_app "[example_input]"]
    by (simp add: example_w2_def example_stores)
  ultimately show ?thesis by (meson rtranclp.simps)
qed

theorem process_invariant_witness:
  "t_applications (w_store example_w2) \<noteq> [] \<and>
   list_all (app_ok open_server) (t_applications (w_store example_w2)) \<and>
   list_all fn_ok (t_functions (w_store example_w2)) \<and>
   list_all (\<lambda>x. good_source (src_Files x)) (t_sources (w_store example_w2))"
  using process_invariant [OF example_process] by (simp add: example_w2_facts)

definition example_payload :: payload where
  "example_payload =
     \<lparr>in_app = Some \<lparr>ca_Name = ''hi'', ca_Language = ''go'', ca_Runtime = [], ca_Description = []\<rparr>,
      in_patch = None, in_deploy = None, in_fn = None, in_route = None, in_files = None,
      in_invoke = Inl ''EOF'', in_archive = Inl ''EOF''\<rparr>"

theorem requests_are_runs_witness:
  "rtranclp (process_step open_server) example_w2
     (snd (serve open_server example_env True (\<lambda>k. []) example_payload ECreateApplication example_w2)) \<and>
   rtranclp (process_step open_server) (fresh_process empty_cluster)
     (snd (serve open_server example_env True (\<lambda>k. []) example_payload ECreateApplication example_w2))"
proof (rule requests_are_runs [OF example_process])
  show "newID (e_uuid example_env) \<notin> wt_BuildID ` set (w_watchers example_w2)"
    by (simp add: example_w2_facts new_watcher_def newID_def)
qed (simp_all add: payload_ok_def example_payload_def)


end
