(* ===== verification/Effects.thy ===== *)
theory Effects
  imports Process
begin

text \<open>
  What requests do to the process as a whole: failing requests, the configuration of an
  application, and the tree that a build of the stored sources ships.
\<close>

section \<open>Errors\<close>

lemma Start_Inl_watchers:
  "Start S K cfg now uuid app fns w = (Inl err, w') \<Longrightarrow> w_watchers w' = w_watchers w"
  by (auto simp: Start_def Let_def fail_build_def store_do_def kube_do_def
      split: sum.splits prod.splits if_splits)

text \<open>A build that could not be started leaves nothing or one failed row.\<close>

definition failed_row :: "astore \<Rightarrow> astore \<Rightarrow> bool" where
  "failed_row A A' \<longleftrightarrow>
     (\<exists>b. A_blds A (b_ID b) = None \<and> b_Status b = BuildFailed \<and> build_over b \<and>
        A' = A\<lparr>A_blds := (A_blds A)(b_ID b \<mapsto> b)\<rparr>)"

context store_contract begin

lemma Start_Inl_store:
  assumes "inv (w_store w)" "Start S K cfg now uuid app fns w = (Inl err, w')"
  shows "abs (w_store w') = abs (w_store w) \<or> failed_row (abs (w_store w)) (abs (w_store w'))"
proof -
  have w': "snd (Start S K cfg now uuid app fns w) = w'" by (simp add: assms(2))
  show ?thesis
  proof (rule Start_cases [of S K cfg now uuid app fns w], unfold w')
    fix ref e s1
    assume "CreateBuild S now (new_build (newID uuid) (a_ID app) ref now) (w_store w) = (Inl e, s1)"
      "w_store w' = s1"
    then show ?thesis by (auto elim: create_build_result [OF assms(1)])
  next
    fix ref s1 msg
    let ?new = "new_build (newID uuid) (a_ID app) ref now"
    let ?b = "(stored_build now ?new)\<lparr>b_Status := BuildFailed, b_Error := msg, b_FinishedAt := Some now\<rparr>"
    assume st: "CreateBuild S now ?new (w_store w) = (Inr (), s1)"
      "w_store w' = snd (UpdateBuildStatus S (newID uuid) BuildFailed msg (Some now) s1)"
    have ok: "can_create_build ?new (abs (w_store w))"
      using create_build_err [OF assms(1), of ?new now] st(1) by fastforce
    have c: "inv s1" "abs s1 = (abs (w_store w))\<lparr>A_blds :=
        (A_blds (abs (w_store w)))(newID uuid \<mapsto> stored_build now ?new)\<rparr>"
      using create_build [OF assms(1) ok, of now] st(1) by (simp_all add: stored_new_build)
    have "abs (w_store w') = (abs (w_store w))\<lparr>A_blds := (A_blds (abs (w_store w)))(b_ID ?b \<mapsto> ?b)\<rparr>"
      using update_status [OF c(1), of "newID uuid" BuildFailed msg "Some now"] c(2) st(2)
      by (simp add: stored_new_build)
    moreover have "A_blds (abs (w_store w)) (b_ID ?b) = None"
      using ok by (simp add: can_create_build_def)
    ultimately have "failed_row (abs (w_store w)) (abs (w_store w'))"
      unfolding failed_row_def by (intro exI [of _ ?b]) (simp add: build_over_def)
    then show ?thesis ..
  next
    fix ref s1
    assume "w_watchers w' = w_watchers w @ [new_watcher (newID uuid) app ref now]"
    then show ?thesis using Start_Inl_watchers [OF assms(2)] by simp
  qed simp
qed

lemma serve_error:
  assumes "inv (w_store w)" "sv_store sv = S" "serve sv e au q pl ep w = (r, w')" "is_error r"
  shows "w_watchers w' = w_watchers w \<and>
    (abs (w_store w') = abs (w_store w) \<or> (\<exists>i. ep = EStartBuild i) \<and> failed_row (abs (w_store w)) (abs (w_store w')))"
proof (cases "writes_state ep")
  case False
  then have "w' = w" using serve_pure [of ep sv e au q pl w] assms(3) by simp
  then show ?thesis by simp
next
  case True
  then show ?thesis
  proof (cases ep)
    case (EStartBuild i)
    then have st: "startBuild sv e au i w = (r, w')" using assms(3) by simp
    show ?thesis
    proof (cases rule: startBuild_cases [OF assms(1,2) st, case_names refused started broken])
      case (broken app fns ins err)
      then show ?thesis
        using Start_Inl_store [OF assms(1) broken(5)] Start_Inl_watchers [OF broken(5)] EStartBuild by blast
    qed (use assms(4) in \<open>auto simp: is_error_def\<close>)
  next
    case (EDeployApplication i)
    then show ?thesis
      using assms(3) by (auto simp: deployApplication_def guarded_def or_reply_def kube_do_def Let_def
          split: sum.splits prod.splits if_splits)
  qed (use assms in \<open>auto dest: createApplication_effect updateApplication_effect deleteApplication_effect
      createFunction_effect updateFunction_effect deleteFunction_effect putSource_effect importSource_effect
      simp: Let_def is_error_def split: if_splits\<close>)
qed

end



section \<open>Configuration\<close>

lemma copy_variable: "\<lparr>var_Name = var_Name v, var_Value = var_Value v\<rparr> = (v :: variable)"
  by (cases v) simp

lemma patched_config_Inr:
  assumes "patched_config sv app inp = Inr (desc, n, vs, res)"
  shows "desc = (case ua_Description inp of None \<Rightarrow> a_Description app | Some d \<Rightarrow> d)"
    "n = (case ua_Replicas inp of None \<Rightarrow> a_Replicas app | Some n \<Rightarrow> n)" "0 \<le> n"
    "vs = (case ua_Variables inp of None \<Rightarrow> a_Variables app | Some vs \<Rightarrow> vs)"
    "case ua_Variables inp of None \<Rightarrow> True | Some vs \<Rightarrow> vars_ok vs"
    "Apply (sv_quantity sv) (sv_resourcePolicy sv)
       (case ua_Resources inp of None \<Rightarrow> a_Resources app | Some r \<Rightarrow> r) = Inr res"
  using assms
  by (auto simp: patched_config_def Let_def vars_ok_def list_ex_iff list_all_iff copy_variable
      split: if_splits sum.splits option.splits)

text \<open>
  C14: An update of an application is partial and all or nothing. It fails without any effect, or
  the row of that application, and nothing else in the store, changes: it keeps its identity, name,
  language and runtime; the fields that the request leaves out keep their values and the others get
  those of the request, but at least one replica is stored; the variables have legal names; and the
  resources are what the platform policy makes of the ones asked for.
\<close>

theorem update_application_spec:
  assumes "db_inv (w_store w)" "sv_store sv = sqlite_ops"
    "updateApplication sv e True i (Some inp) w = (r, w')"
  shows "is_error r \<and> w' = w \<or>
    (\<exists>app app'. A_apps (abs_db (w_store w)) i = Some app \<and>
       abs_db (w_store w') = (abs_db (w_store w))\<lparr>A_apps := (A_apps (abs_db (w_store w)))(i \<mapsto> app')\<rparr> \<and>
       a_ID app' = i \<and> a_TenantID app' = a_TenantID app \<and> a_Name app' = a_Name app \<and>
       a_Language app' = a_Language app \<and> a_Runtime app' = a_Runtime app \<and>
       a_Description app' = (case ua_Description inp of None \<Rightarrow> a_Description app | Some d \<Rightarrow> d) \<and>
       a_Replicas app' = max 1 (case ua_Replicas inp of None \<Rightarrow> a_Replicas app | Some n \<Rightarrow> n) \<and>
       a_Variables app' = (case ua_Variables inp of None \<Rightarrow> a_Variables app | Some vs \<Rightarrow> vs) \<and>
       (case ua_Variables inp of None \<Rightarrow> True | Some vs \<Rightarrow> vars_ok vs) \<and>
       Apply (sv_quantity sv) (sv_resourcePolicy sv)
         (case ua_Resources inp of None \<Rightarrow> a_Resources app | Some r \<Rightarrow> r) = Inr (a_Resources app'))"
proof (cases "is_error r \<and> w' = w")
  case False
  then obtain app desc n vs res where upd: "A_apps (abs_db (w_store w)) i = Some app"
    "patched_config sv app inp = Inr (desc, n, vs, res)"
    "abs_db (w_store w') = (abs_db (w_store w))\<lparr>A_apps :=
       (A_apps (abs_db (w_store w)))(i \<mapsto> configured (e_now e) desc n vs res app)\<rparr>"
    using sq.updateApplication_effect [OF assms] by (auto simp del: abs_db_simps)
  note c = patched_config_Inr [OF upd(2)]
  have "a_ID app = i" by (rule astore_invD(1) [OF sq.abs_inv [OF assms(1)] upd(1)])
  then show ?thesis
    using upd(1,3) c
    by (intro disjI2 exI [of _ app] exI [of _ "configured (e_now e) desc n vs res app"])
      (simp add: configured_def max_def del: abs_db_simps)
qed simp

definition example_patch :: update_application_input where
  "example_patch = \<lparr>ua_Description = Some ''new'', ua_Replicas = Some 0, ua_Variables = None,
     ua_Resources = None\<rparr>"

theorem update_application_spec_witness:
  "\<exists>r w'. updateApplication open_server example_env True ''a1'' (Some example_patch) two_function_world = (r, w') \<and>
    (is_error r \<and> w' = two_function_world \<or>
    (\<exists>app app'. A_apps (abs_db (w_store two_function_world)) ''a1'' = Some app \<and>
       abs_db (w_store w') = (abs_db (w_store two_function_world))\<lparr>A_apps :=
         (A_apps (abs_db (w_store two_function_world)))(''a1'' \<mapsto> app')\<rparr> \<and>
       a_ID app' = ''a1'' \<and> a_Replicas app' = 1))"
proof -
  obtain r w' where u: "updateApplication open_server example_env True ''a1'' (Some example_patch)
      two_function_world = (r, w')" by fastforce
  show ?thesis
    using update_application_spec [OF db_inv_two_function_world _ u] u
    by (intro exI [of _ r] exI [of _ w']) (auto simp: example_patch_def simp del: abs_db_simps)
qed

section \<open>A build ships what is stored\<close>

lemma Start_Inr:
  assumes "Start S K cfg now uuid app fns w = (Inr bld, w')"
  shows "\<exists>manifest tar. synthesizeSpinToml (a_Language app) (a_Name app) (build_specs fns) = Inr manifest \<and>
     packFiles (AList.update ''spin.toml'' manifest (build_files fns)) = Inr tar \<and>
     (case fst (ka_CreateSecret K (bc_Namespace cfg) (build_secret cfg (newID uuid) tar) (w_kube w)) of
        Inl err \<Rightarrow> IsAlreadyExists err | Inr _ \<Rightarrow> True)"
  using assms
  by (auto simp: Start_def Let_def createSecret_def store_do_def kube_do_def
      split: sum.splits prod.splits if_splits)

lemma started_inputs_well_named:
  assumes "process_inv db_inv abs_db sv w" "sv_store sv = sqlite_ops"
    "ListFunctions sqlite_ops aid (w_store w) = Inr fns" "build_inputs sv fns w = Inr ins"
  shows "well_named ins" "map bi_Function ins = fns"
    "set fns = {f \<in> set (t_functions (w_store w)). f_ApplicationID f = aid}"
    "list_all (\<lambda>fb. bi_Source fb \<in> set (t_sources (w_store w)) \<and>
       src_FunctionID (bi_Source fb) = f_ID (bi_Function fb)) ins"
proof -
  note rows = process_inv_rows [OF assms(1)]
  have ai: "astore_inv (abs_db (w_store w))" by (rule sq.abs_inv [OF rows(1)])
  obtain fs where fs: "ListFunctions sqlite_ops aid (w_store w) = Inr fs" "distinct fs"
    "set fs = {f \<in> ran (A_fns (abs_db (w_store w))). f_ApplicationID f = aid}"
    using sq.list_fns [OF rows(1), of aid] by blast
  then have fns: "distinct fns" using assms(3) by simp
  show set: "set fns = {f \<in> set (t_functions (w_store w)). f_ApplicationID f = aid}"
    using fs assms(3) db_invD(3) [OF rows(1)] by (simp add: ran_by_key)
  note ins = sq.build_inputs_contract [OF rows(1) assms(2,4)]
  show map: "map bi_Function ins = fns" by (rule ins(1))
  show src: "list_all (\<lambda>fb. bi_Source fb \<in> set (t_sources (w_store w)) \<and>
       src_FunctionID (bi_Source fb) = f_ID (bi_Function fb)) ins"
    using ins(2) by (auto simp: list_all_iff dest: by_key_SomeD)
  have "inj_on f_Name (set fns)"
    using astore_inv_unique(2) [OF ai] by_key_in [OF db_invD(3) [OF rows(1)]] set
    by (auto simp: inj_on_def) (metis option.inject)
  then have "distinct (map f_Name (map bi_Function ins))"
    using fns map by (simp add: distinct_map del: map_map)
  moreover have "CHR ''/'' \<notin> set (f_Name (bi_Function fb))" if "fb \<in> set ins" for fb
    using rows(3) set map that by (auto simp: list_all_iff fn_ok_def dest!: dns1123_no_slash)
  moreover have "distinct (map fst (src_Files (bi_Source fb)))" if "fb \<in> set ins" for fb
    using rows(4) src that by (auto simp: list_all_iff good_source_def)
  ultimately show "well_named ins" by (simp add: well_named_def list_all_iff comp_def)
qed

text \<open>
  C12: A build ships exactly what is stored. When the start of a build is accepted in a reachable
  state, the Secret of the build was created (or existed) with an archive that packs a tree whose
  \<^verbatim>\<open>spin.toml\<close> is the manifest of the application's functions and which holds, for every
  function of the application, under its own directory exactly the files that are stored for it.
\<close>

theorem started_build_ships_sources:
  assumes "rtranclp (process_step sv) (fresh_process k) w" "sv_store sv = sqlite_ops"
    "startBuild sv e True appId w = (OneBuild 202 b, w')"
  shows "\<exists>app specs manifest tree tar.
    A_apps (abs_db (w_store w)) appId = Some app \<and>
    set specs = {\<lparr>fs_Name = f_Name f, fs_Route = f_Route f\<rparr> | f. f \<in> set (t_functions (w_store w)) \<and> f_ApplicationID f = appId} \<and>
    synthesizeSpinToml (a_Language app) (a_Name app) specs = Inr manifest \<and>
    map_of tree ''spin.toml'' = Some manifest \<and> packFiles tree = Inr tar \<and>
    (case fst (ka_CreateSecret (sv_kube sv) (bc_Namespace (sv_builder sv))
         (build_secret (sv_builder sv) (newID (e_uuid e)) tar) (w_kube w)) of
       Inl err \<Rightarrow> IsAlreadyExists err | Inr _ \<Rightarrow> True) \<and>
    list_all (\<lambda>f. \<exists>x \<in> set (t_sources (w_store w)). src_FunctionID x = f_ID f \<and>
        (\<forall>p. map_of tree (''functions/'' @ f_Name f @ ''/'' @ p) = map_of (src_Files x) p))
      (filter (\<lambda>f. f_ApplicationID f = appId) (t_functions (w_store w)))"
proof -
  have pi: "process_inv db_inv abs_db sv w" by (rule process_reachable [OF assms(1,2)])
  note db = process_inv_rows(1) [OF pi]
  show ?thesis
  proof (cases rule: sq.startBuild_cases [OF db assms(2,3), case_names refused started broken])
    case (started app fns ins bld)
    note ins = started_inputs_well_named [OF pi assms(2) started(3,4)]
    from Start_Inr [OF started(5)] obtain manifest tar where st:
      "synthesizeSpinToml (a_Language app) (a_Name app) (build_specs ins) = Inr manifest"
      "packFiles (AList.update ''spin.toml'' manifest (build_files ins)) = Inr tar"
      "case fst (ka_CreateSecret (sv_kube sv) (bc_Namespace (sv_builder sv))
         (build_secret (sv_builder sv) (newID (e_uuid e)) tar) (w_kube w)) of
       Inl err \<Rightarrow> IsAlreadyExists err | Inr _ \<Rightarrow> True" by blast
    let ?tree = "AList.update ''spin.toml'' manifest (build_files ins)"
    have app: "A_apps (abs_db (w_store w)) appId = Some app"
      by (rule sq.has_app_load(1) [OF db assms(2) started(2)])
    have specs: "set (build_specs ins) = {\<lparr>fs_Name = f_Name f, fs_Route = f_Route f\<rparr> | f.
        f \<in> set (t_functions (w_store w)) \<and> f_ApplicationID f = appId}"
    proof -
      have "build_specs ins = map (\<lambda>f. \<lparr>fs_Name = f_Name f, fs_Route = f_Route f\<rparr>) (map bi_Function ins)"
        by (simp add: build_specs_def)
      then show ?thesis unfolding ins(2) using ins(3) by auto
    qed
    have files: "\<exists>x \<in> set (t_sources (w_store w)). src_FunctionID x = f_ID f \<and>
        (\<forall>p. map_of ?tree (''functions/'' @ f_Name f @ ''/'' @ p) = map_of (src_Files x) p)"
      if "f \<in> set (t_functions (w_store w))" "f_ApplicationID f = appId" for f
    proof -
      have "f \<in> set (map bi_Function ins)" unfolding ins(2,3) using that by simp
      then obtain fb where fb: "fb \<in> set ins" "bi_Function fb = f" by auto
      then show ?thesis
        using build_tree_files [OF ins(1) fb(1), of manifest] ins(4)
        by (intro bexI [of _ "bi_Source fb"]) (auto simp: list_all_iff)
    qed
    have spin: "map_of ?tree ''spin.toml'' = Some manifest" by (simp add: update_conv)
    show ?thesis
      using app specs st spin files
      by (intro exI [of _ app] exI [of _ "build_specs ins"] exI [of _ manifest] exI [of _ ?tree] exI [of _ tar] conjI)
        (auto simp: list_all_iff)
  qed (auto simp: is_error_def)
qed

definition stored_calls :: "store_call list" where
  "stored_calls =
     [CallCreateApplication 1 example_app, CallCreateFunction 2 (default_function ''f1'' ''a1''),
      CallPutSource 4 (new_source ''f1'' [(''m.go'', ''x'')])]"

definition stored_world :: "(db, cluster) world" where
  "stored_world = (fresh_process empty_cluster)\<lparr>w_store := snd (run_calls (exec_call sqlite_ops) stored_calls
     (w_store (fresh_process empty_cluster :: (db, cluster) world)))\<rparr>"

lemma stored_rows:
  "t_applications (w_store stored_world) = [stored_app 1 example_app]"
  "t_functions (w_store stored_world) = [stored_fn 2 (default_function ''f1'' ''a1'')]"
  "t_sources (w_store stored_world) = [(new_source ''f1'' [(''m.go'', ''x'')])\<lparr>src_UpdatedAt := 4\<rparr>]"
  "t_builds (w_store stored_world) = []" "foreign_keys (w_store stored_world)"
  "w_watchers stored_world = []" "w_kube stored_world = empty_cluster"
proof -
  have "json_files [(''m.go'', ''x'')] = [(''m.go'', ''x'')]"
    by (simp add: json_files_id text_files_def utf8_Valid_ascii)
  then show "t_applications (w_store stored_world) = [stored_app 1 example_app]"
    "t_functions (w_store stored_world) = [stored_fn 2 (default_function ''f1'' ''a1'')]"
    "t_sources (w_store stored_world) = [(new_source ''f1'' [(''m.go'', ''x'')])\<lparr>src_UpdatedAt := 4\<rparr>]"
    "t_builds (w_store stored_world) = []" "foreign_keys (w_store stored_world)"
    "w_watchers stored_world = []" "w_kube stored_world = empty_cluster"
    by (simp_all add: stored_world_def stored_calls_def fresh_process_def sq_CreateApplication_def
        sq_CreateFunction_def sq_PutSource_def empty_db_def Let_def stored_app_def stored_fn_def
        example_app_def default_function_def new_source_def runtime_defs app_exists_def)
qed

lemma stored_reachable:
  "rtranclp (process_step open_server) (fresh_process empty_cluster) stored_world"
  unfolding stored_world_def
  by (rule calls_run)
    (simp_all add: stored_calls_def example_app_ok default_function_ok good_source_def new_source_def stays_below_def)

lemma packFiles_accepts:
  assumes "\<And>n. n \<in> fst ` set files \<Longrightarrow> \<not> refused n"
  shows "\<exists>tar. packFiles files = Inr tar"
proof -
  have "\<not> list_ex refused (sorted_names files)" using assms by (auto simp: list_ex_iff)
  then show ?thesis by (simp add: packFiles_def write_archive_buffer)
qed

lemma Start_mem_ok:
  assumes "profile cfg (a_Language app) = Inr img" "ins \<noteq> []"
    "synthesizeSpinToml (a_Language app) (a_Name app) (build_specs ins) = Inr m"
    "packFiles (AList.update ''spin.toml'' m (build_files ins)) = Inr tar"
    "app_exists (a_ID app) (w_store w)" "t_builds (w_store w) = []"
  shows "\<exists>b w'. Start sqlite_ops mem_kube cfg now uuid app ins w = (Inr b, w')"
  by (simp add: Start_def assms Let_def store_do_def kube_do_def createSecret_def createJob_def
      mem_kube_def sq_CreateBuild_def new_build_def is_zero_time_def)

lemma stored_build: "\<exists>b w'. startBuild open_server example_env True ''a1'' stored_world = (OneBuild 202 b, w')"
proof -
  let ?app = "stored_app 1 example_app" and ?fn = "stored_fn 2 (default_function ''f1'' ''a1'')"
  let ?src = "(new_source ''f1'' [(''m.go'', ''x'')])\<lparr>src_UpdatedAt := 4\<rparr>"
  let ?ins = "[\<lparr>bi_Function = ?fn, bi_Source = ?src\<rparr>]"
  have load: "loadApplication open_server ''a1'' stored_world = Inr ?app"
    by (simp add: loadApplication_def sq_GetApplication_def stored_rows stored_app_def example_app_def defaultTenant_def)
  have fns: "sq_ListFunctions (a_ID example_app) (w_store stored_world) = Inr [?fn]"
    by (simp add: sq_ListFunctions_def stored_rows stored_fn_def default_function_def example_app_def)
  have ins: "build_inputs open_server [?fn] stored_world = Inr ?ins"
    by (simp add: sq_GetSource_def stored_rows stored_fn_def default_function_def new_source_def)
  have prof: "profile example_config (a_Language ?app) = Inr ''go-img''"
    by (simp add: profile_def example_config_def stored_app_def example_app_def)
  obtain m where man: "synthesizeSpinToml (a_Language ?app) (a_Name ?app) (build_specs ?ins) = Inr m"
    by (simp add: synthesizeSpinToml_def build_specs_def Let_def)
  have names: "fst ` set (AList.update ''spin.toml'' m (build_files ?ins)) = {''functions/default/m.go'', ''spin.toml''}"
    by (simp add: build_files_def function_files_def new_source_def stored_fn_def default_function_def)
  have "\<not> refused ''spin.toml''" "\<not> refused ''functions/default/m.go''"
    by (simp_all add: refused_def archive_name_def clean_elems_def clean_step_def)
  with names obtain tar where tar: "packFiles (AList.update ''spin.toml'' m (build_files ?ins)) = Inr tar"
    using packFiles_accepts by (metis empty_iff insert_iff)
  have app: "app_exists (a_ID ?app) (w_store stored_world)" "t_builds (w_store stored_world) = []"
    by (simp_all add: app_exists_def stored_rows)
  obtain b w' where "Start sqlite_ops mem_kube example_config 7 ''u-1'' ?app ?ins stored_world = (Inr b, w')"
    using Start_mem_ok [OF prof _ man tar app] by blast
  then show ?thesis by (simp add: startBuild_def load fns ins del: build_inputs.simps)
qed

theorem started_build_ships_sources_witness:
  "\<exists>b w'. startBuild open_server example_env True ''a1'' stored_world = (OneBuild 202 b, w') \<and>
   filter (\<lambda>f. f_ApplicationID f = ''a1'') (t_functions (w_store stored_world)) \<noteq> [] \<and>
   (\<exists>app specs manifest tree tar.
    A_apps (abs_db (w_store stored_world)) ''a1'' = Some app \<and>
    set specs = {\<lparr>fs_Name = f_Name f, fs_Route = f_Route f\<rparr> | f. f \<in> set (t_functions (w_store stored_world)) \<and> f_ApplicationID f = ''a1''} \<and>
    synthesizeSpinToml (a_Language app) (a_Name app) specs = Inr manifest \<and>
    map_of tree ''spin.toml'' = Some manifest \<and> packFiles tree = Inr tar \<and>
    (case fst (ka_CreateSecret (sv_kube open_server) (bc_Namespace (sv_builder open_server))
         (build_secret (sv_builder open_server) (newID (e_uuid example_env)) tar) (w_kube stored_world)) of
       Inl err \<Rightarrow> IsAlreadyExists err | Inr _ \<Rightarrow> True) \<and>
    list_all (\<lambda>f. \<exists>x \<in> set (t_sources (w_store stored_world)). src_FunctionID x = f_ID f \<and>
        (\<forall>p. map_of tree (''functions/'' @ f_Name f @ ''/'' @ p) = map_of (src_Files x) p))
      (filter (\<lambda>f. f_ApplicationID f = ''a1'') (t_functions (w_store stored_world))))"
proof -
  obtain b w' where b: "startBuild open_server example_env True ''a1'' stored_world = (OneBuild 202 b, w')"
    using stored_build by blast
  have "filter (\<lambda>f. f_ApplicationID f = ''a1'') (t_functions (w_store stored_world)) \<noteq> []"
    by (simp add: stored_rows stored_fn_def default_function_def)
  then show ?thesis
    by (intro exI [of _ b] exI [of _ w'] conjI [OF b] conjI
        started_build_ships_sources [OF stored_reachable open_server_simps(1) b])
qed

end
