(* ===== verification/Config.thy ===== *)
theory Config
  imports Go_Strings
begin

text \<open>
  \<^verbatim>\<open>internal/config/config.go\<close>: the settings that \<^verbatim>\<open>Load\<close> reads from the environment, which is
  a function from names to values, \<^const>\<open>None\<close> where a variable is not set. A nil slice is the empty
  list.
\<close>

section \<open>Settings\<close>

record http_config =
  ht_Addr :: string

record oidc_config =
  oi_IssuerURL :: string
  oi_ClientID :: string
  oi_ClientSecret :: string
  oi_RedirectURL :: string
  oi_Audience :: string
  oi_DevInsecureSkipAuth :: bool

record authz_config =
  az_RequiredRoles :: "string list"

record db_config =
  db_Driver :: string
  db_DSN :: string

record functions_config =
  fc_Namespace :: string
  fc_PublicBaseURL :: string
  fc_PublicDomain :: string
  fc_PublicGateway :: string
  fc_ImagePullSecrets :: "string list"

record k8s_config =
  k8_Kubeconfig :: string
  k8_Kubecontext :: string

record builder_settings =
  bs_GoImage :: string
  bs_JSImage :: string
  bs_TSImage :: string
  bs_RustImage :: string
  bs_RegistryURL :: string
  bs_AuthSecret :: string
  bs_ImagePullSecrets :: "string list"

record metrics_config =
  me_PrometheusURL :: string

record worker_config =
  wo_URL :: string
  wo_UIURL :: string

record ui_config =
  ui_StaticDir :: string

record resource_policy_config =
  rp_Mode :: string
  rp_CPURequest :: string
  rp_CPULimit :: string
  rp_MemoryRequest :: string
  rp_MemoryLimit :: string

record config =
  cf_Version :: string
  cf_HTTP :: http_config
  cf_OIDC :: oidc_config
  cf_Authz :: authz_config
  cf_DB :: db_config
  cf_Functions :: functions_config
  cf_K8s :: k8s_config
  cf_Builder :: builder_settings
  cf_Metrics :: metrics_config
  cf_Worker :: worker_config
  cf_UI :: ui_config
  cf_ResourcePolicy :: resource_policy_config

section \<open>Loading\<close>

type_synonym environment = "string \<Rightarrow> string option"

definition env :: "environment \<Rightarrow> string \<Rightarrow> string \<Rightarrow> string" where
  "env E key def = (case E key of Some v \<Rightarrow> v | None \<Rightarrow> def)"

definition splitCSV :: "string \<Rightarrow> string list" where
  "splitCSV s =
     (if s = [] then [] else filter (\<lambda>p. p \<noteq> []) (map TrimSpace (split_on (CHR '','') s)))"

abbreviation trim_slashes :: "string \<Rightarrow> string" where
  "trim_slashes \<equiv> TrimRight (\<lambda>c. c = CHR ''/'')"

definition read_config :: "environment \<Rightarrow> config" where
  "read_config E =
     \<lparr>cf_Version = env E ''SPINUP_VERSION'' ''dev'',
      cf_HTTP = \<lparr>ht_Addr = env E ''SPINUP_HTTP_ADDR'' '':8080''\<rparr>,
      cf_OIDC =
        \<lparr>oi_IssuerURL = env E ''SPINUP_OIDC_ISSUER_URL'' [],
         oi_ClientID = env E ''SPINUP_OIDC_CLIENT_ID'' [],
         oi_ClientSecret = env E ''SPINUP_OIDC_CLIENT_SECRET'' [],
         oi_RedirectURL = env E ''SPINUP_OIDC_REDIRECT_URL'' [],
         oi_Audience = env E ''SPINUP_OIDC_AUDIENCE'' [],
         oi_DevInsecureSkipAuth = (env E ''SPINUP_DEV_INSECURE_SKIP_AUTH'' [] = ''true'')\<rparr>,
      cf_Authz = \<lparr>az_RequiredRoles = splitCSV (env E ''SPINUP_AUTHZ_REQUIRED_ROLES'' [])\<rparr>,
      cf_DB =
        \<lparr>db_Driver = ToLower (env E ''SPINUP_DB_DRIVER'' ''sqlite''),
         db_DSN = env E ''SPINUP_DB_DSN'' ''spinup.db''\<rparr>,
      cf_Functions =
        \<lparr>fc_Namespace = env E ''SPINUP_FUNCTIONS_NAMESPACE'' ''spinup-functions'',
         fc_PublicBaseURL = trim_slashes (env E ''SPINUP_PUBLIC_BASE_URL'' []),
         fc_PublicDomain = TrimSpace (env E ''SPINUP_FUNCTIONS_PUBLIC_DOMAIN'' []),
         fc_PublicGateway = TrimSpace (env E ''SPINUP_FUNCTIONS_PUBLIC_GATEWAY'' []),
         fc_ImagePullSecrets = splitCSV (env E ''SPINUP_FUNCTIONS_IMAGE_PULL_SECRETS'' [])\<rparr>,
      cf_K8s =
        \<lparr>k8_Kubeconfig = env E ''SPINUP_KUBECONFIG'' [], k8_Kubecontext = env E ''SPINUP_KUBECONTEXT'' []\<rparr>,
      cf_Builder =
        \<lparr>bs_GoImage = env E ''SPINUP_BUILDER_IMAGE_GO'' ''spinup/builder-go:latest'',
         bs_JSImage = env E ''SPINUP_BUILDER_IMAGE_JS'' ''spinup/builder-js:latest'',
         bs_TSImage = env E ''SPINUP_BUILDER_IMAGE_TS'' ''spinup/builder-ts:latest'',
         bs_RustImage = env E ''SPINUP_BUILDER_IMAGE_RUST'' ''spinup/builder-rust:latest'',
         bs_RegistryURL = env E ''SPINUP_OCI_REGISTRY_URL'' ''ttl.sh/spinup'',
         bs_AuthSecret = env E ''SPINUP_OCI_AUTH_SECRET'' [],
         bs_ImagePullSecrets = splitCSV (env E ''SPINUP_BUILDER_IMAGE_PULL_SECRETS'' [])\<rparr>,
      cf_Metrics = \<lparr>me_PrometheusURL = trim_slashes (env E ''SPINUP_PROMETHEUS_URL'' [])\<rparr>,
      cf_Worker =
        \<lparr>wo_URL = trim_slashes (env E ''SPINUP_WORKER_URL'' []),
         wo_UIURL = trim_slashes (env E ''SPINUP_WORKER_UI_URL'' [])\<rparr>,
      cf_UI = \<lparr>ui_StaticDir = env E ''SPINUP_UI_STATIC_DIR'' []\<rparr>,
      cf_ResourcePolicy =
        \<lparr>rp_Mode = env E ''SPINUP_RESOURCES_POLICY'' [],
         rp_CPURequest = env E ''SPINUP_RESOURCES_CPU_REQUEST'' [],
         rp_CPULimit = env E ''SPINUP_RESOURCES_CPU_LIMIT'' [],
         rp_MemoryRequest = env E ''SPINUP_RESOURCES_MEMORY_REQUEST'' [],
         rp_MemoryLimit = env E ''SPINUP_RESOURCES_MEMORY_LIMIT'' []\<rparr>\<rparr>"

definition Load :: "environment \<Rightarrow> string + config" where
  "Load E =
     (let c = read_config E
      in if \<not> oi_DevInsecureSkipAuth (cf_OIDC c) \<and> (oi_IssuerURL (cf_OIDC c) = [] \<or> oi_ClientID (cf_OIDC c) = [])
         then Inl (''SPINUP_OIDC_ISSUER_URL and SPINUP_OIDC_CLIENT_ID are required (or set ''
                   @ ''SPINUP_DEV_INSECURE_SKIP_AUTH=true for local dev)'')
         else if db_Driver (cf_DB c) \<noteq> ''sqlite'' \<and> db_Driver (cf_DB c) \<noteq> ''postgres''
         then Inl (''SPINUP_DB_DRIVER must be sqlite or postgres, got '' @ Quote (db_Driver (cf_DB c)))
         else Inr c)"

section \<open>What the settings look like\<close>

lemma TrimRight_last: "TrimRight P s \<noteq> [] \<Longrightarrow> \<not> P (last (TrimRight P s))"
proof -
  assume "TrimRight P s \<noteq> []"
  then have ne: "dropWhile P (rev s) \<noteq> []" by (simp add: TrimRight_def)
  then have "last (TrimRight P s) = hd (dropWhile P (rev s))" by (simp add: TrimRight_def last_rev)
  with hd_dropWhile [OF ne] show ?thesis by simp
qed

lemma TrimRight_hd: "TrimRight P s \<noteq> [] \<Longrightarrow> hd (TrimRight P s) = hd s"
proof -
  assume ne: "TrimRight P s \<noteq> []"
  have "s = TrimRight P s @ rev (takeWhile P (rev s))"
    unfolding TrimRight_def by (metis rev_append rev_rev_ident takeWhile_dropWhile_id)
  with ne show ?thesis by (metis hd_append2)
qed

lemma TrimSpace_ends:
  assumes "TrimSpace s \<noteq> []"
  shows "\<not> is_space (hd (TrimSpace s))" "\<not> is_space (last (TrimSpace s))"
proof -
  show "\<not> is_space (last (TrimSpace s))"
    using assms unfolding TrimSpace_def by (rule TrimRight_last)
  have "dropWhile is_space s \<noteq> []" using assms by (force simp: TrimSpace_def TrimRight_def)
  then show "\<not> is_space (hd (TrimSpace s))"
    using TrimRight_hd [of is_space "dropWhile is_space s"] assms hd_dropWhile [of is_space s]
    by (simp add: TrimSpace_def)
qed

text \<open>An entry of a list setting is not empty and has no white space around it.\<close>

lemma splitCSV_entries:
  "list_all (\<lambda>p. p \<noteq> [] \<and> \<not> is_space (hd p) \<and> \<not> is_space (last p)) (splitCSV s)"
  by (auto simp: splitCSV_def list_all_iff TrimSpace_ends)

lemma Load_Inr:
  assumes "Load E = Inr c"
  shows "c = read_config E" "db_Driver (cf_DB c) = ''sqlite'' \<or> db_Driver (cf_DB c) = ''postgres''"
    "oi_DevInsecureSkipAuth (cf_OIDC c) \<longleftrightarrow> E ''SPINUP_DEV_INSECURE_SKIP_AUTH'' = Some ''true''"
    "oi_DevInsecureSkipAuth (cf_OIDC c) \<or> oi_IssuerURL (cf_OIDC c) \<noteq> [] \<and> oi_ClientID (cf_OIDC c) \<noteq> []"
proof -
  show c: "c = read_config E" using assms by (auto simp: Load_def Let_def split: if_splits)
  show "db_Driver (cf_DB c) = ''sqlite'' \<or> db_Driver (cf_DB c) = ''postgres''"
    "oi_DevInsecureSkipAuth (cf_OIDC c) \<or> oi_IssuerURL (cf_OIDC c) \<noteq> [] \<and> oi_ClientID (cf_OIDC c) \<noteq> []"
    using assms unfolding Load_def Let_def by (simp_all split: if_splits)
  show "oi_DevInsecureSkipAuth (cf_OIDC c) \<longleftrightarrow> E ''SPINUP_DEV_INSECURE_SKIP_AUTH'' = Some ''true''"
    by (simp add: c read_config_def env_def split: option.split)
qed

text \<open>An empty environment is refused: authentication is not off by default.\<close>

lemma Load_empty: "\<exists>msg. Load Map.empty = Inl msg"
  by (simp add: Load_def read_config_def env_def Let_def)

end
