(* ===== verification/Telemetry.thy ===== *)
theory Telemetry
  imports Go_Strings
begin

text \<open>
  \<^verbatim>\<open>internal/telemetry/metrics.go\<close>: the set-up of the instruments and the middleware that counts
  requests. The Prometheus exporter, the resource detector and the meter of OpenTelemetry are
  parameters: each gives an error or not.
\<close>

section \<open>Instruments\<close>

datatype instrument_kind = Int64Counter | Float64Histogram

record instrument =
  is_Kind :: instrument_kind
  is_Name :: string
  is_Description :: string
  is_Unit :: string

record otel_lib =
  ol_Exporter :: "string option"
  ol_Resource :: "string \<Rightarrow> string \<Rightarrow> string option"
  ol_Instrument :: "instrument \<Rightarrow> string option"

text \<open>The fields of \<^verbatim>\<open>Metrics\<close>, in the order in which \<^verbatim>\<open>Init\<close> makes them.\<close>

record metrics =
  mt_HTTPRequests :: instrument
  mt_HTTPDuration :: instrument
  mt_FunctionsCreated :: instrument
  mt_FunctionsDeleted :: instrument
  mt_DeploysApplied :: instrument
  mt_BuildsStarted :: instrument
  mt_BuildsFinished :: instrument
  mt_BuildDuration :: instrument

abbreviation counter :: "string \<Rightarrow> string \<Rightarrow> instrument" where
  "counter n d \<equiv> \<lparr>is_Kind = Int64Counter, is_Name = n, is_Description = d, is_Unit = []\<rparr>"

abbreviation seconds_histogram :: "string \<Rightarrow> string \<Rightarrow> instrument" where
  "seconds_histogram n d \<equiv> \<lparr>is_Kind = Float64Histogram, is_Name = n, is_Description = d, is_Unit = ''s''\<rparr>"

definition all_metrics :: metrics where
  "all_metrics =
     \<lparr>mt_HTTPRequests = counter ''spinup_http_requests_total'' ''HTTP requests handled by the control plane'',
      mt_HTTPDuration = seconds_histogram ''spinup_http_request_duration_seconds'' ''HTTP request duration'',
      mt_FunctionsCreated = counter ''spinup_functions_created_total'' ''Functions created'',
      mt_FunctionsDeleted = counter ''spinup_functions_deleted_total'' ''Functions deleted'',
      mt_DeploysApplied =
        counter ''spinup_deploys_applied_total'' ''SpinApp CR applies invoked by the control plane'',
      mt_BuildsStarted = counter ''spinup_builds_started_total'' ''Build Jobs started'',
      mt_BuildsFinished =
        counter ''spinup_builds_finished_total'' ''Build Jobs that reached a terminal state'',
      mt_BuildDuration =
        seconds_histogram ''spinup_build_duration_seconds'' ''Time from build start to terminal state''\<rparr>"

definition instruments :: "metrics \<Rightarrow> instrument list" where
  "instruments m =
     [mt_HTTPRequests m, mt_HTTPDuration m, mt_FunctionsCreated m, mt_FunctionsDeleted m,
      mt_DeploysApplied m, mt_BuildsStarted m, mt_BuildsFinished m, mt_BuildDuration m]"

text \<open>The first instrument that the meter refuses ends the set-up.\<close>

fun register_all :: "(instrument \<Rightarrow> string option) \<Rightarrow> instrument list \<Rightarrow> string option" where
  "register_all f [] = None"
| "register_all f (i # is) = (case f i of Some err \<Rightarrow> Some err | None \<Rightarrow> register_all f is)"

definition Init :: "otel_lib \<Rightarrow> string \<Rightarrow> string + metrics" where
  "Init L serviceVersion =
     (case ol_Exporter L of
        Some err \<Rightarrow> Inl (''prom exporter: '' @ err)
      | None \<Rightarrow>
          (case ol_Resource L ''spinup-control-plane'' serviceVersion of
             Some err \<Rightarrow> Inl (''resource: '' @ err)
           | None \<Rightarrow>
               (case register_all (ol_Instrument L) (instruments all_metrics) of
                  Some err \<Rightarrow> Inl err
                | None \<Rightarrow> Inr all_metrics)))"

lemma register_all_None: "register_all f is = None \<longleftrightarrow> list_all (\<lambda>i. f i = None) is"
  by (induction "is") (auto split: option.split)

lemma Init_Inr:
  "Init L v = Inr m \<longleftrightarrow>
   m = all_metrics \<and> ol_Exporter L = None \<and> ol_Resource L ''spinup-control-plane'' v = None \<and>
   list_all (\<lambda>i. ol_Instrument L i = None) (instruments m)"
  by (auto simp: Init_def register_all_None [symmetric] split: option.splits)

text \<open>No two instruments share a name, which the exporter would refuse.\<close>

lemma instruments_distinct: "distinct (map is_Name (instruments all_metrics))"
  by (simp add: instruments_def all_metrics_def)

section \<open>The middleware\<close>

record status_recorder =
  sr_status :: nat
  sr_wrote :: bool

definition new_recorder :: status_recorder where
  "new_recorder = \<lparr>sr_status = 200, sr_wrote = False\<rparr>"

definition rec_WriteHeader :: "nat \<Rightarrow> status_recorder \<Rightarrow> status_recorder" where
  "rec_WriteHeader code r = (if \<not> sr_wrote r then r\<lparr>sr_status := code, sr_wrote := True\<rparr> else r)"

definition statusClass :: "nat \<Rightarrow> string" where
  "statusClass code =
     (if code \<ge> 500 then ''5xx'' else if code \<ge> 400 then ''4xx'' else if code \<ge> 300 then ''3xx''
      else if code \<ge> 200 then ''2xx'' else ''1xx'')"

text \<open>The attributes of the two instruments for one request.\<close>

record http_sample =
  hs_method :: string
  hs_route :: string
  hs_status :: string

definition http_sample_of :: "string \<Rightarrow> string \<Rightarrow> string \<Rightarrow> nat list \<Rightarrow> http_sample" where
  "http_sample_of meth pattern urlPath codes =
     \<lparr>hs_method = meth, hs_route = (if pattern = [] then urlPath else pattern),
      hs_status = statusClass (sr_status (fold rec_WriteHeader codes new_recorder))\<rparr>"

text \<open>Only the first status counts, as for the client.\<close>

lemma recorded_first: "sr_status (fold rec_WriteHeader (c # cs) new_recorder) = c"
proof -
  have "fold rec_WriteHeader cs r = r" if "sr_wrote r" for r
    using that by (induction cs arbitrary: r) (simp_all add: rec_WriteHeader_def)
  then show ?thesis by (simp add: rec_WriteHeader_def new_recorder_def)
qed

end
