(* ===== verification/Startup.thy ===== *)
theory Startup
  imports Config Telemetry Server
begin

text \<open>
  How the process is put together: \<^verbatim>\<open>cmd/control-plane/main.go\<close> up to the listening server,
  with the constructors it calls (\<^verbatim>\<open>auth.NewVerifier\<close>, \<^verbatim>\<open>auth.NewOAuth\<close>, \<^verbatim>\<open>k8s.New\<close>,
  \<^verbatim>\<open>proxy.New\<close>, \<^verbatim>\<open>deploy.New\<close>, \<^verbatim>\<open>builder.New\<close>). The OIDC and OAuth2 libraries, the Kubernetes
  client library, the database driver and OpenTelemetry are parameters.
\<close>

section \<open>Parameters\<close>

record oauth_client =
  cl_ClientID :: string
  cl_ClientSecret :: string
  cl_RedirectURL :: string
  cl_Scopes :: "string list"

record 'p idp =
  ip_NewProvider :: "string \<Rightarrow> string + 'p"
  ip_Verifier :: "'p \<Rightarrow> string \<Rightarrow> string \<Rightarrow> string + id_token"
  ip_Exchange :: "'p \<Rightarrow> oauth_client \<Rightarrow> string \<Rightarrow> string \<Rightarrow> string + token"
  ip_AuthCodeURL :: "'p \<Rightarrow> oauth_client \<Rightarrow> string \<Rightarrow> string \<Rightarrow> string"
  ip_EndSessionEndpoint :: "'p \<Rightarrow> string"
  ip_Sum256 :: "string \<Rightarrow> string"

text \<open>
  The client library of Kubernetes: the configuration inside a cluster, the one that the loading
  rules give for an explicit path and a context (both may be empty), and what each constructor
  makes of a configuration.
\<close>

record ('c, 'k) k8s_lib =
  kl_InClusterConfig :: "string + 'c"
  kl_ClientConfig :: "string \<Rightarrow> string \<Rightarrow> string + 'c"
  kl_Dynamic :: "'c \<Rightarrow> string + unit"
  kl_Typed :: "'c \<Rightarrow> string + unit"
  kl_TransportConfig :: "'c \<Rightarrow> string + unit"
  kl_Transport :: "'c \<Rightarrow> string + unit"
  kl_Clients :: "'c \<Rightarrow> 'k kube"
  kl_Host :: "'c \<Rightarrow> string"

record ('c, 'k, 'q, 'p) externals =
  ex_openSQLite :: "string \<Rightarrow> string + db"
  ex_idp :: "'p idp"
  ex_k8s :: "('c, 'k) k8s_lib"
  ex_quantity :: "'q quantity_ops"
  ex_telemetry :: otel_lib
  ex_cluster :: 'k

section \<open>Constructors\<close>

definition audience :: "oidc_config \<Rightarrow> string" where
  "audience cfg = (if oi_Audience cfg = [] then oi_ClientID cfg else oi_Audience cfg)"

text \<open>In dev-skip mode there is no token verifier; it is never asked.\<close>

definition NewVerifier :: "'p idp \<Rightarrow> oidc_config \<Rightarrow> string + 'm verifier" where
  "NewVerifier P cfg =
     (if oi_DevInsecureSkipAuth cfg
      then Inr \<lparr>v_Verify = (\<lambda>t. Inl []), v_skipAuth = True, v_sessions = None, v_policy = None\<rparr>
      else case ip_NewProvider P (oi_IssuerURL cfg) of
        Inl err \<Rightarrow> Inl err
      | Inr p \<Rightarrow> Inr \<lparr>v_Verify = ip_Verifier P p (audience cfg), v_skipAuth = False,
                      v_sessions = None, v_policy = None\<rparr>)"

definition SetSessions :: "'m session_ops \<Rightarrow> 'm verifier \<Rightarrow> 'm verifier" where
  "SetSessions s v = v\<lparr>v_sessions := Some s\<rparr>"

definition SetPolicy :: "policy \<Rightarrow> 'm verifier \<Rightarrow> 'm verifier" where
  "SetPolicy p v = v\<lparr>v_policy := p\<rparr>"

definition oauth_client_of :: "oidc_config \<Rightarrow> oauth_client" where
  "oauth_client_of cfg =
     \<lparr>cl_ClientID = oi_ClientID cfg, cl_ClientSecret = oi_ClientSecret cfg,
      cl_RedirectURL = oi_RedirectURL cfg, cl_Scopes = [''openid'', ''email'', ''profile'']\<rparr>"

definition NewOAuth :: "'p idp \<Rightarrow> oidc_config \<Rightarrow> 'm session_ops \<Rightarrow> string + 'm oauth option" where
  "NewOAuth P cfg sess =
     (if oi_DevInsecureSkipAuth cfg then Inr None
      else if oi_ClientSecret cfg = []
      then Inl ''SPINUP_OIDC_CLIENT_SECRET is required for the login flow''
      else if oi_RedirectURL cfg = []
      then Inl (''SPINUP_OIDC_REDIRECT_URL is required (e.g. https://spinup.example.com/auth/callback)'')
      else case ip_NewProvider P (oi_IssuerURL cfg) of
        Inl err \<Rightarrow> Inl err
      | Inr p \<Rightarrow>
          let c = oauth_client_of cfg
          in Inr (Some \<lparr>o_Verify = ip_Verifier P p (audience cfg), o_Exchange = ip_Exchange P p c,
                        o_AuthCodeURL = ip_AuthCodeURL P p c, o_Sum256 = ip_Sum256 P,
                        o_sessions = sess, o_cookieSecure = HasPrefix (oi_RedirectURL cfg) ''https://'',
                        o_endSessionURL = ip_EndSessionEndpoint P p\<rparr>))"

definition restConfig :: "('c, 'k) k8s_lib \<Rightarrow> environment \<Rightarrow> string \<Rightarrow> string \<Rightarrow> string + 'c" where
  "restConfig L E kubeconfig kubecontext =
     (case kl_InClusterConfig L of
        Inr cfg \<Rightarrow> Inr cfg
      | Inl _ \<Rightarrow>
          (case kl_ClientConfig L kubeconfig kubecontext of
             Inl err \<Rightarrow> Inl (''load kubeconfig: '' @ err @ '' (SPINUP_KUBECONFIG='' @ Quote kubeconfig @
               '', KUBECONFIG='' @ Quote (env E ''KUBECONFIG'' []) @ '', SPINUP_KUBECONTEXT='' @
               Quote kubecontext @ '')'')
           | Inr cfg \<Rightarrow> Inr cfg))"

definition k8s_New :: "('c, 'k) k8s_lib \<Rightarrow> environment \<Rightarrow> string \<Rightarrow> string \<Rightarrow> string + 'c" where
  "k8s_New L E kubeconfig kubecontext =
     (case restConfig L E kubeconfig kubecontext of
        Inl err \<Rightarrow> Inl err
      | Inr cfg \<Rightarrow>
          (case kl_Dynamic L cfg of
             Inl err \<Rightarrow> Inl (''dynamic client: '' @ err)
           | Inr _ \<Rightarrow>
               (case kl_Typed L cfg of
                  Inl err \<Rightarrow> Inl (''typed client: '' @ err)
                | Inr _ \<Rightarrow> Inr cfg)))"

text \<open>The base URL of the proxy client, the only thing in it that the program looks at.\<close>

definition proxy_New :: "('c, 'k) k8s_lib \<Rightarrow> 'c \<Rightarrow> string + string" where
  "proxy_New L cfg =
     (case kl_TransportConfig L cfg of
        Inl err \<Rightarrow> Inl (''transport config: '' @ err)
      | Inr _ \<Rightarrow>
          (case kl_Transport L cfg of
             Inl err \<Rightarrow> Inl (''build transport: '' @ err)
           | Inr _ \<Rightarrow> Inr (trim_slashes (kl_Host L cfg))))"

section \<open>main\<close>

definition resource_policy_of :: "config \<Rightarrow> resource_policy" where
  "resource_policy_of c =
     (let r = cf_ResourcePolicy c
      in \<lparr>Mode = rp_Mode r, CPU = \<lparr>Request = rp_CPURequest r, Limit = rp_CPULimit r\<rparr>,
          Mem = \<lparr>Request = rp_MemoryRequest r, Limit = rp_MemoryLimit r\<rparr>\<rparr>)"

text \<open>The client for VirtualServices is always there.\<close>

definition deployer_of :: "config \<Rightarrow> deployer" where
  "deployer_of c =
     \<lparr>dp_spin_ns = fc_Namespace (cf_Functions c), dp_vs_ns = Some (fc_Namespace (cf_Functions c)),
      dp_pullSecrets = fc_ImagePullSecrets (cf_Functions c),
      dp_publicDomain = fc_PublicDomain (cf_Functions c),
      dp_publicGateway = fc_PublicGateway (cf_Functions c), dp_resourcePolicy = resource_policy_of c\<rparr>"

definition builder_of :: "config \<Rightarrow> builder_config" where
  "builder_of c =
     (let b = cf_Builder c
      in \<lparr>bc_Namespace = fc_Namespace (cf_Functions c), bc_GoImage = bs_GoImage b,
          bc_JSImage = bs_JSImage b, bc_TSImage = bs_TSImage b, bc_RustImage = bs_RustImage b,
          bc_RegistryURL = bs_RegistryURL b, bc_AuthSecret = bs_AuthSecret b,
          bc_ImagePullSecrets = bs_ImagePullSecrets b, bc_Deployer = deployer_of c\<rparr>)"

definition server_of ::
  "config \<Rightarrow> 's store_ops \<Rightarrow> 'k kube \<Rightarrow> 'q quantity_ops \<Rightarrow> string \<Rightarrow> ('s, 'k, 'q) server" where
  "server_of c S K Q proxyBase =
     (let prom = me_PrometheusURL (cf_Metrics c)
      in \<lparr>sv_version = cf_Version c, sv_store = S, sv_kube = K, sv_quantity = Q,
          sv_spin_ns = fc_Namespace (cf_Functions c), sv_deployer = deployer_of c,
          sv_builder = builder_of c, sv_Namespace = fc_Namespace (cf_Functions c),
          sv_PublicBaseURL = fc_PublicBaseURL (cf_Functions c),
          sv_PublicDomain = fc_PublicDomain (cf_Functions c),
          sv_resourcePolicy = resource_policy_of c, sv_worker_invokeURL = wo_URL (cf_Worker c),
          sv_worker_uiURL = wo_UIURL (cf_Worker c), sv_proxy = Some proxyBase,
          sv_prom = (if prom \<noteq> [] then Some prom else None)\<rparr>)"

text \<open>A running control plane: the verifier, the login flow, the server and the initial state.\<close>

record ('k, 'q) control_plane =
  cp_config :: config
  cp_verifier :: "memory_store verifier"
  cp_oauth :: "memory_store oauth option"
  cp_server :: "(db, 'k, 'q) server"
  cp_sessions :: memory_store
  cp_world :: "(db, 'k) world"

text \<open>An error ends the process with exit code 1; the text before it is the message of the log.\<close>

definition startup ::
  "('c, 'k, 'q, 'p) externals \<Rightarrow> environment \<Rightarrow> string \<times> string + ('k, 'q) control_plane" where
  "startup X E =
     (case Load E of Inl err \<Rightarrow> Inl (''load config'', err) | Inr c \<Rightarrow>
      case Open (ex_openSQLite X) (db_Driver (cf_DB c)) (db_DSN (cf_DB c)) of
        Inl err \<Rightarrow> Inl (''open store'', err)
      | Inr d \<Rightarrow>
      case NewVerifier (ex_idp X) (cf_OIDC c) of
        Inl err \<Rightarrow> Inl (''init oidc verifier'', err)
      | Inr v0 \<Rightarrow>
          let v = SetPolicy (NewPolicy (az_RequiredRoles (cf_Authz c))) (SetSessions memory_ops v0)
          in (case NewOAuth (ex_idp X) (cf_OIDC c) memory_ops of
                Inl err \<Rightarrow> Inl (''init oidc oauth'', err)
              | Inr oa \<Rightarrow>
              case k8s_New (ex_k8s X) E (k8_Kubeconfig (cf_K8s c)) (k8_Kubecontext (cf_K8s c)) of
                Inl err \<Rightarrow> Inl (''init k8s client'', err)
              | Inr kc \<Rightarrow>
              case Init (ex_telemetry X) ''dev'' of
                Inl err \<Rightarrow> Inl (''init telemetry'', err)
              | Inr _ \<Rightarrow>
              case proxy_New (ex_k8s X) kc of
                Inl err \<Rightarrow> Inl (''init service proxy'', err)
              | Inr base \<Rightarrow>
                  Inr \<lparr>cp_config = c, cp_verifier = v, cp_oauth = oa,
                       cp_server = server_of c sqlite_ops (kl_Clients (ex_k8s X) kc) (ex_quantity X) base,
                       cp_sessions = NewMemoryStore,
                       cp_world = \<lparr>w_store = d, w_kube = ex_cluster X, w_metrics = [], w_watchers = []\<rparr>\<rparr>))"

lemma startup_Inr:
  assumes "startup X E = Inr cp"
  obtains c d v0 oa kc base where "Load E = Inr c" "db_Driver (cf_DB c) = ''sqlite''"
    "ex_openSQLite X (db_DSN (cf_DB c)) = Inr d" "NewVerifier (ex_idp X) (cf_OIDC c) = Inr v0"
    "NewOAuth (ex_idp X) (cf_OIDC c) memory_ops = Inr oa"
    "cp = \<lparr>cp_config = c,
       cp_verifier = SetPolicy (NewPolicy (az_RequiredRoles (cf_Authz c))) (SetSessions memory_ops v0),
       cp_oauth = oa, cp_server = server_of c sqlite_ops (kl_Clients (ex_k8s X) kc) (ex_quantity X) base,
       cp_sessions = NewMemoryStore,
       cp_world = \<lparr>w_store = d, w_kube = ex_cluster X, w_metrics = [], w_watchers = []\<rparr>\<rparr>"
  using assms unfolding startup_def Let_def Open_def
  by (auto split: sum.splits if_splits)

text \<open>
  C19: The process fails closed. It starts only with the SQLite driver, and authentication is off
  only when \<^verbatim>\<open>SPINUP_DEV_INSECURE_SKIP_AUTH\<close> is exactly \<^verbatim>\<open>true\<close>. Otherwise it has a login flow with
  a client secret and a redirect URL, whose cookies are secure exactly when that URL is https,
  which accepts the same tokens (discovery being a function of the issuer) and uses the same
  sessions as the middleware; the middleware
  enforces the configured roles; and a request without a session cookie and a bearer token gets
  401. The API, the deployer and the builder share one namespace and one resource policy.
\<close>

theorem startup_fails_closed:
  assumes "startup X E = Inr cp"
  shows "db_Driver (cf_DB (cp_config cp)) = ''sqlite'' \<and>
    (if E ''SPINUP_DEV_INSECURE_SKIP_AUTH'' = Some ''true''
     then v_skipAuth (cp_verifier cp) \<and> cp_oauth cp = None
     else \<not> v_skipAuth (cp_verifier cp) \<and>
       oi_IssuerURL (cf_OIDC (cp_config cp)) \<noteq> [] \<and> oi_ClientID (cf_OIDC (cp_config cp)) \<noteq> [] \<and>
       oi_ClientSecret (cf_OIDC (cp_config cp)) \<noteq> [] \<and> oi_RedirectURL (cf_OIDC (cp_config cp)) \<noteq> [] \<and>
       (case cp_oauth cp of
          None \<Rightarrow> False
        | Some oa \<Rightarrow> o_Verify oa = v_Verify (cp_verifier cp) \<and> v_sessions (cp_verifier cp) = Some (o_sessions oa) \<and>
            o_cookieSecure oa = HasPrefix (oi_RedirectURL (cf_OIDC (cp_config cp))) ''https://'') \<and>
       Middleware (cp_verifier cp) t1 t2 \<lparr>r_cookies = [], r_headers = [], r_query = q\<rparr> (cp_sessions cp) =
         (Inl (ErrorText 401 ''unauthorized''), cp_sessions cp)) \<and>
    v_policy (cp_verifier cp) = NewPolicy (splitCSV (env E ''SPINUP_AUTHZ_REQUIRED_ROLES'' [])) \<and>
    sv_resourcePolicy (cp_server cp) = dp_resourcePolicy (sv_deployer (cp_server cp)) \<and>
    bc_Deployer (sv_builder (cp_server cp)) = sv_deployer (cp_server cp) \<and>
    list_all (\<lambda>ns. ns = sv_Namespace (cp_server cp))
      [sv_spin_ns (cp_server cp), dp_spin_ns (sv_deployer (cp_server cp)), bc_Namespace (sv_builder (cp_server cp))]"
proof (rule startup_Inr [OF assms])
  fix c d v0 oa kc base
  assume l: "Load E = Inr c" and dr: "db_Driver (cf_DB c) = ''sqlite''"
    and v0: "NewVerifier (ex_idp X) (cf_OIDC c) = Inr v0"
    and oa: "NewOAuth (ex_idp X) (cf_OIDC c) memory_ops = Inr oa"
    and cp: "cp = \<lparr>cp_config = c,
       cp_verifier = SetPolicy (NewPolicy (az_RequiredRoles (cf_Authz c))) (SetSessions memory_ops v0),
       cp_oauth = oa, cp_server = server_of c sqlite_ops (kl_Clients (ex_k8s X) kc) (ex_quantity X) base,
       cp_sessions = NewMemoryStore,
       cp_world = \<lparr>w_store = d, w_kube = ex_cluster X, w_metrics = [], w_watchers = []\<rparr>\<rparr>"
  note c = Load_Inr [OF l]
  have roles: "az_RequiredRoles (cf_Authz c) = splitCSV (env E ''SPINUP_AUTHZ_REQUIRED_ROLES'' [])"
    by (simp add: c(1) read_config_def)
  show ?thesis
  proof (cases "oi_DevInsecureSkipAuth (cf_OIDC c)")
    case True
    then show ?thesis
      using v0 oa c(3) dr roles
      by (auto simp: cp NewVerifier_def NewOAuth_def SetPolicy_def SetSessions_def server_of_def
          builder_of_def deployer_of_def Let_def)
  next
    case False
    then show ?thesis
      using v0 oa c(3,4) dr roles
      by (auto simp: cp NewVerifier_def NewOAuth_def SetPolicy_def SetSessions_def server_of_def
          builder_of_def deployer_of_def Let_def Middleware_def resolve_def Cookie_def
          resolve_bearer_def Header_Get_def split: sum.splits if_splits)
  qed
qed

section \<open>An example\<close>

definition example_environment :: environment where
  "example_environment = map_of
     [(''SPINUP_OIDC_ISSUER_URL'', ''https://idp''), (''SPINUP_OIDC_CLIENT_ID'', ''spinup''),
      (''SPINUP_OIDC_CLIENT_SECRET'', ''s3cret''), (''SPINUP_OIDC_REDIRECT_URL'', ''https://cp/auth/callback''),
      (''SPINUP_AUTHZ_REQUIRED_ROLES'', ''dev, ops'')]"

definition example_idp :: "unit idp" where
  "example_idp =
     \<lparr>ip_NewProvider = (\<lambda>i. Inr ()), ip_Verifier = (\<lambda>p a t. Inl ''bad''), ip_Exchange = (\<lambda>p c x y. Inl ''bad''),
      ip_AuthCodeURL = (\<lambda>p c s ch. ''https://idp/auth''), ip_EndSessionEndpoint = (\<lambda>p. []),
      ip_Sum256 = (\<lambda>s. s)\<rparr>"

definition example_otel :: otel_lib where
  "example_otel = \<lparr>ol_Exporter = None, ol_Resource = (\<lambda>n v. None), ol_Instrument = (\<lambda>i. None)\<rparr>"

lemma example_telemetry: "Init example_otel v = Inr all_metrics"
  by (simp add: Init_Inr example_otel_def list_all_iff)

definition example_externals :: "(string, cluster, int, unit) externals" where
  "example_externals =
     \<lparr>ex_openSQLite = (\<lambda>dsn. Inr empty_db), ex_idp = example_idp,
      ex_k8s = \<lparr>kl_InClusterConfig = Inr ''https://k8s/'', kl_ClientConfig = (\<lambda>p c. Inl ''none''),
        kl_Dynamic = (\<lambda>c. Inr ()), kl_Typed = (\<lambda>c. Inr ()), kl_TransportConfig = (\<lambda>c. Inr ()),
        kl_Transport = (\<lambda>c. Inr ()), kl_Clients = (\<lambda>c. mem_kube), kl_Host = (\<lambda>c. c)\<rparr>,
      ex_quantity = digit_quantity, ex_telemetry = example_otel, ex_cluster = empty_cluster\<rparr>"

lemma example_starts: "\<exists>cp. startup example_externals example_environment = Inr cp"
proof -
  let ?c = "read_config example_environment"
  have oi: "oi_IssuerURL (cf_OIDC ?c) = ''https://idp''" "oi_ClientID (cf_OIDC ?c) = ''spinup''"
    "oi_ClientSecret (cf_OIDC ?c) = ''s3cret''" "oi_RedirectURL (cf_OIDC ?c) = ''https://cp/auth/callback''"
    "\<not> oi_DevInsecureSkipAuth (cf_OIDC ?c)" "db_Driver (cf_DB ?c) = ''sqlite''"
    by (simp_all add: read_config_def env_def example_environment_def ToLower_def lower_char_def less_eq_char_def)
  then have "Load example_environment = Inr ?c" by (simp add: Load_def Let_def)
  with oi show ?thesis
    by (simp add: startup_def Open_def NewVerifier_def NewOAuth_def k8s_New_def restConfig_def
        proxy_New_def example_externals_def example_idp_def example_telemetry Let_def)
qed

theorem startup_fails_closed_witness:
  "\<exists>cp. startup example_externals example_environment = Inr cp \<and> \<not> v_skipAuth (cp_verifier cp) \<and>
     Middleware (cp_verifier cp) 1 1 \<lparr>r_cookies = [], r_headers = [], r_query = []\<rparr> (cp_sessions cp) =
       (Inl (ErrorText 401 ''unauthorized''), cp_sessions cp)"
proof -
  obtain cp where cp: "startup example_externals example_environment = Inr cp" using example_starts by blast
  have "example_environment ''SPINUP_DEV_INSECURE_SKIP_AUTH'' \<noteq> Some ''true''"
    by (simp add: example_environment_def)
  with cp startup_fails_closed [OF cp, of 1 1 "[]"] show ?thesis by (intro exI [of _ cp]) simp
qed

end
