(* ===== verification/Web.thy ===== *)
theory Web
  imports Startup
begin

text \<open>
  The whole HTTP surface: the outer mux of \<^verbatim>\<open>New\<close> in \<^verbatim>\<open>internal/httpapi/server.go\<close>, the routes of
  \<^verbatim>\<open>auth.Register\<close>, the metrics middleware of \<^verbatim>\<open>internal/telemetry/metrics.go\<close> and the UI handler of
  \<^verbatim>\<open>internal/webui/handler.go\<close>. The file server is a parameter: what matters here is which path it
  is asked for and with which cache header.
\<close>

section \<open>What the metrics middleware sees\<close>

text \<open>
  The calls of \<^verbatim>\<open>WriteHeader\<close> that a reply makes: streams and archives only write bytes, which
  implies 200.
\<close>

definition header_codes :: "api_reply \<Rightarrow> nat list" where
  "header_codes r = (case r of LogText t \<Rightarrow> [] | SourceArchive n tar \<Rightarrow> [] | _ \<Rightarrow> [reply_status r])"

text \<open>The recorded status is the one that the client sees.\<close>

lemma recorded_status: "sr_status (fold rec_WriteHeader (header_codes r) new_recorder) = reply_status r"
  by (cases r) (simp_all add: header_codes_def rec_WriteHeader_def new_recorder_def)

section \<open>The UI\<close>

text \<open>\<^verbatim>\<open>path.Base\<close>.\<close>

definition path_Base :: "string \<Rightarrow> string" where
  "path_Base p =
     (if p = [] then ''.''
      else let s = trim_slashes p in if s = [] then ''/'' else last (split_on (CHR ''/'') s))"

datatype ui_reply = UiNotFound | UiFile string "string option"

definition cache_control :: "string \<Rightarrow> string option" where
  "cache_control p =
     (if HasPrefix p ''/_app/immutable/'' then Some ''public, max-age=31536000, immutable''
      else if HasSuffix p ''.html'' \<or> p = ''/'' then Some ''no-cache'' else None)"

definition ui_handler :: "(string \<Rightarrow> bool) \<Rightarrow> string \<Rightarrow> ui_reply" where
  "ui_handler stat urlPath =
     (let p = TrimPrefix urlPath ''/'';
          name = (if p = [] then ''index.html'' else p)
      in if stat name then UiFile urlPath (cache_control urlPath)
         else if \<not> Contains (path_Base name) ''.'' then UiFile ''/'' (cache_control ''/'')
         else UiNotFound)"

text \<open>A client-side route, which is no file and has no dot in its last element, gets the shell, uncached.\<close>

lemma ui_route_shell:
  "\<not> stat (TrimPrefix u ''/'') \<Longrightarrow> TrimPrefix u ''/'' \<noteq> [] \<Longrightarrow> \<not> Contains (path_Base (TrimPrefix u ''/'')) ''.'' \<Longrightarrow>
   ui_handler stat u = UiFile ''/'' (Some ''no-cache'')"
  by (simp add: ui_handler_def Let_def cache_control_def)

text \<open>Only a file that exists is ever served with the immutable header.\<close>

lemma ui_immutable_exists:
  assumes "ui_handler stat u = UiFile f (Some c)" "c \<noteq> ''no-cache''"
  shows "f = u" "stat (TrimPrefix u ''/'')"
proof -
  have f: "cache_control f = Some c" using assms(1) by (auto simp: ui_handler_def Let_def split: if_splits)
  then obtain rest where rest: "f = ''/_app/immutable/'' @ rest"
    using assms(2) by (auto simp: cache_control_def prefix_def split: if_splits)
  show u: "f = u" using assms(1) rest by (auto simp: ui_handler_def Let_def split: if_splits)
  show "stat (TrimPrefix u ''/'')"
    using assms(1) rest unfolding u [symmetric]
    by (auto simp: ui_handler_def Let_def TrimPrefix_def split: if_splits)
qed

section \<open>The outer mux\<close>

datatype web_reply =
    ApiReply api_reply
  | AuthReply response
  | MetricsPage
  | UiReply ui_reply
  | PageNotFound
  | MethodNotAllowed

record http_in =
  in_Method :: string
  in_Elems :: "string list"
  in_URLPath :: string
  in_Request :: Auth.request
  in_Query :: query
  in_Payload :: payload
  in_Random :: "nat \<Rightarrow> string + string"

text \<open>The whole state of the process: sessions, samples of the HTTP metrics, store and cluster.\<close>

record 'k process =
  pr_sessions :: memory_store
  pr_samples :: "http_sample list"
  pr_world :: "(db, 'k) world"

text \<open>The routes that need no authentication; \<^const>\<open>None\<close> means that none matches. A \<^verbatim>\<open>GET\<close> route serves \<^verbatim>\<open>HEAD\<close>.\<close>

definition is_get :: "http_in \<Rightarrow> bool" where
  "is_get i \<longleftrightarrow> in_Method i = ''GET'' \<or> in_Method i = ''HEAD''"

definition open_routes :: "(db, 'k, 'q) server \<Rightarrow> http_in \<Rightarrow> (db, 'k) world \<Rightarrow> web_reply option" where
  "open_routes sv i w =
     (if \<not> is_get i then None
      else if in_Elems i = [''healthz''] then Some (ApiReply (health sv w))
      else if in_Elems i = [''api'', ''v1'', ''version''] then Some (ApiReply (versionInfo sv))
      else if in_Elems i = [''api'', ''v1'', ''policy''] then Some (ApiReply (policyInfo sv))
      else if in_Elems i = [''metrics''] then Some MetricsPage
      else None)"

text \<open>\<^verbatim>\<open>auth.Register\<close>, where \<^term>\<open>oa\<close> is nil in dev-skip mode.\<close>

definition auth_routes ::
  "memory_store verifier \<Rightarrow> memory_store oauth option \<Rightarrow> time \<Rightarrow> time \<Rightarrow> http_in \<Rightarrow> memory_store \<Rightarrow>
   (response \<times> memory_store) option" where
  "auth_routes v oa t1 t2 i m =
     (let get = is_get i; r = in_Request i; p = in_Elems i;
          plain = (\<lambda>x. \<lparr>reply = x, set_cookies = []\<rparr>)
      in case oa of
        None \<Rightarrow>
          if get \<and> p = [''auth'', ''me''] then
            Some (plain (MeReply 200 (no_me\<lparr>me_Subject := ''dev'', me_Email := ''dev@localhost'',
                                             me_Authorized := True\<rparr>)), m)
          else if get \<and> p = [''auth'', ''login''] then Some (plain (RedirectTo (returnToOrRoot r)), m)
          else if in_Method i = ''POST'' \<and> p = [''auth'', ''logout''] then Some (plain Auth.NoContent, m)
          else None
      | Some o_ \<Rightarrow>
          if get \<and> p = [''auth'', ''login''] then Some (handleLogin o_ t1 (in_Random i 0) (in_Random i 1) r, m)
          else if get \<and> p = [''auth'', ''callback''] then Some (handleCallback o_ t1 (in_Random i 0) r m)
          else if in_Method i = ''POST'' \<and> p = [''auth'', ''logout''] then Some (handleLogout o_ r m)
          else if get \<and> p = [''auth'', ''me'']
          then Some (case handleMe v t1 t2 r m of (x, m') \<Rightarrow> (plain x, m'))
          else None)"

text \<open>The paths that the mux knows for one method only; without a UI another method gets 405.\<close>

definition other_method :: "memory_store oauth option \<Rightarrow> string list \<Rightarrow> bool" where
  "other_method oa p \<longleftrightarrow>
     p = [''healthz''] \<or> p = [''metrics''] \<or> p = [''auth'', ''login''] \<or> p = [''auth'', ''logout''] \<or>
     p = [''auth'', ''me''] \<or> oa \<noteq> None \<and> p = [''auth'', ''callback'']"

text \<open>
  \<^verbatim>\<open>ui\<close> is the UI handler, when there is one. The middleware hands the API mux a copy of the
  request, so the pattern that the metrics middleware sees is its own, \<^verbatim>\<open>/api/\<close>.
\<close>

definition handle_http ::
  "memory_store verifier \<Rightarrow> memory_store oauth option \<Rightarrow> (db, 'k, 'q) server \<Rightarrow> (string \<Rightarrow> bool) option \<Rightarrow>
   req_env \<Rightarrow> time \<Rightarrow> http_in \<Rightarrow> 'k process \<Rightarrow> web_reply \<times> 'k process" where
  "handle_http v oa sv ui e t2 i s =
     (case open_routes sv i (pr_world s) of
        Some r \<Rightarrow> (r, s)
      | None \<Rightarrow>
          (case auth_routes v oa (e_now e) t2 i (pr_sessions s) of
             Some (r, m) \<Rightarrow> (AuthReply r, s\<lparr>pr_sessions := m\<rparr>)
           | None \<Rightarrow>
               if in_Elems i \<noteq> [] \<and> hd (in_Elems i) = ''api'' \<and> length (in_Elems i) > 1
               then (case api_handler v sv e t2 (in_Request i) (in_Method i) (in_Elems i) (in_Query i)
                            (in_Payload i) (pr_sessions s, pr_world s) of
                       (r, m, w) \<Rightarrow>
                         (ApiReply r,
                          \<lparr>pr_sessions = m,
                           pr_samples = pr_samples s @
                             [http_sample_of (in_Method i) ''/api/'' (in_URLPath i) (header_codes r)],
                           pr_world = w\<rparr>))
               else (case ui of
                       None \<Rightarrow> (if other_method oa (in_Elems i) then MethodNotAllowed else PageNotFound, s)
                     | Some stat \<Rightarrow> (UiReply (ui_handler stat (in_URLPath i)), s))))"

definition initial_process :: "('k, 'q) control_plane \<Rightarrow> 'k process" where
  "initial_process cp = \<lparr>pr_sessions = cp_sessions cp, pr_samples = [], pr_world = cp_world cp\<rparr>"

text \<open>
  Outside the API nothing touches store, cluster or watchers, and a request to the API moves them
  only when the middleware lets it through.
\<close>

lemma api_handler_world:
  "snd (snd (api_handler v sv e t2 r meth path q pl (m, w))) = w \<or>
   (\<exists>c m'. Middleware v (e_now e) t2 r m = (Inr c, m') \<and>
      snd (snd (api_handler v sv e t2 r meth path q pl (m, w))) = snd (api_mux sv e True meth path q pl w))"
  by (auto simp: api_handler_def split: prod.split sum.split reply.split)

lemma handle_http_world:
  "pr_world (snd (handle_http v oa sv ui e t2 i s)) = pr_world s \<or>
   (\<exists>c m. Middleware v (e_now e) t2 (in_Request i) (pr_sessions s) = (Inr c, m) \<and>
      pr_world (snd (handle_http v oa sv ui e t2 i s)) =
        snd (api_mux sv e True (in_Method i) (in_Elems i) (in_Query i) (in_Payload i) (pr_world s)))"
  using api_handler_world [of v sv e t2 "in_Request i" "in_Method i" "in_Elems i" "in_Query i" "in_Payload i"
      "pr_sessions s" "pr_world s"]
  by (cases "open_routes sv i (pr_world s)"; cases "auth_routes v oa (e_now e) t2 i (pr_sessions s)"; cases ui)
    (simp_all add: handle_http_def case_prod_unfold)


text \<open>
  Every request to the API leaves one sample, with the class of the status that the client sees
  and, whatever the endpoint, the route \<^verbatim>\<open>/api/\<close>; no other request leaves one.
\<close>

lemma http_samples:
  "pr_samples (snd (handle_http v oa sv ui e t2 i s)) = pr_samples s \<or>
   (\<exists>r. fst (handle_http v oa sv ui e t2 i s) = ApiReply r \<and>
      pr_samples (snd (handle_http v oa sv ui e t2 i s)) = pr_samples s @
        [\<lparr>hs_method = in_Method i, hs_route = ''/api/'', hs_status = statusClass (reply_status r)\<rparr>])"
  by (cases "open_routes sv i (pr_world s)"; cases "auth_routes v oa (e_now e) t2 i (pr_sessions s)"; cases ui)
    (simp_all add: handle_http_def case_prod_unfold http_sample_of_def recorded_status)

end
