(* ===== verification/System.thy ===== *)
theory System
  imports Effects Web
begin

text \<open>
  The control plane as a whole, from the environment that it starts with: the HTTP surface of
  \<open>Web\<close> over the process of \<open>Process\<close>, with the sessions of \<open>Sessions\<close>. A step is a
  whole request, or a step of the process between requests: a checked store call of a request in
  progress, a build that starts, a step of a watcher, a move of the cluster.
\<close>

section \<open>Steps\<close>

text \<open>
  The clock does not run backwards during a request, the file map of a body names no file twice,
  and the identifiers that \<^verbatim>\<open>newID\<close> makes are not those of builds in progress.
\<close>

inductive system_step ::
  "('k, 'q) control_plane \<Rightarrow> (string \<Rightarrow> bool) option \<Rightarrow> 'k process \<Rightarrow> 'k process \<Rightarrow> bool" for cp ui where
  sys_http: "e_now e \<le> t2 \<Longrightarrow> payload_ok (in_Payload i) \<Longrightarrow>
    newID (e_uuid e) \<notin> wt_BuildID ` set (w_watchers (pr_world s)) \<Longrightarrow>
    system_step cp ui s (snd (handle_http (cp_verifier cp) (cp_oauth cp) (cp_server cp) ui e t2 i s))"
| sys_process: "process_step (cp_server cp) (pr_world s) w \<Longrightarrow> system_step cp ui s (s\<lparr>pr_world := w\<rparr>)"

inductive_cases system_stepE: "system_step cp ui s s'"

section \<open>Sessions come from verified tokens\<close>

text \<open>The claims of an ID token that the provider's verifier accepted.\<close>

definition verified :: "(string \<Rightarrow> string + id_token) \<Rightarrow> claims \<Rightarrow> bool" where
  "verified vf c \<longleftrightarrow> (\<exists>raw idt. vf raw = Inr idt \<and> it_claims idt = Inr c)"

definition sessions_verified :: "(string \<Rightarrow> string + id_token) \<Rightarrow> memory_store \<Rightarrow> bool" where
  "sessions_verified vf m \<longleftrightarrow> memory_inv m \<and> (\<forall>(k, x) \<in> set (sessions m). verified vf (session_claims x))"

lemma sessions_verified_new: "sessions_verified vf NewMemoryStore"
  by (simp add: sessions_verified_def, simp add: NewMemoryStore_def)

lemma sessions_verified_subset:
  "sessions_verified vf m \<Longrightarrow> memory_inv m' \<Longrightarrow> set (sessions m') \<subseteq> set (sessions m) \<Longrightarrow> sessions_verified vf m'"
  by (auto simp: sessions_verified_def)

lemma get_verified: "sessions_verified vf m \<Longrightarrow> sessions_verified vf (snd (Get t1 t2 i m))"
proof (rule sessions_verified_subset)
  assume m: "sessions_verified vf m"
  then show "memory_inv (snd (Get t1 t2 i m))" by (simp add: sessions_verified_def get_inv)
  show "set (sessions (snd (Get t1 t2 i m))) \<subseteq> set (sessions m)"
    using Get_rows [of t1 t2 i m] by (auto simp: gcLocked_def split: if_splits)
qed

lemma delete_verified: "sessions_verified vf m \<Longrightarrow> sessions_verified vf (snd (Delete i m))"
  by (rule sessions_verified_subset [of vf m])
    (simp_all add: sessions_verified_def Delete_inv, auto simp: Delete_def dest: in_set_delete)

lemma create_verified:
  "sessions_verified vf m \<Longrightarrow> verified vf (session_claims x) \<Longrightarrow> sessions_verified vf (snd (Create x m))"
  by (auto simp: sessions_verified_def create_inv) (auto simp: Create_def dest!: in_set_update)

lemma resolve_verified:
  assumes "sessions_verified vf m" "v_sessions v = Some memory_ops"
  shows "sessions_verified vf (snd (resolve v t1 t2 r m))"
  using assms get_verified [OF assms(1)]
  by (auto simp: resolve_def split: option.splits prod.splits) (metis snd_conv)+

lemma handleLogout_verified:
  "sessions_verified vf m \<Longrightarrow> o_sessions oa = memory_ops \<Longrightarrow> sessions_verified vf (snd (handleLogout oa r m))"
  by (simp add: handleLogout_def delete_verified split: option.split)

text \<open>A callback stores at most one session, with the claims of a token that was verified.\<close>

lemma handleCallback_sessions:
  assumes "o_sessions oa = memory_ops"
  shows "snd (handleCallback oa now rnd r m) = m \<or>
    (\<exists>x. snd (handleCallback oa now rnd r m) = snd (Create x m) \<and> verified (o_Verify oa) (session_claims x))"
proof -
  have "verified (o_Verify oa) (session_claims (callback_session now sid c idt tok))"
    if "o_Verify oa raw = Inr idt" "it_claims idt = Inr c" for sid c idt tok raw
    using that by (cases c) (auto simp: verified_def session_claims_def callback_session_def)
  then show ?thesis
    using assms
    by (simp add: handleCallback_def Let_def case_prod_unfold Create_ok split: option.split sum.split)
      (blast)
qed

lemma auth_routes_verified:
  assumes "sessions_verified (v_Verify v) m" "v_sessions v = Some memory_ops"
    "\<And>oa'. oa = Some oa' \<Longrightarrow> o_sessions oa' = memory_ops \<and> o_Verify oa' = v_Verify v"
    "auth_routes v oa t1 t2 i m = Some (r, m')"
  shows "sessions_verified (v_Verify v) m'"
proof (cases oa)
  case None
  with assms(1,4) show ?thesis by (auto simp: auth_routes_def Let_def split: if_splits)
next
  case (Some oa')
  have w: "o_sessions oa' = memory_ops" "o_Verify oa' = v_Verify v" using assms(3) [OF Some] by simp_all
  have "m' = m \<or> m' = snd (handleCallback oa' t1 (in_Random i 0) (in_Request i) m) \<or>
      m' = snd (handleLogout oa' (in_Request i) m) \<or> m' = snd (handleMe v t1 t2 (in_Request i) m)"
    using assms(4) Some by (auto simp: auth_routes_def Let_def split: if_splits prod.splits)
  moreover have "snd (handleMe v t1 t2 (in_Request i) m) = snd (resolve v t1 t2 (in_Request i) m)"
    by (simp add: handleMe_def split: prod.split option.split)
  moreover have "sessions_verified (v_Verify v) (snd (handleCallback oa' t1 (in_Random i 0) (in_Request i) m))"
    using handleCallback_sessions [OF w(1), of t1 "in_Random i 0" "in_Request i" m] create_verified assms(1) w(2)
    by auto
  ultimately show ?thesis
    using assms(1) handleLogout_verified [OF assms(1) w(1)] resolve_verified [OF assms(1,2)] by auto
qed

lemma Middleware_sessions:
  "snd (Middleware v t1 t2 r m) = m \<or> snd (Middleware v t1 t2 r m) = snd (resolve v t1 t2 r m)"
  by (auto simp: Middleware_def split: prod.split option.split)

lemma api_handler_sessions:
  "fst (snd (api_handler v sv e t2 r meth path q pl (m, w))) = snd (Middleware v (e_now e) t2 r m)"
  by (auto simp: api_handler_def split: prod.split sum.split reply.split)

lemma handle_http_verified:
  assumes "sessions_verified (v_Verify v) (pr_sessions s)" "v_sessions v = Some memory_ops"
    "\<And>oa'. oa = Some oa' \<Longrightarrow> o_sessions oa' = memory_ops \<and> o_Verify oa' = v_Verify v"
  shows "sessions_verified (v_Verify v) (pr_sessions (snd (handle_http v oa sv ui e t2 i s)))"
proof -
  have mw: "sessions_verified (v_Verify v) (snd (Middleware v (e_now e) t2 (in_Request i) (pr_sessions s)))"
    using Middleware_sessions [of v "e_now e" t2 "in_Request i" "pr_sessions s"] assms(1)
      resolve_verified [OF assms(1,2)] by metis
  then show ?thesis
    using assms(1) auth_routes_verified [OF assms]
      api_handler_sessions [of v sv e t2 "in_Request i" "in_Method i" "in_Elems i" "in_Query i" "in_Payload i"
        "pr_sessions s" "pr_world s"]
    by (cases "open_routes sv i (pr_world s)"; cases "auth_routes v oa (e_now e) t2 i (pr_sessions s)"; cases ui)
      (auto simp: handle_http_def case_prod_unfold)
qed

section \<open>Requests are runs of the process\<close>

lemma api_mux_serve:
  "snd (api_mux sv e au meth path q pl w) = w \<or>
   (\<exists>ep. snd (api_mux sv e au meth path q pl w) = snd (serve sv e au q pl ep w))"
  by (auto simp: api_mux_def split: list.split option.split)

lemma handle_http_runs:
  assumes "process_inv db_inv abs_db sv (pr_world s)" "sv_store sv = sqlite_ops" "payload_ok (in_Payload i)"
    "newID (e_uuid e) \<notin> wt_BuildID ` set (w_watchers (pr_world s))"
  shows "rtranclp (process_step sv) (pr_world s) (pr_world (snd (handle_http v oa sv ui e t2 i s)))"
  using handle_http_world [of v oa sv ui e t2 i s]
proof (elim disjE exE conjE)
  fix c m
  assume w: "pr_world (snd (handle_http v oa sv ui e t2 i s)) =
        snd (api_mux sv e True (in_Method i) (in_Elems i) (in_Query i) (in_Payload i) (pr_world s))"
  show ?thesis
    using api_mux_serve [of sv e True "in_Method i" "in_Elems i" "in_Query i" "in_Payload i" "pr_world s"]
      sq.serve_runs [OF assms, of True "in_Query i"]
    by (auto simp: w runs_def)
qed simp

section \<open>The invariant\<close>

definition system_inv :: "('k, 'q) control_plane \<Rightarrow> 'k process \<Rightarrow> bool" where
  "system_inv cp s \<longleftrightarrow>
     process_inv db_inv abs_db (cp_server cp) (pr_world s) \<and>
     sessions_verified (v_Verify (cp_verifier cp)) (pr_sessions s)"

lemma startup_wiring:
  assumes "startup X E = Inr cp"
  shows "sv_store (cp_server cp) = sqlite_ops" "v_sessions (cp_verifier cp) = Some memory_ops"
    "cp_sessions cp = NewMemoryStore" "w_watchers (cp_world cp) = []"
    "v_policy (cp_verifier cp) = NewPolicy (splitCSV (env E ''SPINUP_AUTHZ_REQUIRED_ROLES'' []))"
    "v_skipAuth (cp_verifier cp) \<longleftrightarrow> E ''SPINUP_DEV_INSECURE_SKIP_AUTH'' = Some ''true''"
    "cp_oauth cp = Some oa \<Longrightarrow> o_sessions oa = memory_ops \<and> o_Verify oa = v_Verify (cp_verifier cp)"
proof -
  obtain c d v0 oa' kc base where st: "Load E = Inr c" "NewVerifier (ex_idp X) (cf_OIDC c) = Inr v0"
    "NewOAuth (ex_idp X) (cf_OIDC c) memory_ops = Inr oa'"
    "cp = \<lparr>cp_config = c,
       cp_verifier = SetPolicy (NewPolicy (az_RequiredRoles (cf_Authz c))) (SetSessions memory_ops v0),
       cp_oauth = oa', cp_server = server_of c sqlite_ops (kl_Clients (ex_k8s X) kc) (ex_quantity X) base,
       cp_sessions = NewMemoryStore,
       cp_world = \<lparr>w_store = d, w_kube = ex_cluster X, w_metrics = [], w_watchers = []\<rparr>\<rparr>"
    using startup_Inr [OF assms] by metis
  note c = Load_Inr [OF st(1)]
  show "sv_store (cp_server cp) = sqlite_ops" "v_sessions (cp_verifier cp) = Some memory_ops"
    "cp_sessions cp = NewMemoryStore" "w_watchers (cp_world cp) = []"
    "v_policy (cp_verifier cp) = NewPolicy (splitCSV (env E ''SPINUP_AUTHZ_REQUIRED_ROLES'' []))"
    by (simp_all add: st(4) server_of_def Let_def SetPolicy_def SetSessions_def c(1) read_config_def)
  show "v_skipAuth (cp_verifier cp) \<longleftrightarrow> E ''SPINUP_DEV_INSECURE_SKIP_AUTH'' = Some ''true''"
    using st(2) c(3)
    by (auto simp: st(4) SetPolicy_def SetSessions_def NewVerifier_def split: if_splits sum.splits)
  show "o_sessions oa = memory_ops \<and> o_Verify oa = v_Verify (cp_verifier cp)" if "cp_oauth cp = Some oa"
    using that st(2,3)
    by (auto simp: st(4) SetPolicy_def SetSessions_def NewVerifier_def NewOAuth_def Let_def
        split: if_splits sum.splits)
qed

lemma system_step_keeps:
  assumes "startup X E = Inr cp" "system_step cp ui s s'" "system_inv cp s"
  shows "system_inv cp s'"
proof -
  note st = startup_wiring [OF assms(1)]
  have p: "process_inv db_inv abs_db (cp_server cp) (pr_world s)"
    and m: "sessions_verified (v_Verify (cp_verifier cp)) (pr_sessions s)"
    using assms(3) by (simp_all add: system_inv_def)
  have run: "process_inv db_inv abs_db (cp_server cp) w"
    if "rtranclp (process_step (cp_server cp)) (pr_world s) w" for w
    using that p by (induction rule: rtranclp_induct) (auto intro: sq.process_step_keeps [OF _ _ st(1)])
  show ?thesis
    using assms(2)
  proof cases
    case (sys_http e t2 i)
    show ?thesis
      using run [OF handle_http_runs [OF p st(1) sys_http(3,4)]] handle_http_verified [OF m st(2) st(7)]
      by (simp add: system_inv_def sys_http(1))
  next
    case (sys_process w)
    then show ?thesis
      using run [OF r_into_rtranclp [of "process_step (cp_server cp)", OF sys_process(2)]] m by (simp add: system_inv_def)
  qed
qed

lemma system_reachable:
  assumes "startup X E = Inr cp" "process_inv db_inv abs_db (cp_server cp) (cp_world cp)"
    "rtranclp (system_step cp ui) (initial_process cp) s"
  shows "system_inv cp s"
  using assms(3)
proof (induction rule: rtranclp_induct)
  case base
  show ?case
    using assms(2) startup_wiring(3) [OF assms(1)]
    by (simp add: system_inv_def initial_process_def sessions_verified_new)
qed (rule system_step_keeps [OF assms(1)])

text \<open>A database that a new installation opens is a good start.\<close>

lemma empty_start:
  "w_store (cp_world cp) = empty_db \<Longrightarrow> w_watchers (cp_world cp) = [] \<Longrightarrow>
   process_inv db_inv abs_db (cp_server cp) (cp_world cp)"
  by (simp add: process_inv_def builds_inv_def api_ok_def empty_astore_def del: abs_db_simps)

section \<open>Properties\<close>


lemma Get_stored: "fst (Get t1 t2 i m) = Some x \<Longrightarrow> (i, x) \<in> set (sessions m)"
  by (auto simp: Get_def Let_def gcLocked_def dest!: map_of_SomeD split: option.splits if_splits)

lemma resolve_claims:
  assumes "sessions_verified (v_Verify v) m" "v_sessions v = Some memory_ops" "\<not> v_skipAuth v"
    "fst (resolve v t1 t2 r m) = Some c"
  shows "verified (v_Verify v) c"
proof -
  have b: "verified (v_Verify v) c" if "resolve_bearer v r = Some c"
    using that by (auto simp: resolve_bearer_def Let_def verified_def split: if_splits sum.splits)
  have s: "verified (v_Verify v) (session_claims x)" if "Get t1 t2 i m = (Some x, m')" for i x m'
    using assms(1) Get_stored [of t1 t2 i m x] that by (auto simp: sessions_verified_def)
  show ?thesis
    using assms(2-4) b s by (auto simp: resolve_def split: option.splits prod.splits if_splits)
qed

lemma Middleware_accepts:
  assumes "Middleware v t1 t2 r m = (Inr c, m')" "\<not> v_skipAuth v"
  shows "fst (resolve v t1 t2 r m) = Some c" "Authorize (v_policy v) c"
  using assms by (auto simp: Middleware_def split: prod.splits option.splits if_splits)

lemma configured_roles: "NewPolicy (splitCSV x) = Some (splitCSV x)"
  using splitCSV_entries [of x] by (auto simp: NewPolicy_def filter_id_conv list_all_iff)

text \<open>
  C5: Only a verified caller with a required role moves anything. Outside dev-skip mode, in every
  state that the system reaches, a request that changes store, cluster, counters or watchers (whichever
  route it takes) was accepted by the middleware with the claims of an ID token that the provider's
  verifier accepted, presented now or at the login behind its session, and these claims hold one of
  the roles that the environment requires, when it requires any.
\<close>

theorem changes_need_verified_claims:
  assumes "startup X E = Inr cp" "E ''SPINUP_DEV_INSECURE_SKIP_AUTH'' \<noteq> Some ''true''"
    "process_inv db_inv abs_db (cp_server cp) (cp_world cp)"
    "rtranclp (system_step cp ui) (initial_process cp) s"
    "pr_world (snd (handle_http (cp_verifier cp) (cp_oauth cp) (cp_server cp) ui e t2 i s)) \<noteq> pr_world s"
  shows "\<exists>c m raw idt.
    Middleware (cp_verifier cp) (e_now e) t2 (in_Request i) (pr_sessions s) = (Inr c, m) \<and>
    v_Verify (cp_verifier cp) raw = Inr idt \<and> it_claims idt = Inr c \<and>
    (let required = splitCSV (env E ''SPINUP_AUTHZ_REQUIRED_ROLES'' [])
     in required = [] \<or> set required \<inter> set (C_Roles c) \<noteq> {})"
proof -
  note st = startup_wiring [OF assms(1)]
  have skip: "\<not> v_skipAuth (cp_verifier cp)" using st(6) assms(2) by simp
  have m: "sessions_verified (v_Verify (cp_verifier cp)) (pr_sessions s)"
    using system_reachable [OF assms(1,3,4)] by (simp add: system_inv_def)
  obtain c m' where mw: "Middleware (cp_verifier cp) (e_now e) t2 (in_Request i) (pr_sessions s) = (Inr c, m')"
    using handle_http_world [of "cp_verifier cp" "cp_oauth cp" "cp_server cp" ui e t2 i s] assms(5) by auto
  note acc = Middleware_accepts [OF mw skip]
  have "verified (v_Verify (cp_verifier cp)) c" by (rule resolve_claims [OF m st(2) skip acc(1)])
  moreover have "splitCSV (env E ''SPINUP_AUTHZ_REQUIRED_ROLES'' []) = [] \<or>
      set (splitCSV (env E ''SPINUP_AUTHZ_REQUIRED_ROLES'' [])) \<inter> set (C_Roles c) \<noteq> {}"
    using acc(2) by (auto simp: Authorize_iff st(5) configured_roles)
  ultimately show ?thesis using mw by (auto simp: verified_def Let_def)
qed

section \<open>Builds of an earlier process\<close>

text \<open>The build with identifier \<^term>\<open>i\<close> is stored as \<^term>\<open>b\<close> and has no watcher.\<close>

definition orphan :: "('s \<Rightarrow> bool) \<Rightarrow> ('s \<Rightarrow> astore) \<Rightarrow> string \<Rightarrow> build \<Rightarrow> ('s, 'k) world \<Rightarrow> bool" where
  "orphan I f i b w \<longleftrightarrow>
     I (w_store w) \<and> A_blds (f (w_store w)) i = Some b \<and> i \<notin> wt_BuildID ` set (w_watchers w)"

lemma call_builds:
  "call_ok sv c \<Longrightarrow> A_blds (snd (spec_call c A)) i \<in> {A_blds A i, None}"
  by (cases c) (simp_all add: spec_call_def remove_app_def remove_fn_def)

context store_contract begin

lemma Start_orphan:
  assumes "orphan inv abs i b w"
  shows "orphan inv abs i b (snd (Start S K cfg now uuid app fns w))"
proof -
  have o: "inv (w_store w)" "A_blds (abs (w_store w)) i = Some b" "i \<notin> wt_BuildID ` set (w_watchers w)"
    using assms by (simp_all add: orphan_def)
  have created: "inv s1 \<and> A_blds (abs s1) i = Some b \<and> i \<noteq> newID uuid"
    if "CreateBuild S now (new_build (newID uuid) (a_ID app) ref now) (w_store w) = (Inr (), s1)" for ref s1
    using that o(2) by (auto simp: new_build_def elim!: create_build_result [OF o(1)])
  show ?thesis
  proof (rule Start_cases [of S K cfg now uuid app fns w])
    fix ref e s1
    assume st: "CreateBuild S now (new_build (newID uuid) (a_ID app) ref now) (w_store w) = (Inl e, s1)"
      "w_store (snd (Start S K cfg now uuid app fns w)) = s1"
      "w_watchers (snd (Start S K cfg now uuid app fns w)) = w_watchers w"
    then have "s1 = w_store w" by (auto elim: create_build_result [OF o(1)])
    with st o show ?thesis by (simp add: orphan_def)
  next
    fix ref s1 msg
    assume "CreateBuild S now (new_build (newID uuid) (a_ID app) ref now) (w_store w) = (Inr (), s1)"
      "w_store (snd (Start S K cfg now uuid app fns w)) =
        snd (UpdateBuildStatus S (newID uuid) BuildFailed msg (Some now) s1)"
      "w_watchers (snd (Start S K cfg now uuid app fns w)) = w_watchers w"
    with created o(3) update_status [of s1 "newID uuid" BuildFailed msg "Some now"]
    show ?thesis by (auto simp: orphan_def)
  next
    fix ref s1
    assume "CreateBuild S now (new_build (newID uuid) (a_ID app) ref now) (w_store w) = (Inr (), s1)"
      "w_store (snd (Start S K cfg now uuid app fns w)) = s1"
      "w_watchers (snd (Start S K cfg now uuid app fns w)) =
         w_watchers w @ [new_watcher (newID uuid) app ref now]"
    with created o(3) show ?thesis by (auto simp: orphan_def new_watcher_def)
  qed (use o in \<open>simp add: orphan_def\<close>)
qed

lemma watch_outcome_orphan:
  assumes "inv (w_store w)" "A_blds (abs (w_store w)) i = Some b" "wt_BuildID wt \<noteq> i"
  shows "inv (w_store (watch_outcome S Q K cfg now wt polled w)) \<and>
    A_blds (abs (w_store (watch_outcome S Q K cfg now wt polled w))) i = Some b"
proof (rule watch_outcome_cases [of w S wt Q K cfg now polled])
  fix s1 st msg
  assume s1: "s1 = w_store w \<or> (\<exists>n. s1 = snd (UpdateBuildImageSize S (wt_BuildID wt) n (w_store w)))"
    and o: "w_store (watch_outcome S Q K cfg now wt polled w) =
       snd (UpdateBuildStatus S (wt_BuildID wt) st msg (Some now) s1)"
  have "inv s1 \<and> A_blds (abs s1) i = Some b"
    using s1 assms update_size [OF assms(1)] by auto
  then show ?thesis using o update_status [of s1] assms(3) by simp
qed

lemma orphan_step:
  assumes "process_step sv w w'" "orphan inv abs i b w" "sv_store sv = S"
    "A_blds (abs (w_store w')) i \<noteq> None"
  shows "orphan inv abs i b w'"
proof -
  have o: "inv (w_store w)" "A_blds (abs (w_store w)) i = Some b" "i \<notin> wt_BuildID ` set (w_watchers w)"
    using assms(2) by (simp_all add: orphan_def)
  have other: "wt_BuildID (w_watchers w ! n) \<noteq> i" if "n < length (w_watchers w)" for n
    using o(3) nth_mem [OF that] by blast
  show ?thesis
    using assms(1)
  proof cases
    case (proc_call c)
    then show ?thesis
      using call_refines(1,2) [OF o(1), of c] call_builds [OF proc_call(2), of "abs (w_store w)" i] o assms(4)
      by (auto simp: assms(3) orphan_def)
  next
    case (proc_start uuid now app fns)
    show ?thesis unfolding proc_start(1) assms(3) by (rule Start_orphan [OF assms(2)])
  next
    case (proc_begin n)
    have "i \<notin> wt_BuildID ` set (w_watchers w')"
      using o(3) other [OF proc_begin(2)]
      by (auto simp: proc_begin(1) begin_at_def Let_def watch_begin_def
          dest!: subsetD [OF set_update_subset_insert])
    then show ?thesis
      using update_status [OF o(1)] o(2) other [OF proc_begin(2)]
      by (simp add: proc_begin(1) assms(3) orphan_def begin_at_def Let_def watch_begin_def)
  next
    case (proc_end n now polled)
    have "i \<notin> wt_BuildID ` set (w_watchers w')"
      using o(3) by (auto simp: proc_end(1) end_at_def Let_def dest: in_set_takeD in_set_dropD)
    then show ?thesis
      using watch_outcome_orphan [OF o(1,2) other [OF proc_end(2)]]
      by (simp add: proc_end(1) assms(3) orphan_def end_at_def Let_def)
  qed (use o in \<open>simp_all add: orphan_def\<close>)
qed

end

text \<open>
  A control plane starts with no watchers, and however its requests interleave, whatever its watchers and the cluster do: a build that the
  database had at the start stays exactly as it was, status included, for as long as its row is
  there, so one that was pending or running never ends.
\<close>

lemma stored_builds_stay:
  assumes "startup X E = Inr cp" "db_inv (w_store (cp_world cp))"
    "by_key b_ID (t_builds (w_store (cp_world cp))) i = Some b"
    "rtranclp (\<lambda>x y. process_step (cp_server cp) x y \<and> by_key b_ID (t_builds (w_store y)) i \<noteq> None)
       (cp_world cp) w"
  shows "by_key b_ID (t_builds (w_store w)) i = Some b"
proof -
  note st = startup_wiring [OF assms(1)]
  have "orphan db_inv abs_db i b w"
    using assms(4)
  proof (induction rule: rtranclp_induct)
    case base
    show ?case using assms(2,3) by (simp add: orphan_def st(4))
  next
    case (step y z)
    then show ?case using sq.orphan_step [of "cp_server cp" y z i b] by (simp add: st(1))
  qed
  then show ?thesis by (simp add: orphan_def)
qed

section \<open>Examples\<close>

definition dev_id_token :: id_token where
  "dev_id_token = \<lparr>it_claims = Inr (no_claims\<lparr>C_Subject := ''u1'', C_Roles := [''dev'']\<rparr>), it_Expiry = 0\<rparr>"

definition system_externals :: "db \<Rightarrow> (string, cluster, int, unit) externals" where
  "system_externals d = example_externals
     \<lparr>ex_openSQLite := (\<lambda>dsn. Inr d),
      ex_idp := example_idp\<lparr>ip_Verifier := (\<lambda>p a t. if t = ''tok'' then Inr dev_id_token else Inl ''bad'')\<rparr>\<rparr>"

lemma system_starts:
  obtains cp where "startup (system_externals d) example_environment = Inr cp"
    "w_store (cp_world cp) = d" "v_Verify (cp_verifier cp) ''tok'' = Inr dev_id_token"
proof -
  let ?c = "read_config example_environment"
  have oi: "oi_IssuerURL (cf_OIDC ?c) = ''https://idp''" "oi_ClientID (cf_OIDC ?c) = ''spinup''"
    "oi_ClientSecret (cf_OIDC ?c) = ''s3cret''" "oi_RedirectURL (cf_OIDC ?c) = ''https://cp/auth/callback''"
    "\<not> oi_DevInsecureSkipAuth (cf_OIDC ?c)" "db_Driver (cf_DB ?c) = ''sqlite''"
    by (simp_all add: read_config_def env_def example_environment_def ToLower_def lower_char_def less_eq_char_def)
  then have "Load example_environment = Inr ?c" by (simp add: Load_def Let_def)
  with oi that show thesis
    by (simp add: startup_def Open_def NewVerifier_def NewOAuth_def k8s_New_def restConfig_def
        proxy_New_def system_externals_def example_externals_def example_idp_def example_telemetry Let_def
        SetPolicy_def SetSessions_def)
qed

text \<open>A request with a bearer token that creates an application.\<close>

definition create_http :: http_in where
  "create_http =
     \<lparr>in_Method = ''POST'', in_Elems = [''api'', ''v1'', ''applications''], in_URLPath = ''/api/v1/applications'',
      in_Request = \<lparr>r_cookies = [], r_headers = [(''Authorization'', ''Bearer tok'')], r_query = []\<rparr>,
      in_Query = (\<lambda>k. []), in_Payload = example_payload, in_Random = (\<lambda>n. Inr ''r'')\<rparr>"

lemma create_http_simps [simp]:
  "in_Method create_http = ''POST''" "in_Elems create_http = [''api'', ''v1'', ''applications'']"
  "in_Payload create_http = example_payload" "in_Query create_http = (\<lambda>k. [])"
  "in_Request create_http = \<lparr>r_cookies = [], r_headers = [(''Authorization'', ''Bearer tok'')], r_query = []\<rparr>"
  by (simp_all add: create_http_def)

lemma create_http_accepted:
  assumes "startup X example_environment = Inr cp" "v_Verify (cp_verifier cp) ''tok'' = Inr dev_id_token"
  shows "\<exists>c. Middleware (cp_verifier cp) t1 t2 (in_Request create_http) m = (Inr c, m)"
proof -
  note st = startup_wiring [OF assms(1)]
  have roles: "splitCSV ''dev, ops'' = [''dev'', ''ops'']" by code_simp
  have "TrimSpace '' tok'' = ''tok''" "TrimSpace ''tok'' = ''tok''" by code_simp+
  then show ?thesis
    using st(5,6) assms(2)
    by (simp add: Middleware_def resolve_def Cookie_def resolve_bearer_def Header_Get_def dev_id_token_def
        example_environment_def env_def roles Authorize_iff NewPolicy_def split: option.split)
qed

lemma create_http_changes:
  assumes "startup X example_environment = Inr cp" "v_Verify (cp_verifier cp) ''tok'' = Inr dev_id_token"
    "w_store (cp_world cp) = empty_db"
  shows "t_applications (w_store (pr_world (snd (handle_http (cp_verifier cp) (cp_oauth cp) (cp_server cp) ui
      example_env 8 create_http (initial_process cp))))) \<noteq> []"
proof -
  note st = startup_wiring [OF assms(1)]
  let ?w = "cp_world cp" and ?sv = "cp_server cp"
  have routes: "open_routes ?sv create_http w = None" "auth_routes v oa t1 t2 create_http m = None" for w v oa t1 t2 m
    by (simp_all add: open_routes_def auth_routes_def is_get_def Let_def split: option.split)
  obtain c where mw: "Middleware (cp_verifier cp) 7 8 (in_Request create_http) (cp_sessions cp) = (Inr c, cp_sessions cp)"
    using create_http_accepted [OF assms(1,2)] by blast
  have mux: "api_mux ?sv example_env True ''POST'' [''api'', ''v1'', ''applications''] q example_payload w =
      createApplication ?sv example_env True (in_app example_payload) w" for q w
    by (simp add: api_mux_def path_methods_def)
  have "t_applications (w_store (snd (createApplication ?sv example_env True (in_app example_payload) ?w))) \<noteq> []"
    using assms(3) st(1)
    by (simp add: createApplication_def guarded_def or_reply_def example_payload_def decoded_def check_create_def
        dns1123_def lower_alnum_def less_eq_char_def is_digit_def supported_languages_def RuntimeSpinKube_def
        store_do_def sq_CreateApplication_def empty_db_def sq_CreateFunction_def new_application_def
        default_function_def app_exists_def Let_def)
  with mw show ?thesis
    by (simp add: handle_http_def initial_process_def routes api_handler_def mux case_prod_unfold)
qed

lemma create_http_state:
  assumes "startup X example_environment = Inr cp" "v_Verify (cp_verifier cp) ''tok'' = Inr dev_id_token"
    "w_store (cp_world cp) = empty_db"
  obtains s where "s = snd (handle_http (cp_verifier cp) (cp_oauth cp) (cp_server cp) None example_env 8 create_http
      (initial_process cp))"
    "rtranclp (system_step cp None) (initial_process cp) s" "t_applications (w_store (pr_world s)) \<noteq> []"
proof
  show "rtranclp (system_step cp None) (initial_process cp) (snd (handle_http (cp_verifier cp) (cp_oauth cp)
      (cp_server cp) None example_env 8 create_http (initial_process cp)))"
    using startup_wiring(4) [OF assms(1)]
    by (intro r_into_rtranclp sys_http)
      (simp_all add: payload_ok_def, simp_all add: example_payload_def initial_process_def)
qed (rule refl, rule create_http_changes [OF assms])


theorem changes_need_verified_claims_witness:
  "\<exists>cp c m raw idt. startup (system_externals empty_db) example_environment = Inr cp \<and>
     Middleware (cp_verifier cp) (e_now example_env) 8 (in_Request create_http)
       (pr_sessions (initial_process cp)) = (Inr c, m) \<and>
     v_Verify (cp_verifier cp) raw = Inr idt \<and> it_claims idt = Inr c"
proof -
  obtain cp where cp: "startup (system_externals empty_db) example_environment = Inr cp"
    "w_store (cp_world cp) = empty_db" "v_Verify (cp_verifier cp) ''tok'' = Inr dev_id_token"
    using system_starts by blast
  have dev: "example_environment ''SPINUP_DEV_INSECURE_SKIP_AUTH'' \<noteq> Some ''true''"
    by (simp add: example_environment_def)
  have inv: "process_inv db_inv abs_db (cp_server cp) (cp_world cp)"
    by (rule empty_start [OF cp(2) startup_wiring(4) [OF cp(1)]])
  have "t_applications (w_store (pr_world (initial_process cp))) = []"
    by (simp add: initial_process_def cp(2) empty_db_def)
  then have moved: "pr_world (snd (handle_http (cp_verifier cp) (cp_oauth cp) (cp_server cp) None example_env 8
      create_http (initial_process cp))) \<noteq> pr_world (initial_process cp)"
    using create_http_changes [OF cp(1,3,2), of None] by auto
  from changes_need_verified_claims [OF cp(1) dev inv rtranclp.rtrancl_refl moved] cp(1) show ?thesis by blast
qed

end
