(* ===== verification/Lifecycle.thy ===== *)
theory Lifecycle
  imports System
begin

text \<open>
  The life of the process, \<^verbatim>\<open>main\<close> from its first line to its last: the start, the listening
  server, the signal or the error that ends it, the graceful shutdown, the exit code.
\<close>

section \<open>Phases\<close>

datatype phase = Serving | Stopping | Exited nat

record 'k main_state =
  ms_Phase :: phase
  ms_Process :: "'k process"
  ms_StoreClosed :: bool

text \<open>An error of the start ends \<^verbatim>\<open>main\<close> with \<^verbatim>\<open>os.Exit(1)\<close>, which runs no deferred call.\<close>

definition main_start ::
  "('c, 'k, 'q, 'p) externals \<Rightarrow> environment \<Rightarrow> nat + ('k, 'q) control_plane \<times> 'k main_state" where
  "main_start X E =
     (case startup X E of
        Inl err \<Rightarrow> Inl 1
      | Inr cp \<Rightarrow> Inr (cp, \<lparr>ms_Phase = Serving, ms_Process = initial_process cp, ms_StoreClosed = False\<rparr>))"

text \<open>What \<^verbatim>\<open>ListenAndServe\<close> returns.\<close>

datatype serve_end = ErrServerClosed | ServeError string

definition serve_ended :: "serve_end \<Rightarrow> 'k main_state \<Rightarrow> 'k main_state" where
  "serve_ended err s = (case err of
     ErrServerClosed \<Rightarrow> s\<lparr>ms_Phase := Stopping\<rparr>
   | ServeError msg \<Rightarrow> s\<lparr>ms_Phase := Exited 1\<rparr>)"

text \<open>
  After \<^verbatim>\<open>Shutdown\<close>, whether it returned an error or not, \<^verbatim>\<open>main\<close> returns: the deferred \<^verbatim>\<open>Close\<close> of
  the store runs and the exit code is 0.
\<close>

definition main_return :: "'k main_state \<Rightarrow> 'k main_state" where
  "main_return s = s\<lparr>ms_Phase := Exited 0, ms_StoreClosed := True\<rparr>"

text \<open>
  While the server shuts down the requests that it had accepted go on, and the watchers too.
\<close>

inductive main_step ::
  "('k, 'q) control_plane \<Rightarrow> (string \<Rightarrow> bool) option \<Rightarrow> 'k main_state \<Rightarrow> 'k main_state \<Rightarrow> bool" for cp ui where
  main_work: "ms_Phase s \<in> {Serving, Stopping} \<Longrightarrow> system_step cp ui (ms_Process s) p \<Longrightarrow>
    main_step cp ui s (s\<lparr>ms_Process := p\<rparr>)"
| main_signal: "ms_Phase s = Serving \<Longrightarrow> main_step cp ui s (s\<lparr>ms_Phase := Stopping\<rparr>)"
| main_serve_end: "ms_Phase s = Serving \<Longrightarrow> main_step cp ui s (serve_ended err s)"
| main_done: "ms_Phase s = Stopping \<Longrightarrow> main_step cp ui s (main_return s)"

inductive_cases main_stepE: "main_step cp ui s s'"

inductive_simps main_step_exited: "main_step cp ui (s\<lparr>ms_Phase := Exited c\<rparr>) s'"

section \<open>Exits\<close>

lemma exited_final: "ms_Phase s = Exited c \<Longrightarrow> \<not> main_step cp ui s s'"
  by (auto elim: main_stepE)

lemma main_step_system:
  assumes "main_step cp ui s s'"
  shows "ms_Process s' = ms_Process s \<or> system_step cp ui (ms_Process s) (ms_Process s')"
  using assms by cases (auto simp: serve_ended_def main_return_def split: serve_end.split)

lemma main_run_system:
  "rtranclp (main_step cp ui) s s' \<Longrightarrow> rtranclp (system_step cp ui) (ms_Process s) (ms_Process s')"
  by (induction rule: rtranclp_induct) (auto dest: main_step_system intro: rtranclp.rtrancl_into_rtrancl)

definition exit_ok :: "'k main_state \<Rightarrow> bool" where
  "exit_ok s \<longleftrightarrow> (case ms_Phase s of Exited c \<Rightarrow> c = (if ms_StoreClosed s then 0 else 1) | _ \<Rightarrow> \<not> ms_StoreClosed s)"

lemma main_step_exit_ok: "main_step cp ui s s' \<Longrightarrow> exit_ok s \<Longrightarrow> exit_ok s'"
  by (erule main_stepE)
    (auto simp: exit_ok_def serve_ended_def main_return_def split: serve_end.split phase.splits)

lemma main_run_exit_ok: "rtranclp (main_step cp ui) s s' \<Longrightarrow> exit_ok s \<Longrightarrow> exit_ok s'"
  by (induction rule: rtranclp_induct) (auto intro: main_step_exit_ok)

lemma main_start_Inr:
  assumes "main_start X E = Inr (cp, s)"
  shows "startup X E = Inr cp" "ms_Process s = initial_process cp" "ms_Phase s = Serving" "exit_ok s"
  using assms by (auto simp: main_start_def exit_ok_def split: sum.splits)

text \<open>From wherever it is, a signal and the end of the shutdown bring the process to its exit.\<close>

lemma main_can_exit:
  assumes "ms_Phase s \<in> {Serving, Stopping}"
  shows "\<exists>s'. rtranclp (main_step cp ui) s s' \<and> ms_Phase s' = Exited 0 \<and> ms_Process s' = ms_Process s"
proof -
  have st: "\<exists>s'. rtranclp (main_step cp ui) s s' \<and> ms_Phase s' = Exited 0 \<and> ms_Process s' = ms_Process s"
    if "ms_Phase s = Stopping" for s
    using r_into_rtranclp [of "main_step cp ui", OF main_done [OF that, of cp ui]]
    by (intro exI [of _ "main_return s"]) (simp add: main_return_def)
  show ?thesis
  proof (cases "ms_Phase s = Serving")
    case True
    then have "main_step cp ui s (s\<lparr>ms_Phase := Stopping\<rparr>)" by (rule main_signal)
    with st [of "s\<lparr>ms_Phase := Stopping\<rparr>"] show ?thesis by (auto intro: converse_rtranclp_into_rtranclp)
  qed (use assms st in auto)
qed

section \<open>Properties\<close>


text \<open>
  C17: A build in progress does not survive its process. When a control plane exits, by a signal or by
  an error, while a build has a watcher, and another one starts on the database that it left: the
  build is still pending or running, as its watcher had it, and stays exactly so, however requests
  interleave and whatever watchers and cluster do, for as long as its row is there. It never ends.
\<close>

theorem exit_strands_builds:
  assumes "main_start X E = Inr (cp, s0)" "process_inv db_inv abs_db (cp_server cp) (cp_world cp)"
    "rtranclp (main_step cp ui) s0 s" "ms_Phase s = Exited c"
    "wt \<in> set (w_watchers (pr_world (ms_Process s)))"
    "by_key b_ID (t_builds (w_store (pr_world (ms_Process s)))) (wt_BuildID wt) = Some b"
    "startup X' E' = Inr cp'" "w_store (cp_world cp') = w_store (pr_world (ms_Process s))"
    "rtranclp (\<lambda>x y. process_step (cp_server cp') x y \<and> by_key b_ID (t_builds (w_store y)) (wt_BuildID wt) \<noteq> None)
       (cp_world cp') w"
  shows "by_key b_ID (t_builds (w_store w)) (wt_BuildID wt) = Some b \<and> \<not> build_over b \<and>
    b_Status b = (if wt_Polling wt then BuildRunning else BuildPending)"
proof -
  note st = main_start_Inr [OF assms(1)]
  let ?w = "pr_world (ms_Process s)"
  have inv: "process_inv db_inv abs_db (cp_server cp) ?w"
    using system_reachable [OF st(1) assms(2)] main_run_system [OF assms(3)] st(2)
    by (simp add: system_inv_def)
  have bi: "builds_inv (A_blds (abs_db (w_store ?w))) (w_watchers ?w)"
    using inv by (simp add: process_inv_def del: abs_db_simps)
  then have "by_key wt_BuildID (w_watchers ?w) (wt_BuildID wt) = Some wt"
    using by_key_in [of wt_BuildID "w_watchers ?w" wt] assms(5) by (simp add: builds_inv_def)
  moreover have "b_ID b = wt_BuildID wt" "watched (w_watchers ?w) b"
    using builds_invD [OF bi, of "wt_BuildID wt" b] assms(6) by simp_all
  ultimately have "build_going (wt_Polling wt) b" by (simp add: watched_here)
  moreover have "by_key b_ID (t_builds (w_store w)) (wt_BuildID wt) = Some b"
    using process_inv_rows(1) [OF inv] assms(6,8) by (intro stored_builds_stay [OF assms(7) _ _ assms(9)]) simp_all
  ultimately show ?thesis by (auto simp: build_going_def build_over_def)
qed

section \<open>An example\<close>

lemma example_start:
  assumes "profile cfg ''go'' = Inr img" "t_builds (w_store w) = []" "app_exists ''a1'' (w_store w)"
  shows "t_builds (w_store (snd (Start sqlite_ops mem_kube cfg 5 ''b-1'' example_app [example_input] w))) =
      [new_build ''b1'' ''a1'' (image_ref cfg ''hello'' ''b1'') 5]"
    "w_watchers (snd (Start sqlite_ops mem_kube cfg 5 ''b-1'' example_app [example_input] w)) =
      w_watchers w @ [new_watcher ''b1'' example_app (image_ref cfg ''hello'' ''b1'') 5]"
proof -
  have app: "a_Language example_app = ''go''" "a_Name example_app = ''hello''" "a_ID example_app = ''a1''"
    by (simp_all add: example_app_def)
  have id: "newID ''b-1'' = ''b1''" by (simp add: newID_def)
  have specs: "build_specs [example_input] \<noteq> []" "build_files [example_input] = []"
    by (simp_all add: build_specs_def build_files_def function_files_def example_input_def)
  then obtain m where man: "synthesizeSpinToml ''go'' ''hello'' (build_specs [example_input]) = Inr m"
    by (simp add: synthesizeSpinToml_def Let_def)
  note eqs = Start_def id app man specs Let_def store_do_def kube_do_def createSecret_def createJob_def
    mem_kube_def example_pack sq_CreateBuild_def new_build_def is_zero_time_def spawn_def zero_time_def
  show "t_builds (w_store (snd (Start sqlite_ops mem_kube cfg 5 ''b-1'' example_app [example_input] w))) =
      [new_build ''b1'' ''a1'' (image_ref cfg ''hello'' ''b1'') 5]"
    "w_watchers (snd (Start sqlite_ops mem_kube cfg 5 ''b-1'' example_app [example_input] w)) =
      w_watchers w @ [new_watcher ''b1'' example_app (image_ref cfg ''hello'' ''b1'') 5]"
    using assms by (simp_all add: eqs)
qed

lemma example_main:
  obtains cp s0 where "main_start (system_externals d) example_environment = Inr (cp, s0)"
    "w_store (cp_world cp) = d" "sv_kube (cp_server cp) = mem_kube"
    "Mode (sv_resourcePolicy (cp_server cp)) = []"
    "profile (sv_builder (cp_server cp)) ''go'' = Inr ''spinup/builder-go:latest''"
proof -
  obtain cp where cp: "startup (system_externals d) example_environment = Inr cp" "w_store (cp_world cp) = d"
    using system_starts by blast
  obtain c k base where srv: "Load example_environment = Inr c"
    "cp_server cp = server_of c sqlite_ops (kl_Clients (ex_k8s (system_externals d)) k)
       (ex_quantity (system_externals d)) base"
    by (rule startup_Inr [OF cp(1)], rule that, assumption) simp
  have c: "c = read_config example_environment" by (rule Load_Inr(1) [OF srv(1)])
  show thesis
    by (rule that [of cp], simp add: main_start_def cp(1), rule cp(2))
      (simp_all add: srv(2) c server_of_def builder_of_def resource_policy_of_def read_config_def env_def
        example_environment_def system_externals_def example_externals_def profile_def Let_def)
qed


text \<open>A process that is stopped while it builds.\<close>

lemma example_exit:
  obtains cp s0 s ref where "main_start (system_externals empty_db) example_environment = Inr (cp, s0)"
    "process_inv db_inv abs_db (cp_server cp) (cp_world cp)" "rtranclp (main_step cp None) s0 s"
    "ms_Phase s = Exited 0"
    "w_watchers (pr_world (ms_Process s)) = [new_watcher ''b1'' example_app ref 5]"
    "t_builds (w_store (pr_world (ms_Process s))) = [new_build ''b1'' ''a1'' ref 5]"
proof -
  obtain cp s0 where cp: "main_start (system_externals empty_db) example_environment = Inr (cp, s0)"
    "w_store (cp_world cp) = empty_db" "sv_kube (cp_server cp) = mem_kube"
    "Mode (sv_resourcePolicy (cp_server cp)) = []"
    "profile (sv_builder (cp_server cp)) ''go'' = Inr ''spinup/builder-go:latest''" using example_main by blast
  note st = main_start_Inr [OF cp(1)]
  note wiring = startup_wiring [OF st(1)]
  have inv: "process_inv db_inv abs_db (cp_server cp) (cp_world cp)" by (rule empty_start [OF cp(2) wiring(4)])
  let ?sv = "cp_server cp"
  define w1 where "w1 = snd (store_do (exec_call sqlite_ops (CallCreateApplication 1 example_app)) (cp_world cp))"
  define w2 where "w2 = snd (Start sqlite_ops mem_kube (sv_builder ?sv) 5 ''b-1'' example_app [example_input] w1)"
  define s1 where "s1 = s0\<lparr>ms_Process := (ms_Process s0)\<lparr>pr_world := w1\<rparr>\<rparr>"
  define s2 where "s2 = s1\<lparr>ms_Process := (ms_Process s1)\<lparr>pr_world := w2\<rparr>\<rparr>"
  have "app_ok ?sv example_app"
    using cp(4) by (simp add: app_ok_def example_app_def defaultTenant_def dns1123_def lower_alnum_def
        less_eq_char_def is_digit_def supported_languages_def vars_ok_def res_ok_def)
  then have p1: "process_step ?sv (cp_world cp) w1"
    using proc_call [of ?sv "CallCreateApplication 1 example_app" "cp_world cp"] by (simp add: w1_def wiring(1))
  have w1: "t_builds (w_store w1) = []" "app_exists ''a1'' (w_store w1)" "w_watchers w1 = []"
    using cp(2) wiring(4)
    by (simp_all add: w1_def store_do_def case_prod_unfold sq_CreateApplication_def empty_db_def Let_def app_exists_def example_app_def)
  have p2: "process_step ?sv w1 w2"
    using proc_start [of "''b-1''" w1 ?sv 5 example_app "[example_input]"] by (simp add: w2_def wiring(1) cp(3) w1(3))
  have "system_step cp None (ms_Process s0) (ms_Process s1)"
    using sys_process [of cp "ms_Process s0" w1 None] p1 by (simp add: s1_def st(2) initial_process_def)
  then have m1: "main_step cp None s0 s1" using main_work [of s0 cp None] st(3) by (simp add: s1_def)
  have "system_step cp None (ms_Process s1) (ms_Process s2)"
    using sys_process [of cp "ms_Process s1" w2 None] p2 by (simp add: s2_def s1_def)
  then have "main_step cp None s1 s2" using main_work [of s1 cp None] st(3) by (simp add: s2_def s1_def)
  moreover obtain s where s: "rtranclp (main_step cp None) s2 s" "ms_Phase s = Exited 0" "ms_Process s = ms_Process s2"
    using main_can_exit [of s2 cp None] st(3) by (auto simp: s2_def s1_def)
  ultimately have "rtranclp (main_step cp None) s0 s" using m1 by (meson converse_rtranclp_into_rtranclp)
  moreover have w: "pr_world (ms_Process s) = w2" by (simp add: s(3) s2_def)
  have "w_watchers (pr_world (ms_Process s)) =
      [new_watcher ''b1'' example_app (image_ref (sv_builder ?sv) ''hello'' ''b1'') 5]"
    unfolding w w2_def using example_start(2) [OF cp(5) w1(1,2)] by (simp add: w1(3))
  moreover have "t_builds (w_store (pr_world (ms_Process s))) =
      [new_build ''b1'' ''a1'' (image_ref (sv_builder ?sv) ''hello'' ''b1'') 5]"
    unfolding w w2_def by (rule example_start(1) [OF cp(5) w1(1,2)])
  ultimately show thesis using that cp(1) inv s(2) by blast
qed

theorem exit_strands_builds_witness:
  "\<exists>cp s0 s cp' b. main_start (system_externals empty_db) example_environment = Inr (cp, s0) \<and>
     rtranclp (main_step cp None) s0 s \<and> ms_Phase s = Exited 0 \<and>
     startup (system_externals (w_store (pr_world (ms_Process s)))) example_environment = Inr cp' \<and>
     by_key b_ID (t_builds (w_store (count_event BuildsStarted (cp_world cp')))) ''b1'' = Some b \<and>
     \<not> build_over b"
proof -
  obtain cp s0 s ref where s: "main_start (system_externals empty_db) example_environment = Inr (cp, s0)"
    "process_inv db_inv abs_db (cp_server cp) (cp_world cp)" "rtranclp (main_step cp None) s0 s"
    "ms_Phase s = Exited 0"
    "w_watchers (pr_world (ms_Process s)) = [new_watcher ''b1'' example_app ref 5]"
    "t_builds (w_store (pr_world (ms_Process s))) = [new_build ''b1'' ''a1'' ref 5]"
    by (rule example_exit)
  obtain cp' where cp': "startup (system_externals (w_store (pr_world (ms_Process s)))) example_environment = Inr cp'"
    "w_store (cp_world cp') = w_store (pr_world (ms_Process s))" using system_starts by blast
  let ?wt = "new_watcher ''b1'' example_app ref 5" and ?b = "new_build ''b1'' ''a1'' ref 5"
  have wt: "?wt \<in> set (w_watchers (pr_world (ms_Process s)))" "wt_BuildID ?wt = ''b1''"
    by (simp_all add: s(5) new_watcher_def)
  have row: "by_key b_ID (t_builds (w_store (pr_world (ms_Process s)))) (wt_BuildID ?wt) = Some ?b"
    by (simp add: s(6) by_key_def new_build_def wt(2))
  have "rtranclp (\<lambda>x y. process_step (cp_server cp') x y \<and>
      by_key b_ID (t_builds (w_store y)) (wt_BuildID ?wt) \<noteq> None)
    (cp_world cp') (count_event BuildsStarted (cp_world cp'))"
    using row cp'(2) by (intro r_into_rtranclp) (simp add: proc_count)
  from exit_strands_builds [OF s(1-4) wt(1) row cp' this] s(1,3,4) cp'(1) show ?thesis
    by (auto simp: wt(2))
qed

end
