(* ===== verification/Journeys.thy ===== *)
theory Journeys
  imports Process
begin

text \<open>
  What a user of the API sees across several requests and components: handlers
  (\<^verbatim>\<open>internal/httpapi/applications.go\<close>), store, deployer, builder and cluster together. Nothing is
  defined here but names for states of affairs; every operation is one of the other theories.
\<close>

section \<open>A created application\<close>

lemma sq_create_rows:
  "sq_CreateApplication now a d = (Inr u, d') \<Longrightarrow>
     d' = d\<lparr>t_applications := t_applications d @ [stored_app now a]\<rparr> \<and> \<not> app_exists (a_ID a) d"
  "sq_CreateFunction now f d = (Inr u, d') \<Longrightarrow> d' = d\<lparr>t_functions := t_functions d @ [stored_fn now f]\<rparr>"
  by (auto simp: sq_CreateApplication_def sq_CreateFunction_def stored_app_def stored_fn_def app_exists_def
      Let_def split: if_splits)

text \<open>What a creation that succeeded did to the tables.\<close>

lemma create_ok_cases:
  assumes "createApplication sv e au body w = (OneApp n a, w')" "sv_store sv = sqlite_ops"
  obtains inp rt where "au" "body = Some inp" "check_create inp = Inr rt"
    "a = created_dto (new_application (e_uuid e) inp rt) (default_function (e_uuid2 e) (e_uuid e))"
    "\<not> app_exists (e_uuid e) (w_store w)"
    "w' = count_event FunctionsCreated (w\<lparr>w_store := (w_store w)
       \<lparr>t_applications := t_applications (w_store w) @ [stored_app (e_now e) (new_application (e_uuid e) inp rt)],
        t_functions := t_functions (w_store w) @ [stored_fn (e_now e) (default_function (e_uuid2 e) (e_uuid e))]\<rparr>\<rparr>)"
proof -
  obtain inp rt where in_: "au" "body = Some inp" "check_create inp = Inr rt"
    using assms(1) by (cases au; cases body; cases "check_create (the body)") (auto simp: createApplication_def dest: check_create_Inl)
  define app where "app = new_application (e_uuid e) inp rt"
  define fn where "fn = default_function (e_uuid2 e) (e_uuid e)"
  have ids: "a_ID app = e_uuid e" by (simp add: app_def new_application_def)
  obtain r1 d1 where c1: "sq_CreateApplication (e_now e) app (w_store w) = (r1, d1)" by fastforce
  obtain r2 d2 where c2: "sq_CreateFunction (e_now e) fn d1 = (r2, d2)" by fastforce
  note run = createApplication_def in_ assms(2) Let_def ids app_def [symmetric] fn_def [symmetric]
    store_do_def c1 c2
  obtain u1 where r1: "r1 = Inr u1" using assms(1) by (cases r1) (auto simp: run)
  obtain u2 where r2: "r2 = Inr u2" using assms(1) by (cases r2) (auto simp: run r1)
  have "a = created_dto app fn" "w' = count_event FunctionsCreated (w\<lparr>w_store := d2\<rparr>)"
    using assms(1) by (auto simp: run r1 r2)
  with sq_create_rows(1) [OF c1 [unfolded r1]] sq_create_rows(2) [OF c2 [unfolded r2]] in_ ids show thesis
    by (intro that [of inp rt]) (simp_all add: app_def fn_def)
qed

lemma sq_loadApplication:
  "sv_store sv = sqlite_ops \<Longrightarrow> loadApplication sv i w =
     (case find (\<lambda>a. a_TenantID a = defaultTenant \<and> a_ID a = i) (t_applications (w_store w)) of
        None \<Rightarrow> Inl (HttpError 404 ''application not found'') | Some a \<Rightarrow> Inr a)"
  by (simp add: loadApplication_def sq_GetApplication_def split: option.split)

lemma sq_orphans:
  assumes "db_inv d" "\<not> app_exists i d"
  shows "filter (\<lambda>f. f_ApplicationID f = i) (t_functions d) = []"
    "filter (\<lambda>b. b_ApplicationID b = i) (t_builds d) = []"
proof -
  note inv = db_invD [OF assms(1)]
  have none: "A_apps (abs_db d) i = None"
    using assms(2) by (simp add: by_key_exists app_exists_def)
  show "filter (\<lambda>f. f_ApplicationID f = i) (t_functions d) = []"
    using astore_invD(4) [OF inv(6)] none by (force simp: filter_empty_conv by_key_iff [OF inv(3)])
  show "filter (\<lambda>b. b_ApplicationID b = i) (t_builds d) = []"
    using astore_invD(8) [OF inv(6)] none by (force simp: filter_empty_conv by_key_iff [OF inv(5)])
qed

text \<open>A reply about another application does not depend on rows that are appended.\<close>

lemma get_other_append:
  assumes "sv_store sv = sqlite_ops" "a_ID a \<noteq> i" "f_ApplicationID f \<noteq> i"
    "w_store w' = (w_store w)\<lparr>t_applications := t_applications (w_store w) @ [a],
       t_functions := t_functions (w_store w) @ [f]\<rparr>" "w_kube w' = w_kube w"
  shows "fst (getApplication sv au i w') = fst (getApplication sv au i w)"
proof -
  have load: "loadApplication sv i w' = loadApplication sv i w"
    using assms(2) by (simp add: sq_loadApplication [OF assms(1)] assms(4) find_append split: option.split)
  have id: "a_ID app = i" if "loadApplication sv i w = Inr app" for app
    using that by (auto simp: sq_loadApplication [OF assms(1)] find_Some_iff split: option.splits)
  have dep: "deployment_of sv app w' = deployment_of sv app w" for app
    by (simp add: deployment_of_def assms(1,4,5) sq_ListBuilds_def buildDeploymentVW_def lookupImageSize_def
        Let_def split: sum.split option.split)
  have fns: "sq_ListFunctions i (w_store w') = sq_ListFunctions i (w_store w)"
    using assms(3) by (simp add: sq_ListFunctions_def assms(4))
  show ?thesis
  proof (cases "loadApplication sv i w")
    case (Inl r)
    with load show ?thesis by (simp add: getApplication_def guarded_def)
  next
    case (Inr app)
    with load id [OF Inr] fns show ?thesis
      by (simp add: getApplication_def dep assms(1) guarded_def internal_def or_reply_def split: sum.split)
  qed
qed

text \<open>Reading the new rows: the application with its one function.\<close>

lemma get_appended:
  assumes "db_inv (w_store w)" "sv_store sv = sqlite_ops" "a_TenantID row = defaultTenant"
    "f_ApplicationID f = a_ID row" "\<not> app_exists (a_ID row) (w_store w)"
    "w_store w' = (w_store w)\<lparr>t_applications := t_applications (w_store w) @ [row],
       t_functions := t_functions (w_store w) @ [f]\<rparr>"
  shows "getApplication sv True (a_ID row) w' =
      (OneApp 200 (toApplicationDTO row [toFunctionDTO f] (deployment_of sv row w')), w')"
    "a_Runtime row = RuntimeWorkerPool \<Longrightarrow> deployment_of sv row w' = None"
proof -
  note none = sq_orphans [OF assms(1,5)]
  have "find (\<lambda>a. a_TenantID a = defaultTenant \<and> a_ID a = a_ID row) (t_applications (w_store w)) = None"
    using assms(5) unfolding find_None_iff app_exists_def list_ex_iff by blast
  then have load: "loadApplication sv (a_ID row) w' = Inr row"
    unfolding sq_loadApplication [OF assms(2)] assms(6) using assms(3) by (simp add: find_append)
  have "sq_ListFunctions (a_ID row) (w_store w') = Inr [f]"
    unfolding sq_ListFunctions_def assms(6) using none(1) assms(4) by simp
  then show "getApplication sv True (a_ID row) w' =
      (OneApp 200 (toApplicationDTO row [toFunctionDTO f] (deployment_of sv row w')), w')"
    by (simp add: getApplication_def load assms(2))
  show "a_Runtime row = RuntimeWorkerPool \<Longrightarrow> deployment_of sv row w' = None"
    by (simp add: deployment_of_def assms(2,6) sq_ListBuilds_def none latest_success_def)
qed

definition app_listing :: "db \<Rightarrow> application_dto list" where
  "app_listing d = map (\<lambda>a. toApplicationDTO a [] None)
     (sort_key a_Name (filter (\<lambda>a. a_TenantID a = defaultTenant) (t_applications d)))"

lemma sq_listApplications:
  "sv_store sv = sqlite_ops \<Longrightarrow> listApplications sv True w = (AppList (app_listing (w_store w)), w)"
  by (simp add: listApplications_def sq_ListApplications_def app_listing_def)

lemma app_listing_append:
  "a_TenantID row = defaultTenant \<Longrightarrow> t_applications d' = t_applications d @ [row] \<Longrightarrow>
   mset (app_listing d') = add_mset (toApplicationDTO row [] None) (mset (app_listing d))"
  by (simp add: app_listing_def)

text \<open>
  C8: A created application reads back. In a reachable state, whatever the creation was asked for:
  when it answers 201 with an application, reading that id gives the application with one replica,
  its default function and, for the worker pool, no deployment; the listing has it besides what it
  had before; and reading any other id answers what it answered before.
\<close>

theorem created_application_reads_back:
  assumes "rtranclp (process_step sv) (fresh_process k) w" "sv_store sv = sqlite_ops"
    "createApplication sv e au body w = (OneApp n a, w')"
  shows "(\<exists>dep. getApplication sv True (ad_ID a) w' =
        (OneApp 200 (a\<lparr>ad_Replicas := 1, ad_Deployment := dep\<rparr>), w') \<and>
        (ad_Runtime a = RuntimeWorkerPool \<longrightarrow> dep = None)) \<and>
    (\<exists>l l'. listApplications sv True w = (AppList l, w) \<and> listApplications sv True w' = (AppList l', w') \<and>
        mset l' = add_mset (a\<lparr>ad_Replicas := 1, ad_Functions := []\<rparr>) (mset l)) \<and>
    (\<forall>i au'. i \<noteq> ad_ID a \<longrightarrow> fst (getApplication sv au' i w') = fst (getApplication sv au' i w))"
proof (rule create_ok_cases [OF assms(3,2)])
  fix inp rt
  let ?app = "new_application (e_uuid e) inp rt" and ?fn = "default_function (e_uuid2 e) (e_uuid e)"
  let ?row = "stored_app (e_now e) ?app" and ?frow = "stored_fn (e_now e) ?fn"
  assume rt: "check_create inp = Inr rt" and a: "a = created_dto ?app ?fn"
    and fresh: "\<not> app_exists (e_uuid e) (w_store w)"
    and w': "w' = count_event FunctionsCreated (w\<lparr>w_store := (w_store w)
       \<lparr>t_applications := t_applications (w_store w) @ [?row],
        t_functions := t_functions (w_store w) @ [?frow]\<rparr>\<rparr>)"
  have ids: "a_ID ?row = e_uuid e" "a_TenantID ?row = defaultTenant" "f_ApplicationID ?frow = e_uuid e"
    by (simp_all add: new_application_def default_function_def)
  have id: "ad_ID a = a_ID ?row" using ids(1) by (simp add: a created_dto_def new_application_def)
  have row: "toApplicationDTO ?row fns dep =
      a\<lparr>ad_Replicas := 1, ad_Functions := fns, ad_Deployment := dep\<rparr>" for fns dep
    using rt by (auto simp: a toApplicationDTO_def created_dto_def stored_app_def new_application_def
        no_resources_def check_create_Inr runtime_defs)
  have dto: "ad_Functions a = [toFunctionDTO ?frow]" "ad_Deployment a = None" "ad_Runtime a = a_Runtime ?row"
    using rt by (auto simp: a created_dto_def toFunctionDTO_def stored_app_def new_application_def
        check_create_Inr runtime_defs)
  have same: "a\<lparr>ad_Replicas := 1, ad_Functions := ad_Functions a, ad_Deployment := dep\<rparr> =
      a\<lparr>ad_Replicas := 1, ad_Deployment := dep\<rparr>"
    "a\<lparr>ad_Replicas := 1, ad_Functions := [], ad_Deployment := None\<rparr> = a\<lparr>ad_Replicas := 1, ad_Functions := []\<rparr>"
    for dep using dto(2) by (cases a; simp)+
  have db: "db_inv (w_store w)" using process_inv_rows(1) [OF process_reachable [OF assms(1,2)]] .
  note get = get_appended [OF db assms(2), of ?row ?frow w', unfolded id [symmetric] row dto(1) [symmetric] same(1)
      dto(3) [symmetric]]
  have "mset (app_listing (w_store w')) =
      add_mset (a\<lparr>ad_Replicas := 1, ad_Functions := []\<rparr>) (mset (app_listing (w_store w)))"
    using app_listing_append [OF ids(2), of "w_store w'" "w_store w"] by (simp add: w' row same(2))
  moreover have "fst (getApplication sv au' i w') = fst (getApplication sv au' i w)" if "i \<noteq> ad_ID a" for i au'
    using that ids id by (intro get_other_append [OF assms(2), of ?row _ ?frow]) (simp_all add: w')
  ultimately show ?thesis
    using get ids id fresh by (auto simp: sq_listApplications [OF assms(2)] w')
qed

section \<open>A deployed application\<close>

lemma status_image:
  "accessor_laws K \<Longrightarrow> ss_Image (statusFrom K obj) =
     (case ka_NestedString K obj [''spec'', ''image''] of None \<Rightarrow> [] | Some s \<Rightarrow> s)"
  "accessor_laws K \<Longrightarrow> ss_Replicas (statusFrom K obj) =
     (case ka_NestedInt64 K obj [''spec'', ''replicas''] of None \<Rightarrow> 0 | Some n \<Rightarrow> to_int32 n)"
  by (simp_all add: statusFrom_def Let_def)

lemma spin_Get_image:
  assumes "ka_Get K spinapps ns n k = Inr obj"
  shows "\<exists>st. spin_Get K ns n k = Inr (Some st) \<and> ss_Image st = ss_Image (statusFrom K obj)"
  using assms by (simp add: spin_Get_def Let_def refine_status_def split: sum.split)

text \<open>What a deployment request that succeeded went through.\<close>

lemma deploy_ok_cases:
  assumes "deployApplication sv au i body w = (DeploymentView v, w')" "sv_store sv = sqlite_ops"
  obtains inp app st where "au" "body = Some inp" "loadApplication sv i w = Inr app" "di_Image inp \<noteq> []"
    "deploy_Deploy (sv_quantity sv) (sv_kube sv) (sv_deployer sv)
       \<lparr>dr_App = app, dr_Image = di_Image inp, dr_Replicas = max 1 (di_Replicas inp)\<rparr> (w_kube w) = (Inr st, w_kube w')"
    "w' = count_event DeploysApplied (w\<lparr>w_kube := w_kube w'\<rparr>)" "v = buildDeploymentVW sv app st w'"
proof -
  have au: "au" using assms(1) by (cases au) (auto simp: deployApplication_def)
  obtain app where app: "loadApplication sv i w = Inr app"
    using assms(1) au by (cases "loadApplication sv i w")
      (auto simp: deployApplication_def loadApplication_def split: sum.splits store_error.splits)
  obtain inp where inp: "body = Some inp"
    using assms(1) au app by (cases body) (auto simp: deployApplication_def)
  have img: "di_Image inp \<noteq> []"
    using assms(1) au app inp by (auto simp: deployApplication_def)
  have max: "(if di_Replicas inp < 1 then 1 else di_Replicas inp) = max 1 (di_Replicas inp)" by simp
  let ?req = "\<lparr>dr_App = app, dr_Image = di_Image inp, dr_Replicas = max 1 (di_Replicas inp)\<rparr>"
  obtain r k1 where dep: "deploy_Deploy (sv_quantity sv) (sv_kube sv) (sv_deployer sv) ?req (w_kube w) = (r, k1)"
    by fastforce
  note run = deployApplication_def au app inp img max kube_do_def dep Let_def
  obtain st where st: "r = Inr st" using assms(1) by (cases r) (auto simp: run)
  then have "w' = count_event DeploysApplied (w\<lparr>w_kube := k1\<rparr>)" "v = buildDeploymentVW sv app st w'"
    using assms(1) by (auto simp: run)
  with au inp app img dep st show thesis by (intro that) simp_all
qed


section \<open>A deleted application\<close>

text \<open>A deletion that does not succeed leaves the cluster alone, or is what \<^verbatim>\<open>Undeploy\<close> answered.\<close>

lemma delete_failed_kube:
  assumes "deleteApplication sv au i w = (r, w')" "r \<noteq> NoContent" "db_inv (w_store w)" "sv_store sv = sqlite_ops"
  shows "w_kube w' = w_kube w \<or>
    (\<exists>name err. deploy_Undeploy (sv_kube sv) (sv_deployer sv) name (w_kube w) = (Inl err, w_kube w'))"
proof (cases "au \<and> is_ok (loadApplication sv i w)")
  case False
  with assms(1) show ?thesis
    by (cases au; cases "loadApplication sv i w") (auto simp: deleteApplication_def)
next
  case True
  then obtain app where in_: "au" "loadApplication sv i w = Inr app" by (auto simp: is_ok_iff)
  note app = sq.has_app_load [OF assms(3,4) in_(2)]
  obtain s1 where del: "sq_DeleteApplication defaultTenant i (w_store w) = (Inr (), s1)"
    using sq.delete_app [OF assms(3) app(4)] by (metis prod.collapse sqlite_ops_simps)
  obtain u k1 where un: "deploy_Undeploy (sv_kube sv) (sv_deployer sv) (a_Name app) (w_kube w) = (u, k1)"
    by fastforce
  have "w_kube w' = w_kube w \<or> (\<exists>err. u = Inl err \<and> w_kube w' = k1)"
    using assms(1,2)
    by (auto simp: deleteApplication_def in_ assms(4) app(3) del store_do_def kube_do_def un
        split: if_splits sum.splits)
  with un show ?thesis by blast
qed


section \<open>A build that succeeds\<close>

lemma store_size_simps [simp]:
  "w_kube (store_size S K cfg i w) = w_kube w" "w_watchers (store_size S K cfg i w) = w_watchers w"
  by (simp_all add: store_size_def split: option.split)

abbreviation build_deployment :: "watcher \<Rightarrow> deploy_request" where
  "build_deployment wt \<equiv> \<lparr>dr_App = wt_App wt, dr_Image = wt_ImageRef wt, dr_Replicas = 1\<rparr>"

text \<open>The watcher marks its build failed, or it is for the worker pool, or the deployment succeeded.\<close>

lemma watch_outcome_kube:
  obtains msg s1 where "w_store (watch_outcome S Q K cfg now wt polled w) =
      snd (UpdateBuildStatus S (wt_BuildID wt) BuildFailed msg (Some now) s1)"
      "s1 = w_store w \<or> s1 = w_store (store_size S K cfg (wt_BuildID wt) w)"
  | "a_Runtime (wt_App wt) = RuntimeWorkerPool"
  | st where "deploy_Deploy Q K (bc_Deployer cfg) (build_deployment wt) (w_kube w) =
      (Inr st, w_kube (watch_outcome S Q K cfg now wt polled w))"
proof -
  obtain r k1 where dep: "deploy_Deploy Q K (bc_Deployer cfg) (build_deployment wt) (w_kube w) = (r, k1)" by fastforce
  note run = watch_outcome_def finish_def recordFinish_def Let_def kube_do_def dep
  consider e where "polled = Inl e" | job where "polled = Inr job" "js_Failed job > 0"
    | "a_Runtime (wt_App wt) = RuntimeWorkerPool"
    | job e where "polled = Inr job" "\<not> js_Failed job > 0" "a_Runtime (wt_App wt) \<noteq> RuntimeWorkerPool" "r = Inl e"
    | job st where "polled = Inr job" "\<not> js_Failed job > 0" "a_Runtime (wt_App wt) \<noteq> RuntimeWorkerPool" "r = Inr st"
    by (cases polled; cases r) auto
  then show thesis
  proof cases
    case 1 then show ?thesis by (intro that(1) [of _ "w_store w"]) (simp_all add: run)
  next
    case 2 then show ?thesis by (intro that(1) [of _ "w_store w"]) (simp_all add: run)
  next
    case 3 then show ?thesis by (rule that(2))
  next
    case 4 then show ?thesis
      by (intro that(1) [of _ "w_store (store_size S K cfg (wt_BuildID wt) w)"]) (simp_all add: run)
  next
    case (5 job st)
    then have "w_kube (watch_outcome S Q K cfg now wt polled w) = k1"
      by (simp add: run store_do_def split: prod.split)
    with dep 5(4) show ?thesis by (intro that(3) [of st]) simp
  qed
qed

text \<open>Each watcher has the image and the application of the row it watches.\<close>

definition same_target :: "watcher \<Rightarrow> build \<Rightarrow> bool" where
  "same_target wt b \<longleftrightarrow> b_ImageRef b = wt_ImageRef wt \<and> b_ApplicationID b = a_ID (wt_App wt)"

definition targets_inv :: "(string \<rightharpoonup> build) \<Rightarrow> watcher list \<Rightarrow> bool" where
  "targets_inv B ws \<longleftrightarrow> (\<forall>wt \<in> set ws. \<forall>b. B (wt_BuildID wt) = Some b \<longrightarrow> same_target wt b)"

text \<open>Rows keep what the watchers know of them, and no row appears.\<close>

definition rows_from :: "(string \<rightharpoonup> build) \<Rightarrow> (string \<rightharpoonup> build) \<Rightarrow> bool" where
  "rows_from B B' \<longleftrightarrow> (\<forall>i b'. B' i = Some b' \<longrightarrow>
     (\<exists>b. B i = Some b \<and> b_ImageRef b' = b_ImageRef b \<and> b_ApplicationID b' = b_ApplicationID b))"

lemma rows_from_refl [simp]: "rows_from B B"
  by (simp add: rows_from_def)

lemma rows_from_trans: "rows_from A B \<Longrightarrow> rows_from B C \<Longrightarrow> rows_from A C"
  unfolding rows_from_def by metis

lemma rows_from_map:
  "(\<And>b. b_ImageRef (g b) = b_ImageRef b \<and> b_ApplicationID (g b) = b_ApplicationID b) \<Longrightarrow>
   rows_from B (B(i := map_option g (B i)))"
  by (auto simp: rows_from_def)

lemma targets_inv_from:
  assumes "targets_inv B ws" "rows_from B B'"
    "\<And>wt'. wt' \<in> set ws' \<Longrightarrow> \<exists>wt \<in> set ws. wt_BuildID wt' = wt_BuildID wt \<and> wt_App wt' = wt_App wt \<and>
       wt_ImageRef wt' = wt_ImageRef wt"
  shows "targets_inv B' ws'"
  using assms unfolding targets_inv_def rows_from_def same_target_def by metis

lemma targets_inv_new:
  assumes "targets_inv B ws" "i \<notin> wt_BuildID ` set ws"
  shows "targets_inv (B(i \<mapsto> b)) ws"
    "wt_BuildID wt = i \<Longrightarrow> same_target wt b \<Longrightarrow> targets_inv (B(i \<mapsto> b)) (ws @ [wt])"
  using assms by (auto simp: targets_inv_def image_iff)

context store_contract begin

lemma update_rows_from:
  assumes "inv s"
  shows "rows_from (A_blds (abs s)) (A_blds (abs (snd (UpdateBuildStatus S i st e fin s))))"
    "rows_from (A_blds (abs s)) (A_blds (abs (snd (UpdateBuildImageSize S i n s))))"
  using update_status [OF assms, of i st e fin] update_size [OF assms, of i n] by (simp_all add: rows_from_map)

lemma watch_outcome_rows_from:
  assumes "inv (w_store w)"
  shows "rows_from (A_blds (abs (w_store w))) (A_blds (abs (w_store (watch_outcome S Q K cfg now wt polled w))))"
proof (rule watch_outcome_cases [of w S wt Q K cfg now polled])
  fix s1 st msg
  assume s1: "s1 = w_store w \<or> (\<exists>n. s1 = snd (UpdateBuildImageSize S (wt_BuildID wt) n (w_store w)))"
    and o: "w_store (watch_outcome S Q K cfg now wt polled w) =
       snd (UpdateBuildStatus S (wt_BuildID wt) st msg (Some now) s1)"
  have "inv s1 \<and> rows_from (A_blds (abs (w_store w))) (A_blds (abs s1))"
    using s1 assms update_size [OF assms] update_rows_from(2) [OF assms] by auto
  then show ?thesis using o update_rows_from(1) [of s1] rows_from_trans by metis
qed

end

context store_contract begin

lemma Start_targets:
  assumes "inv (w_store w)" "targets_inv (A_blds (abs (w_store w))) (w_watchers w)"
    "newID uuid \<notin> wt_BuildID ` set (w_watchers w)"
  shows "targets_inv (A_blds (abs (w_store (snd (Start S K cfg now uuid app fns w)))))
    (w_watchers (snd (Start S K cfg now uuid app fns w)))"
proof -
  let ?B = "A_blds (abs (w_store w))" and ?w' = "snd (Start S K cfg now uuid app fns w)"
  let ?b = "\<lambda>ref. stored_build now (new_build (newID uuid) (a_ID app) ref now)"
  have created: "inv s1 \<and> A_blds (abs s1) = ?B(newID uuid \<mapsto> ?b ref)"
    if "CreateBuild S now (new_build (newID uuid) (a_ID app) ref now) (w_store w) = (Inr (), s1)" for ref s1
    using that by (auto simp: new_build_def elim: create_build_result [OF assms(1)])
  have target: "same_target (new_watcher (newID uuid) app ref now) (?b ref)" "wt_BuildID (new_watcher (newID uuid) app ref now) = newID uuid" for ref
    by (simp_all add: same_target_def new_watcher_def new_build_def stored_build_def)
  show ?thesis
  proof (rule Start_cases [of S K cfg now uuid app fns w])
    assume "w_store ?w' = w_store w" "w_watchers ?w' = w_watchers w"
    with assms(2) show ?thesis by simp
  next
    fix ref e s1
    assume st: "CreateBuild S now (new_build (newID uuid) (a_ID app) ref now) (w_store w) = (Inl e, s1)"
      "w_store ?w' = s1" "w_watchers ?w' = w_watchers w"
    then have "s1 = w_store w" by (auto elim: create_build_result [OF assms(1)])
    with st assms(2) show ?thesis by simp
  next
    fix ref s1 msg
    assume st: "CreateBuild S now (new_build (newID uuid) (a_ID app) ref now) (w_store w) = (Inr (), s1)"
      "w_store ?w' = snd (UpdateBuildStatus S (newID uuid) BuildFailed msg (Some now) s1)"
      "w_watchers ?w' = w_watchers w"
    note c = created [OF st(1)]
    show ?thesis unfolding st(2,3)
      by (rule targets_inv_from [OF _ update_rows_from(1)]) (use c targets_inv_new(1) [OF assms(2,3)] in auto)
  next
    fix ref s1
    assume st: "CreateBuild S now (new_build (newID uuid) (a_ID app) ref now) (w_store w) = (Inr (), s1)"
      "w_store ?w' = s1" "w_watchers ?w' = w_watchers w @ [new_watcher (newID uuid) app ref now]"
    with created [OF st(1)] targets_inv_new(2) [OF assms(2,3) target(2,1)] show ?thesis by simp
  qed
qed

lemma process_step_targets:
  assumes "process_step sv w w'" "inv (w_store w)" "targets_inv (A_blds (abs (w_store w))) (w_watchers w)"
    "sv_store sv = S"
  shows "targets_inv (A_blds (abs (w_store w'))) (w_watchers w')"
  using assms(1)
proof cases
  case (proc_call c)
  have "rows_from (A_blds (abs (w_store w))) (A_blds (abs (snd (exec_call S c (w_store w)))))"
    using other_call_builds [OF assms(2) touches_call_ok [OF proc_call(2)]] by (auto simp: rows_from_def)
  then show ?thesis
    using targets_inv_from [OF assms(3), of _ "w_watchers w"] by (auto simp: proc_call(1) assms(4))
next
  case (proc_start uuid now app fns)
  then show ?thesis using Start_targets [OF assms(2,3)] by (simp add: assms(4))
next
  case (proc_begin n)
  have "wt' \<in> set (w_watchers w) \<or> wt' = (w_watchers w ! n)\<lparr>wt_Polling := True\<rparr>"
    if "wt' \<in> set ((w_watchers w)[n := (w_watchers w ! n)\<lparr>wt_Polling := True\<rparr>])" for wt'
    using set_update_subset_insert that by fast
  then have "\<exists>wt \<in> set (w_watchers w). wt_BuildID wt' = wt_BuildID wt \<and> wt_App wt' = wt_App wt \<and> wt_ImageRef wt' = wt_ImageRef wt"
    if "wt' \<in> set (w_watchers w')" for wt'
    using that proc_begin by (fastforce simp: begin_at_def Let_def)
  then show ?thesis
    using targets_inv_from [OF assms(3), of "A_blds (abs (w_store w'))"] update_rows_from(1) [OF assms(2)]
    by (simp add: proc_begin(1) begin_at_def Let_def watch_begin_def assms(4))
next
  case (proc_end n now polled)
  have sub: "set (w_watchers w') \<subseteq> set (w_watchers w)"
    using set_take_subset set_drop_subset by (fastforce simp: proc_end(1) end_at_def Let_def)
  have "rows_from (A_blds (abs (w_store w))) (A_blds (abs (w_store w')))"
    using watch_outcome_rows_from [OF assms(2)] by (simp add: proc_end(1) end_at_def Let_def assms(4))
  from targets_inv_from [OF assms(3) this] sub show ?thesis by blast
qed (use assms(3) in simp_all)

end

lemma reachable_targets:
  assumes "rtranclp (process_step sv) (fresh_process k) w" "sv_store sv = sqlite_ops"
  shows "targets_inv (A_blds (abs_db (w_store w))) (w_watchers w)"
  using assms(1)
proof (induction rule: rtranclp_induct)
  case base
  show ?case by (simp add: fresh_process_def targets_inv_def)
next
  case (step w w')
  have "db_inv (w_store w)" using process_inv_rows(1) [OF process_reachable [OF step.hyps(1) assms(2)]] .
  then show ?case by (rule sq.process_step_targets [OF step.hyps(2) _ step.IH assms(2)])
qed

context store_contract begin

lemma watch_outcome_others:
  assumes "inv (w_store w)" "i \<noteq> wt_BuildID wt"
  shows "A_blds (abs (w_store (watch_outcome S Q K cfg now wt polled w))) i = A_blds (abs (w_store w)) i"
proof (rule watch_outcome_cases [of w S wt Q K cfg now polled])
  fix s1 st msg
  assume s1: "s1 = w_store w \<or> (\<exists>n. s1 = snd (UpdateBuildImageSize S (wt_BuildID wt) n (w_store w)))"
    and o: "w_store (watch_outcome S Q K cfg now wt polled w) =
       snd (UpdateBuildStatus S (wt_BuildID wt) st msg (Some now) s1)"
  have "inv s1 \<and> A_blds (abs s1) i = A_blds (abs (w_store w)) i"
    using s1 assms update_size [OF assms(1), of "wt_BuildID wt"] by auto
  then show ?thesis using o update_status [of s1 "wt_BuildID wt" st msg "Some now"] assms(2) by simp
qed

text \<open>Only the end of a watcher makes a build succeed.\<close>

lemma process_step_succeeds:
  assumes "process_step sv w w'" "inv (w_store w)" "sv_store sv = S"
    "A_blds (abs (w_store w')) i = Some b'" "b_Status b' = BuildSucceeded" "A_blds (abs (w_store w)) i \<noteq> Some b'"
  obtains n now polled where "n < length (w_watchers w)" "wt_BuildID (w_watchers w ! n) = i"
    "w' = end_at S (sv_quantity sv) (sv_kube sv) (sv_builder sv) now n polled w"
  using assms(1)
proof cases
  case (proc_call c)
  then show thesis
    using other_call_builds [OF assms(2) touches_call_ok [OF proc_call(2)]] assms(3,4,6) by simp
next
  case (proc_start uuid now app fns)
  let ?B = "A_blds (abs (w_store w))"
  have created: "inv s1 \<and> A_blds (abs s1) =
      ?B(newID uuid \<mapsto> stored_build now (new_build (newID uuid) (a_ID app) ref now))"
    if "CreateBuild S now (new_build (newID uuid) (a_ID app) ref now) (w_store w) = (Inr (), s1)" for ref s1
    using that by (auto simp: new_build_def elim: create_build_result [OF assms(2)])
  have refused: "s1 = w_store w"
    if "CreateBuild S now (new_build (newID uuid) (a_ID app) ref now) (w_store w) = (Inl e, s1)" for ref s1 e
    using that by (auto elim: create_build_result [OF assms(2)])
  have pending: "b_Status (stored_build now (new_build (newID uuid) (a_ID app) ref now)) = BuildPending" for ref
    by (simp add: stored_build_def new_build_def)
  show thesis
  proof (rule Start_cases [of S "sv_kube sv" "sv_builder sv" now uuid app fns w], goal_cases)
    case 1 with proc_start assms show ?thesis by simp
  next
    case (2 ref e s1) with proc_start assms refused [OF 2(1)] show ?thesis by simp
  next
    case (3 ref s1 msg)
    with proc_start assms(3-6) created [OF 3(1)] update_status [of s1 "newID uuid" BuildFailed msg "Some now"]
    show ?thesis by (auto split: if_splits)
  next
    case (4 ref s1) with proc_start assms(3-6) created [OF 4(1)] pending show ?thesis by (auto split: if_splits)
  qed
next
  case (proc_begin n)
  then show thesis
    using assms(3-6) update_status [OF assms(2), of "wt_BuildID (w_watchers w ! n)" BuildRunning "[]" None]
    by (auto simp: begin_at_def Let_def watch_begin_def split: if_splits)
next
  case (proc_end n now polled)
  have "wt_BuildID (w_watchers w ! n) = i"
  proof (rule ccontr)
    assume "wt_BuildID (w_watchers w ! n) \<noteq> i"
    then have "i \<noteq> wt_BuildID (w_watchers w ! n)" by simp
    note watch_outcome_others [OF assms(2) this, of "sv_quantity sv" "sv_kube sv" "sv_builder sv" now polled]
    with assms(4,6) show False by (simp add: proc_end(1) end_at_def Let_def assms(3))
  qed
  with that proc_end assms(3) show thesis by simp
qed (use assms(4,6) in simp_all)

end

text \<open>
  C9: A build that succeeds is deployed. From a reachable state, whatever the step of the process: when
  a build comes to be succeeded, its watcher was there, with the build's application and image, and,
  unless that application is served by the worker pool, the cluster now has a SpinApp of the
  application's name with exactly the build's image and one replica, and no other object but that and
  its VirtualService has changed.
\<close>

theorem successful_build_deployed:
  assumes "accessor_laws (sv_kube sv)" "apply_laws (sv_kube sv)"
    "rtranclp (process_step sv) (fresh_process k) w" "sv_store sv = sqlite_ops" "process_step sv w w'"
    "b \<in> set (t_builds (w_store w'))" "b_Status b = BuildSucceeded" "b \<notin> set (t_builds (w_store w))"
  shows "\<exists>wt \<in> set (w_watchers w). wt_BuildID wt = b_ID b \<and> wt_ImageRef wt = b_ImageRef b \<and>
    a_ID (wt_App wt) = b_ApplicationID b \<and>
    (a_Runtime (wt_App wt) = RuntimeWorkerPool \<or>
     (\<exists>obj. ka_Get (sv_kube sv) spinapps (dp_spin_ns (bc_Deployer (sv_builder sv))) (a_Name (wt_App wt)) (w_kube w') = Inr obj \<and>
        ka_NestedString (sv_kube sv) obj [''spec'', ''image''] = Some (b_ImageRef b) \<and>
        ka_NestedInt64 (sv_kube sv) obj [''spec'', ''replicas''] = Some 1 \<and>
        only_app_objects (sv_kube sv) (a_Name (wt_App wt)) (w_kube w) (w_kube w')))"
proof -
  have db: "db_inv (w_store w)" "db_inv (w_store w')"
    using process_inv_rows(1) process_reachable assms(3-5) by (metis rtranclp.rtrancl_into_rtrancl)+
  have row': "A_blds (abs_db (w_store w')) (b_ID b) = Some b"
    using by_key_in [OF db_invD(5) [OF db(2)] assms(6)] by simp
  have "A_blds (abs_db (w_store w)) (b_ID b) \<noteq> Some b"
    using assms(8) by (auto simp: by_key_iff [OF db_invD(5) [OF db(1)]])
  from sq.process_step_succeeds [OF assms(5) db(1) assms(4) row' assms(7) this]
  obtain n now polled where n: "n < length (w_watchers w)" "wt_BuildID (w_watchers w ! n) = b_ID b"
    and w': "w' = end_at sqlite_ops (sv_quantity sv) (sv_kube sv) (sv_builder sv) now n polled w" by blast
  define wt where "wt = w_watchers w ! n"
  have wt: "wt \<in> set (w_watchers w)" "wt_BuildID wt = b_ID b" using n by (simp_all add: wt_def)
  let ?o = "watch_outcome sqlite_ops (sv_quantity sv) (sv_kube sv) (sv_builder sv) now wt polled w"
  have o: "w_store w' = w_store ?o" "w_kube w' = w_kube ?o" by (simp_all add: w' end_at_def Let_def wt_def)
  obtain b0 where b0: "A_blds (abs_db (w_store w)) (b_ID b) = Some b0" "b_ImageRef b = b_ImageRef b0"
    "b_ApplicationID b = b_ApplicationID b0"
    using sq.watch_outcome_rows_from [OF db(1)] row' unfolding rows_from_def o(1) by metis
  have target: "wt_ImageRef wt = b_ImageRef b" "a_ID (wt_App wt) = b_ApplicationID b"
    using reachable_targets [OF assms(3,4)] wt b0 by (auto simp: targets_inv_def same_target_def simp del: abs_db_simps)
  show ?thesis
  proof (rule watch_outcome_kube [of sqlite_ops "sv_quantity sv" "sv_kube sv" "sv_builder sv" now wt polled w])
    fix msg s1
    assume f: "w_store ?o = snd (UpdateBuildStatus sqlite_ops (wt_BuildID wt) BuildFailed msg (Some now) s1)"
      "s1 = w_store w \<or> s1 = w_store (store_size sqlite_ops (sv_kube sv) (sv_builder sv) (wt_BuildID wt) w)"
    have "db_inv s1"
      using f(2) db(1) sq.update_size [OF db(1)] by (auto simp: store_size_def split: option.splits)
    with sq.update_status [of s1 "wt_BuildID wt" BuildFailed msg "Some now"] f(1) row' assms(7) wt(2)
    have False by (auto simp: o(1) simp del: abs_db_simps sqlite_ops_simps)
    then show ?thesis ..
  next
    assume "a_Runtime (wt_App wt) = RuntimeWorkerPool"
    with wt target show ?thesis by blast
  next
    fix st
    assume dep: "deploy_Deploy (sv_quantity sv) (sv_kube sv) (bc_Deployer (sv_builder sv)) (build_deployment wt)
      (w_kube w) = (Inr st, w_kube ?o)"
    from deploy_publishes [OF assms(1,2) dep] wt target show ?thesis
      by (intro bexI [OF _ wt(1)]) (auto simp: o(2) wanted_replicas_def)
  qed
qed

section \<open>Objects that outlive their application\<close>

lemma watch_outcome_success:
  assumes "\<not> js_Failed job > 0" "a_Runtime (wt_App wt) \<noteq> RuntimeWorkerPool"
    "deploy_Deploy Q K (bc_Deployer cfg) (build_deployment wt) (w_kube w) = (Inr st, k')"
  shows "w_kube (watch_outcome S Q K cfg now wt (Inr job) w) = k'"
  using assms by (simp add: watch_outcome_def finish_def recordFinish_def Let_def kube_do_def store_do_def split: prod.split)

text \<open>
  C18: A deletion does not stop a build. When an application is deleted while a watcher of one of its
  builds polls, and the Job then ends well and its deployment is accepted, the step of the watcher,
  which is one the process can take, puts a SpinApp of the deleted application's name and image into
  the cluster, while the API answers 404 for the application: the object has outlived its row.
\<close>

theorem deleted_application_redeployed:
  assumes "accessor_laws (sv_kube sv)" "apply_laws (sv_kube sv)"
    "rtranclp (process_step sv) (fresh_process k) w" "sv_store sv = sqlite_ops"
    "deleteApplication sv au i w = (NoContent, w1)"
    "n < length (w_watchers w)" "wt = w_watchers w ! n" "a_ID (wt_App wt) = i" "wt_Polling wt"
    "a_Runtime (wt_App wt) \<noteq> RuntimeWorkerPool" "js_Failed job \<le> 0"
    "deploy_Deploy (sv_quantity sv) (sv_kube sv) (bc_Deployer (sv_builder sv)) (build_deployment wt) (w_kube w1) = (Inr st, k')"
    "w2 = end_at sqlite_ops (sv_quantity sv) (sv_kube sv) (sv_builder sv) now n (Inr job) w1"
  shows "process_step sv w1 w2 \<and>
    fst (getApplication sv True i w2) = HttpError 404 ''application not found'' \<and>
    (\<exists>obj. ka_Get (sv_kube sv) spinapps (dp_spin_ns (bc_Deployer (sv_builder sv))) (a_Name (wt_App wt)) (w_kube w2) = Inr obj \<and>
       ka_NestedString (sv_kube sv) obj [''spec'', ''image''] = Some (wt_ImageRef wt) \<and>
       ka_NestedString (sv_kube sv) obj [''metadata'', ''labels'', labelApplicationID] = Some i)"
proof -
  have db: "db_inv (w_store w)" using process_inv_rows(1) [OF process_reachable [OF assms(3,4)]] .
  note eff = sq.deleteApplication_effect [OF db assms(4,5)]
  then have ws: "w_watchers w1 = w_watchers w" and db1: "db_inv (w_store w1)" by simp_all
  have gone: "A_apps (abs_db (w_store w1)) i = None"
    using eff by (auto simp: remove_app_def simp del: abs_db_simps)
  let ?o = "watch_outcome sqlite_ops (sv_quantity sv) (sv_kube sv) (sv_builder sv) now wt (Inr job) w1"
  have w2: "w_store w2 = w_store ?o" "w_kube w2 = w_kube ?o" by (simp_all add: assms(7,13) end_at_def Let_def ws)
  have step: "process_step sv w1 w2"
    using proc_end [of n w1 sv now "Inr job"] assms(4,6,7,9,13) ws by simp
  have "rtranclp (process_step sv) w w1"
    using deleteApplication_runs [of sv w au i] by (simp add: runs_def assms(5))
  then have "rtranclp (process_step sv) (fresh_process k) w1" by (rule rtranclp_trans [OF assms(3)])
  note reach2 = rtranclp.rtrancl_into_rtrancl [OF this step]
  have db2: "db_inv (w_store w2)" by (rule process_inv_rows(1) [OF process_reachable [OF reach2 assms(4)]])
  have "A_apps (abs_db (w_store w2)) i = None"
    using gone sq.watch_outcome_same_rows [OF db1, of "sv_quantity sv" "sv_kube sv" "sv_builder sv" now wt "Inr job"]
    by (simp add: same_rows_def w2 del: abs_db_simps)
  then have "loadApplication sv i w2 = Inl (HttpError 404 ''application not found'')"
    using sq.loadApplication_contract [of w2 sv i] db2 assms(4) by (simp add: has_app_def del: abs_db_simps)
  then have "fst (getApplication sv True i w2) = HttpError 404 ''application not found''"
    by (simp add: getApplication_def)
  moreover have "w_kube w2 = k'"
    using watch_outcome_success [OF _ assms(10,12)] assms(11) by (simp add: w2)
  ultimately show ?thesis
    using step deploy_publishes [OF assms(1,2,12)] assms(8) by auto
qed

text \<open>
  The worker pool is served without a SpinApp, but a deployment request does not look at the runtime
  (the API reference says \<^verbatim>\<open>spinkube only\<close>): it creates one, which a deletion then leaves behind.
\<close>

lemma worker_pool_deploy_leaks:
  assumes "accessor_laws (sv_kube sv)" "apply_laws (sv_kube sv)" "sv_store sv = sqlite_ops" "db_inv (w_store w)"
    "sv_spin_ns sv = dp_spin_ns (sv_deployer sv)"
    "loadApplication sv i w = Inr app" "a_Runtime app = RuntimeWorkerPool"
    "deployApplication sv au i (Some inp) w = (DeploymentView v, w1)"
    "deleteApplication sv au i w1 = (NoContent, w2)"
  shows "\<exists>obj. ka_Get (sv_kube sv) spinapps (sv_spin_ns sv) (a_Name app) (w_kube w2) = Inr obj \<and>
    ka_NestedString (sv_kube sv) obj [''spec'', ''image''] = Some (di_Image inp)"
proof (rule deploy_ok_cases [OF assms(8,3)])
  fix inp' app' st
  assume "Some inp = Some inp'" "loadApplication sv i w = Inr app'"
    and dep: "deploy_Deploy (sv_quantity sv) (sv_kube sv) (sv_deployer sv)
       \<lparr>dr_App = app', dr_Image = di_Image inp', dr_Replicas = max 1 (di_Replicas inp')\<rparr> (w_kube w) = (Inr st, w_kube w1)"
    and w1: "w1 = count_event DeploysApplied (w\<lparr>w_kube := w_kube w1\<rparr>)"
  then have eq: "inp' = inp" "app' = app" using assms(6) by simp_all
  have st: "w_store w1 = w_store w" by (subst w1) simp
  have "A_apps (abs_db (w_store w)) i = Some app" by (rule sq.has_app_load(1) [OF assms(4,3,6)])
  then have "w_kube w2 = w_kube w1"
    using sq.deleteApplication_effect [of w1 sv au i NoContent w2] assms(3,4,7,9) st
    by (auto simp del: abs_db_simps)
  with deploy_publishes [OF assms(1,2) dep] assms(5) show ?thesis by (auto simp: eq)
qed

section \<open>Updates that meet\<close>

text \<open>
  A PATCH reads the row, and writes all the columns back that it did not change. What follows its
  reading, as a step of its own:
\<close>

definition update_commit ::
  "('s, 'k, 'q) server \<Rightarrow> req_env \<Rightarrow> application \<Rightarrow> update_application_input \<Rightarrow>
   string \<times> int \<times> variable list \<times> resources \<Rightarrow> ('s, 'k) world \<Rightarrow> api_reply \<times> ('s, 'k) world" where
  "update_commit sv e app inp c w =
     (case c of (desc, replicas, vars, res) \<Rightarrow>
        (case store_do (UpdateApplicationConfig (sv_store sv) (e_now e) defaultTenant (a_ID app)
                          desc replicas vars res) w of
           (Inl err, w1) \<Rightarrow> (HttpError 500 ''internal error'', w1)
         | (Inr _, w1) \<Rightarrow>
             let app' = app\<lparr>a_Description := desc, a_Replicas := replicas, a_Variables := vars,
                            a_Resources := res\<rparr>;
                 w2 = reconcile sv app' inp w1;
                 fns = (case ListFunctions (sv_store sv) (a_ID app') (w_store w2) of
                          Inl _ \<Rightarrow> [] | Inr fs \<Rightarrow> fs)
             in (OneApp 200 (toApplicationDTO app' (map toFunctionDTO fns) None), w2)))"

lemma updateApplication_commit:
  "updateApplication sv e au appId body w =
     guarded au w (or_reply (loadApplication sv appId w) w (\<lambda>app.
       or_reply (decoded body) w (\<lambda>inp.
       or_reply (patched_config sv app inp) w (\<lambda>c. update_commit sv e app inp c w))))"
  by (simp add: updateApplication_def update_commit_def case_prod_unfold)

context store_contract begin

lemma update_commit_row:
  assumes "inv (w_store w)" "sv_store sv = S" "A_apps (abs (w_store w)) (a_ID app) = Some row"
    "a_TenantID row = defaultTenant"
  shows "inv (w_store (snd (update_commit sv e app inp (desc, n, vs, res) w)))"
    "A_apps (abs (w_store (snd (update_commit sv e app inp (desc, n, vs, res) w)))) (a_ID app) =
       Some (configured (e_now e) desc n vs res row)"
proof -
  obtain s1 where "UpdateApplicationConfig S (e_now e) defaultTenant (a_ID app) desc n vs res (w_store w) = (Inr (), s1)"
    "inv s1" "abs s1 = (abs (w_store w))\<lparr>A_apps :=
      (A_apps (abs (w_store w)))(a_ID app \<mapsto> configured (e_now e) desc n vs res row)\<rparr>"
    using update_app [OF assms(1,3,4), of "e_now e" desc n vs res] by (metis prod.collapse)
  then show "inv (w_store (snd (update_commit sv e app inp (desc, n, vs, res) w)))"
    "A_apps (abs (w_store (snd (update_commit sv e app inp (desc, n, vs, res) w)))) (a_ID app) =
       Some (configured (e_now e) desc n vs res row)"
    by (simp_all add: update_commit_def assms(2) store_do_def Let_def)
qed

end

text \<open>
  Two updates that have both read the row before either writes: the one that writes last undoes what
  the other changed and it did not, here the description; both are answered with 200.
\<close>

lemma concurrent_updates_lose:
  assumes "db_inv (w_store w)" "sv_store sv = sqlite_ops" "loadApplication sv i w = Inr app"
    "patched_config sv app inp1 = Inr c1" "patched_config sv app inp2 = Inr c2" "ua_Description inp2 = None"
    "w1 = snd (update_commit sv e1 app inp1 c1 w)" "w2 = snd (update_commit sv e2 app inp2 c2 w1)"
  shows "\<exists>row. A_apps (abs_db (w_store w2)) i = Some row \<and> a_Description row = a_Description app"
proof -
  note app = sq.has_app_load [OF assms(1-3)]
  obtain d1 n1 v1 r1 where c1: "c1 = (d1, n1, v1, r1)" by (cases c1) auto
  obtain n2 v2 r2 where c2: "c2 = (a_Description app, n2, v2, r2)"
    using assms(5,6) by (auto simp: patched_config_def Let_def split: if_splits sum.splits)
  have row: "A_apps (abs_db (w_store w)) (a_ID app) = Some app" using app(1,3) by simp
  note one = sq.update_commit_row [OF assms(1,2) row app(2), of e1 inp1 d1 n1 v1 r1]
  have "a_TenantID (configured (e_now e1) d1 n1 v1 r1 app) = defaultTenant" using app(2) by simp
  from sq.update_commit_row(2) [OF one(1) assms(2) one(2) this, of e2 inp2 "a_Description app" n2 v2 r2]
  show ?thesis
    by (simp add: assms(7,8) c1 c2 app(3) configured_def del: abs_db_simps)
qed

section \<open>Examples\<close>

lemma mem_deploy: "\<exists>st k'. deploy_Deploy Q mem_kube d req k = (Inr st, k')"
  by (simp add: deploy_Deploy_def spin_Apply_def mem_kube_def Let_def split: option.split)

lemma mem_undeploy: "\<exists>k'. deploy_Undeploy mem_kube d n k = (Inr (), k')"
  by (simp add: deploy_Undeploy_def spin_Delete_def mem_kube_def IsNotFound_def split: option.split)

lemma open_server_deployer:
  "sv_deployer open_server = example_deployer" "sv_spin_ns open_server = dp_spin_ns example_deployer"
  by (simp_all add: open_server_def example_deployer_def)

lemma create_on_empty:
  assumes "sv_store sv = sqlite_ops" "w_store w = empty_db" "check_create inp = Inr rt"
  shows "\<exists>w'. createApplication sv e True (Some inp) w =
    (OneApp 201 (created_dto (new_application (e_uuid e) inp rt) (default_function (e_uuid2 e) (e_uuid e))), w')"
proof -
  have app: "sq_CreateApplication now a empty_db = (Inr (), empty_db\<lparr>t_applications := [stored_app now a]\<rparr>)" for now a
    by (simp add: sq_CreateApplication_def empty_db_def stored_app_def Let_def)
  have "\<exists>d. sq_CreateFunction now f (empty_db\<lparr>t_applications := [a]\<rparr>) = (Inr (), d)"
    if "f_ApplicationID f = a_ID a" for now f and a :: application
    using that by (simp add: sq_CreateFunction_def empty_db_def app_exists_def Let_def)
  then obtain d where "sq_CreateFunction (e_now e) (default_function (e_uuid2 e) (e_uuid e))
      (empty_db\<lparr>t_applications := [stored_app (e_now e) (new_application (e_uuid e) inp rt)]\<rparr>) = (Inr (), d)"
    by (metis default_function_def func.select_convs(2) new_application_def application.select_convs(1) stored_app_simps(1))
  moreover have "a_ID (new_application (e_uuid e) inp rt) = e_uuid e" by (simp add: new_application_def)
  ultimately show ?thesis by (simp add: createApplication_def assms store_do_def app Let_def)
qed

theorem created_application_reads_back_witness:
  "\<exists>a w' dep. createApplication open_server example_env True (in_app example_payload) (fresh_process empty_cluster) =
       (OneApp 201 a, w') \<and> ad_Name a = ''hi'' \<and>
     getApplication open_server True (ad_ID a) w' = (OneApp 200 (a\<lparr>ad_Replicas := 1, ad_Deployment := dep\<rparr>), w')"
proof -
  obtain inp where inp: "in_app example_payload = Some inp" "check_create inp = Inr RuntimeSpinKube" "ca_Name inp = ''hi''"
    by (simp add: example_payload_def check_create_def dns1123_def lower_alnum_def
        less_eq_char_def is_digit_def supported_languages_def)
  obtain w' where c: "createApplication open_server example_env True (Some inp) (fresh_process empty_cluster) =
      (OneApp 201 (created_dto (new_application (e_uuid example_env) inp RuntimeSpinKube)
         (default_function (e_uuid2 example_env) (e_uuid example_env))), w')"
    using create_on_empty [of open_server "fresh_process empty_cluster" inp RuntimeSpinKube example_env] inp
    by (auto simp: fresh_process_def)
  have "ad_Name (created_dto (new_application i inp rt) f) = ''hi''" for i rt f
    by (simp add: created_dto_def new_application_def inp(3))
  with created_application_reads_back [OF rtranclp.rtrancl_refl open_server_simps(1) c] c show ?thesis
    unfolding inp(1) by blast
qed

lemma journey_load:
  assumes "t_applications (w_store w) = [stored_app 1 example_app]"
  shows "loadApplication open_server ''a1'' w = Inr (stored_app 1 example_app)"
  using assms by (simp add: sq_loadApplication) (simp add: example_app_def defaultTenant_def)


lemma example_delete:
  assumes "t_applications (w_store w) = [stored_app 1 example_app]"
  shows "\<exists>w'. deleteApplication open_server True ''a1'' w = (NoContent, w')"
proof -
  have app: "a_Runtime (stored_app 1 example_app) \<noteq> RuntimeWorkerPool" "a_ID (stored_app 1 example_app) = ''a1''"
    "a_TenantID (stored_app 1 example_app) = defaultTenant"
    by (simp_all add: stored_app_def example_app_def runtime_defs defaultTenant_def)
  obtain k' where un: "deploy_Undeploy mem_kube example_deployer (a_Name (stored_app 1 example_app)) (w_kube w) = (Inr (), k')"
    using mem_undeploy by blast
  obtain d where del: "sq_DeleteApplication defaultTenant ''a1'' (w_store w) = (Inr (), d)"
    using app(2,3) by (simp add: sq_DeleteApplication_def affected_def assms Let_def)
  show ?thesis
    by (simp add: deleteApplication_def journey_load [OF assms] app(1,2) kube_do_def open_server_deployer un
        store_do_def del del: stored_app_simps)
qed


definition example_done :: job_status where
  "example_done = \<lparr>js_Succeeded = 1, js_Failed = 0, js_Conditions = []\<rparr>"

lemma example_w3_facts:
  "w_watchers example_w3 = [(new_watcher ''b1'' example_app ''reg/hello:b1'' 5)\<lparr>wt_Polling := True\<rparr>]"
  "t_applications (w_store example_w3) = [stored_app 1 example_app]"
  "rtranclp (process_step open_server) (fresh_process empty_cluster) example_w3"
proof -
  show "w_watchers example_w3 = [(new_watcher ''b1'' example_app ''reg/hello:b1'' 5)\<lparr>wt_Polling := True\<rparr>]"
    "t_applications (w_store example_w3) = [stored_app 1 example_app]"
    by (simp_all add: example_w3_def begin_at_def Let_def watch_begin_def example_w2_facts sq_UpdateBuildStatus_def)
  have "process_step open_server example_w2 example_w3"
    using proc_begin [of 0 example_w2 open_server] by (simp add: example_w3_def example_w2_facts new_watcher_def)
  with example_process show "rtranclp (process_step open_server) (fresh_process empty_cluster) example_w3"
    by (rule rtranclp.rtrancl_into_rtrancl)
qed

lemma store_size_row:
  assumes "t_builds (w_store w) = [b]"
  shows "\<exists>b'. t_builds (w_store (store_size sqlite_ops K cfg i w)) = [b'] \<and> b_ID b' = b_ID b"
  using assms by (simp add: store_size_def sq_UpdateBuildImageSize_def update_where_def split: option.split)

lemma watch_success_row:
  assumes "t_builds (w_store w) = [b]" "b_ID b = wt_BuildID wt" "a_Runtime (wt_App wt) \<noteq> RuntimeWorkerPool"
  shows "\<exists>b'. t_builds (w_store (watch_outcome sqlite_ops Q mem_kube cfg now wt (Inr example_done) w)) = [b'] \<and>
    b_Status b' = BuildSucceeded"
proof -
  obtain st k' where dep: "deploy_Deploy Q mem_kube (bc_Deployer cfg) (build_deployment wt) (w_kube w) = (Inr st, k')"
    using mem_deploy by blast
  obtain b' where row: "t_builds (w_store (store_size sqlite_ops mem_kube cfg (wt_BuildID wt) w)) = [b']" "b_ID b' = wt_BuildID wt"
    using store_size_row [OF assms(1)] assms(2) by metis
  show ?thesis
    by (simp add: watch_outcome_def example_done_def assms(3) kube_do_def dep finish_def Let_def
        sq_UpdateBuildStatus_def update_where_def row)
qed

theorem successful_build_deployed_witness:
  "\<exists>w' b obj. process_step open_server example_w3 w' \<and> t_builds (w_store w') = [b] \<and> b_Status b = BuildSucceeded \<and>
     ka_Get mem_kube spinapps ''fns'' ''hello'' (w_kube w') = Inr obj \<and>
     ka_NestedString mem_kube obj [''spec'', ''image''] = Some (b_ImageRef b)"
proof -
  let ?w' = "end_at sqlite_ops digit_quantity mem_kube example_config 9 0 (Inr example_done) example_w3"
  let ?wt = "(new_watcher ''b1'' example_app ''reg/hello:b1'' 5)\<lparr>wt_Polling := True\<rparr>"
  have wt: "w_watchers example_w3 ! 0 = ?wt" "wt_App ?wt = example_app" "wt_BuildID ?wt = ''b1''"
    by (simp_all add: example_w3_facts new_watcher_def)
  have app: "a_Runtime example_app \<noteq> RuntimeWorkerPool" "a_Name example_app = ''hello''"
    by (simp_all add: example_app_def runtime_defs)
  have ns: "dp_spin_ns (bc_Deployer example_config) = ''fns''"
    by (simp add: example_config_def example_deployer_def)
  have step: "process_step open_server example_w3 ?w'"
    using proc_end [of 0 example_w3 open_server 9 "Inr example_done"] by (simp add: example_w3_facts)
  obtain b where b: "t_builds (w_store ?w') = [b]" "b_Status b = BuildSucceeded"
    using watch_success_row [OF example_w3_builds, where wt = ?wt and Q = digit_quantity and cfg = example_config and now = 9] app wt
    by (auto simp: end_at_def Let_def wt(1) new_build_def)
  have "b \<notin> set (t_builds (w_store example_w3))" using b(2) by (auto simp: example_w3_builds)
  from successful_build_deployed [OF _ _ example_w3_facts(3) _ step _ b(2) this] b app step wt
  show ?thesis by (auto simp: example_w3_facts(1) ns)
qed

theorem deleted_application_redeployed_witness:
  "\<exists>w1 w2 obj. deleteApplication open_server True ''a1'' example_w3 = (NoContent, w1) \<and>
     process_step open_server w1 w2 \<and>
     fst (getApplication open_server True ''a1'' w2) = HttpError 404 ''application not found'' \<and>
     ka_Get mem_kube spinapps ''fns'' ''hello'' (w_kube w2) = Inr obj"
proof -
  let ?wt = "(new_watcher ''b1'' example_app ''reg/hello:b1'' 5)\<lparr>wt_Polling := True\<rparr>"
  have wt: "0 < length (w_watchers example_w3)" "?wt = w_watchers example_w3 ! 0" "a_ID (wt_App ?wt) = ''a1''"
    "wt_Polling ?wt" "a_Runtime (wt_App ?wt) \<noteq> RuntimeWorkerPool" "a_Name (wt_App ?wt) = ''hello''"
    by (simp_all add: example_w3_facts new_watcher_def example_app_def runtime_defs)
  have ns: "dp_spin_ns (bc_Deployer example_config) = ''fns''"
    by (simp add: example_config_def example_deployer_def)
  obtain w1 where del: "deleteApplication open_server True ''a1'' example_w3 = (NoContent, w1)"
    using example_delete [OF example_w3_facts(2)] by blast
  obtain st k' where dep: "deploy_Deploy digit_quantity mem_kube (bc_Deployer example_config) (build_deployment ?wt)
      (w_kube w1) = (Inr st, k')" using mem_deploy by blast
  from deleted_application_redeployed [of open_server, OF _ _ example_w3_facts(3) _ del wt(1-5), of example_done st k',
      OF _ _ _ _ _ refl, where now = 9] dep del wt(6) show ?thesis
    by (auto simp: example_done_def ns)
qed

end
