(* ===== verification/Spec2Isabelle.thy ===== *)
theory Spec2Isabelle
  imports Lifecycle Journeys
begin

text \<open>
  The SpinUP control plane in Isabelle/HOL.

  The program (Go, \<^verbatim>\<open>services/control-plane\<close>) keeps applications, their functions, the sources of the
  functions and the builds in SQLite, builds an application in a Kubernetes Job that pushes an OCI
  image, deploys the image as a SpinApp with an Istio VirtualService, and serves a JSON API behind
  OIDC authentication. A request goes through the outer mux, the metrics middleware, the
  authentication middleware and the API mux to a handler; the handler calls the store, the deployer
  or the builder; a build leaves a goroutine behind that polls its Job, deploys the image and records
  the outcome. The theories follow these parts; a definition has the name of the Go function it
  models, or that name with the prefix of its part where it would clash.

  \<^bold>\<open>Foundations.\<close> \<open>Prelude\<close>: results (a sum, the error on the left), \<^verbatim>\<open>time.Time\<close> and durations as
  integers of nanoseconds, the 32-bit conversion, lists that are keyed by an identifier. \<open>Go_Strings\<close>: the
  functions of \<^verbatim>\<open>strings\<close>, \<^verbatim>\<open>path\<close>, \<^verbatim>\<open>strconv\<close>, \<^verbatim>\<open>encoding/base64\<close> and of \<^verbatim>\<open>%q\<close> that the code uses,
  over byte strings. \<open>Json_Text\<close>: UTF-8 as \<^verbatim>\<open>unicode/utf8\<close> reads it, and what a string and a map of
  strings are after \<^verbatim>\<open>encoding/json\<close> has written and read them. \<open>Http\<close>: header keys, query strings and
  their encoding, the answers of an HTTP client.

  \<^bold>\<open>Policy and identity.\<close> \<open>Policy\<close> (\<^verbatim>\<open>internal/policy\<close>): the resource policy; what it accepts and
  what it gives, field by field. \<open>Sessions\<close> (\<^verbatim>\<open>internal/session\<close>): the session store as a locale
  \<open>session_store\<close>, and the memory store with its sweep as an interpretation; it refines a map of unexpired
  sessions. \<open>Auth\<close> (\<^verbatim>\<open>internal/auth\<close>): roles, the middleware, login with PKCE, callback and logout;
  the client of the session store is proved inside the locale.

  \<^bold>\<open>Storage.\<close> \<open>Store\<close> (\<^verbatim>\<open>internal/store/store.go\<close>): rows, the interface as a record of
  operations, its abstract specification on four maps, and its contract as the locale \<open>store_contract\<close>.
  The statuses of a build are ordered by \<^verbatim>\<open>pending\<close>, \<^verbatim>\<open>running\<close>, then either end (an instance of \<open>order\<close>).
  \<open>Sqlite\<close> (\<^verbatim>\<open>sqlite.go\<close>): every statement on tables of rows, with uniqueness, foreign keys and
  cascades, and the column of the source files read back through JSON; the interpretation \<open>sq\<close> gives every
  client its lemmas. \<open>Archive\<close>
  (\<^verbatim>\<open>httpapi/archive.go\<close>, \<^verbatim>\<open>packFiles\<close>): the archives as lists of entries.

  \<^bold>\<open>Cluster.\<close> \<open>Kube\<close>: the calls on the API server as a record of parameters, their documented
  behaviour as the predicates \<open>accessor_laws\<close> and \<open>apply_laws\<close>, and an in-memory cluster that satisfies them. \<open>Spinapp\<close>, \<open>Istio\<close>, \<open>Deploy\<close> (\<^verbatim>\<open>internal/spinapp\<close>, \<^verbatim>\<open>istio\<close>,
  \<^verbatim>\<open>deploy\<close>): apply, read, delete, publish, withdraw. \<open>Manifest\<close> (\<^verbatim>\<open>builder/manifest.go\<close>):
  \<^verbatim>\<open>spin.toml\<close> and a reader for it. \<open>Builder\<close> (\<^verbatim>\<open>builder/builder.go\<close>): start, watcher, logs;
  the process as a step relation in which a goroutine is an entry of the state, and the life of a
  build by rule induction.

  \<^bold>\<open>The API\<close> (\<^verbatim>\<open>internal/httpapi\<close>). \<open>Api\<close>: bodies, guards, loaders, rendering. \<open>Applications\<close>,
  \<open>Functions\<close>, \<open>Sources\<close>, \<open>Builds\<close> (with logs and the listing for the worker), \<open>Invoke\<close> with \<open>Proxy\<close>
  (\<^verbatim>\<open>internal/proxy\<close>), \<open>Metrics\<close> with \<open>Promql\<close> (\<^verbatim>\<open>internal/promql\<close>): one function per handler, from a
  world (store, cluster, counters, watchers) to a reply and a world, every guard and early return a
  branch. \<open>Server\<close>: the routes, \<open>serve\<close> over all endpoints, the middleware in front; reading is safe, the
  form of every reply.

  \<^bold>\<open>The whole.\<close> \<open>Process\<close>: the store calls of the handlers interleave with the steps of the watchers
  and of the cluster; the rows stay as the handlers check them, every request is a run of such steps,
  the watchers terminate and leave every build over. \<open>Effects\<close>: what a failing request leaves behind,
  what an update changes, what a build ships. \<open>Config\<close> (\<^verbatim>\<open>internal/config\<close>) and \<open>Startup\<close>
  (\<^verbatim>\<open>cmd/control-plane\<close>, \<^verbatim>\<open>internal/k8s\<close>, the constructors): from the environment to the wired
  server. \<open>Telemetry\<close> (\<^verbatim>\<open>internal/telemetry\<close>): the registration of the instruments, the status recorder
  and the sample of a request. \<open>Web\<close> (\<^verbatim>\<open>httpapi/server.go\<close>, \<^verbatim>\<open>internal/webui\<close>): the outer mux.
  \<open>System\<close>: from a start on, whole requests in sequence, with steps of the process (store calls of other
  requests, watchers, cluster) between them: the invariant of the
  whole and the origin of every session in a verified token. \<open>Lifecycle\<close>: \<^verbatim>\<open>main\<close> from the start
  through serving and the graceful shutdown to the exit; the store is closed on the way out, and a build
  that is in progress then is stranded in the next process. \<open>Journeys\<close>: what a client sees over several
  requests: an application is created and read, deployed and shown, deleted and gone; what a successful
  build has deployed; a deletion and an update that race with a build or with another update.

  \<^bold>\<open>Parameters.\<close> What is not in the repository is an argument: the Kubernetes client (of which only
  \<open>accessor_laws\<close> and \<open>apply_laws\<close> are assumed, as named hypotheses, where a property needs them), the quantity parser and its comparison, the OIDC and
  OAuth2 libraries, SHA-256 and random bytes, the HTTP client, the Prometheus decoder and float parser,
  the answers of the SQLite driver at the opening, the file system of the UI, the readings of the clock.
  Every theorem holds for all of them; the witnesses use concrete ones.

  \<^bold>\<open>Bounds.\<close> There is no fuel: every loop of the code is structural recursion on its list. Polling
  is one step whose outcome is any that \<^verbatim>\<open>wait.PollUntilContextTimeout\<close> can give, the timeout
  included, so a watcher takes two steps. The limits of the code (8 MiB of source, 1 MiB of invocation
  bodies, a minute to a day of metrics and so on) are the constants of the code. Integers are
  mathematical where nothing can leave their width; the width is written out where something can:
  conversions to \<^verbatim>\<open>int32\<close>, parsed numbers, parsed durations, differences of times.

  \<^bold>\<open>Not modelled.\<close> Log lines; the syntax of JSON, tar and gzip (a body is what its decoding gives,
  an archive is its entries; what JSON does to bytes that are not text is modelled where such bytes can
  reach it, in the source files, while the other JSON columns hold strings of decoded bodies or of the
  configuration); the cleaning and redirecting of paths by \<^verbatim>\<open>ServeMux\<close> (a path is its list of
  unescaped elements); case mapping and white space beyond ASCII; back pressure and chunks of streamed
  logs (a reply is its whole text, so \<^verbatim>\<open>Flush\<close> does nothing); the measured duration of a request; the 15 s
  that bound the shutdown (it ends with or without an error); the dead function \<^verbatim>\<open>bearer\<close> of \<^verbatim>\<open>oidc.go\<close> and the
  choice of the UI's directory (its files are a parameter). An authenticated handler
  reads the store more than once only in \<open>Process\<close>, where other requests come between its writing calls. The worker
  (Rust), the user interface (TypeScript), the builder images (shell) and the charts are other programs.
\<close>

end
